theory Spec2Isabelle
  imports Complex_Main
begin

section \<open>Rocket Blaster: the simulation core of \<^verbatim>\<open>RocketBlaster.tsx\<close>\<close>

text \<open>
  The component keeps its simulation state in React refs and two React state cells
  (\<^verbatim>\<open>score\<close>, \<^verbatim>\<open>mode\<close>). The embedding collects them in one record and passes it
  through every function that reads or writes a ref.

  React state: a call of \<^verbatim>\<open>setMode\<close> or \<^verbatim>\<open>setScore\<close> is queued by React and takes
  effect when the component next renders, after the handler or the animation frame that
  made the call has returned. No function of the simulation reads either cell after
  setting it in the same call, so a new mode, the score 0 of a reset and the value added
  for a collected orb are written to the record at once. The updater queued for a
  destroyed enemy is different: it reads the combo multiplier when React runs it. The
  record counts these updaters in \<open>scoreUpdaters\<close>, and \<open>render\<close> runs them.

  Numbers: a JavaScript \<^verbatim>\<open>number\<close> is modelled as a real. Rounding, overflow and the
  values NaN and Infinity are therefore outside the model; the one place where the source
  guards a division (\<^verbatim>\<open>length(v) || 1\<close>) is kept as the explicit divisor \<open>normLen\<close>.

  Randomness: every \<^verbatim>\<open>Math.random()\<close> call reads the head of a supply
  \<open>rs :: nat \<Rightarrow> real\<close> and continues with its tail; the supply is an input of each
  handler, and the draws are taken in the order in which the source evaluates them.
\<close>

subsection \<open>Data model\<close>

type_synonym Vector2D = "real \<times> real"

type_synonym rng = "nat \<Rightarrow> real"

definition skip :: "nat \<Rightarrow> rng \<Rightarrow> rng" where
  "skip k rs = (\<lambda>n. rs (n + k))"

record Bullet =
  b_pos :: Vector2D
  b_radius :: real
  b_speed :: real
  b_direction :: Vector2D
  b_homing :: bool

datatype Kind = Asteroid | Ufo | BossUfo | BossGolem

record Enemy =
  e_position :: Vector2D
  e_width :: real
  e_height :: real
  e_velocity :: Vector2D
  e_kind :: Kind
  e_rotation :: real
  e_spin :: real
  e_hp :: real
  e_asteroidRadii :: "real list option"

record Rocket =
  r_position :: Vector2D
  r_width :: real
  r_height :: real
  r_speed :: real

record Particle =
  p_position :: Vector2D
  p_velocity :: Vector2D
  p_life :: real
  p_maxLife :: real
  p_sizeStart :: real
  p_sizeEnd :: real
  p_colorStart :: string
  p_colorEnd :: string
  p_additive :: bool

datatype PowerUpType = Spread | Laser | Homing | Shield | Slowmo | Magnet

record PowerUp =
  pu_position :: Vector2D
  pu_radius :: real
  pu_type :: PowerUpType
  pu_ttl :: real

record ScoreOrb =
  o_position :: Vector2D
  o_velocity :: Vector2D
  o_value :: real

record GravityWell =
  w_position :: Vector2D
  w_radius :: real
  w_strength :: real
  w_drift :: Vector2D

record Beam =
  bm_origin :: Vector2D
  bm_direction :: Vector2D
  bm_width :: real
  bm_ttl :: real

text \<open>Of a theme only the name and the two gameplay parameters are kept.\<close>

record EnvironmentTheme =
  name :: string
  ufoChance :: real
  enemySpeedMultiplier :: real

definition THEMES :: "EnvironmentTheme list" where
  "THEMES =
   [\<lparr>name = ''Blue Void'', ufoChance = 0.45, enemySpeedMultiplier = 1.0\<rparr>,
    \<lparr>name = ''Ember Rift'', ufoChance = 0.3, enemySpeedMultiplier = 1.1\<rparr>,
    \<lparr>name = ''Emerald Drift'', ufoChance = 0.5, enemySpeedMultiplier = 0.95\<rparr>,
    \<lparr>name = ''Violet Nebula'', ufoChance = 0.55, enemySpeedMultiplier = 1.0\<rparr>,
    \<lparr>name = ''Icy Expanse'', ufoChance = 0.4, enemySpeedMultiplier = 0.9\<rparr>]"

datatype Mode = Menu | Playing | Gameover

datatype MenuSection = Controls | PowerUps | Scoring | BossHazards | Maps

datatype HitType = HitSection MenuSection | HitStart

record HitRect =
  h_x :: real
  h_y :: real
  h_w :: real
  h_h :: real
  h_type :: HitType

text \<open>
  One field per ref, named as the ref without its \<^verbatim>\<open>Ref\<close> suffix. \<open>eventActive\<close> is
  \<^verbatim>\<open>null | "meteor"\<close> in the source, a flag here.
\<close>

record state =
  score :: real
  scoreUpdaters :: nat
  mode :: Mode
  lastTime :: "real option"
  pressedKeys :: "string set"
  aimPosition :: "Vector2D option"
  rocket :: Rocket
  bullets :: "Bullet list"
  enemies :: "Enemy list"
  particles :: "Particle list"
  spawnAccumulator :: real
  spawnInterval :: real
  difficultyTimer :: real
  screenShake :: real
  powerUps :: "PowerUp list"
  scoreOrbs :: "ScoreOrb list"
  wells :: "GravityWell list"
  beams :: "Beam list"
  powerupSpawnTimer :: real
  wellSpawnTimer :: real
  hideHUD :: bool
  bossTimer :: real
  eventTimer :: real
  eventActive :: bool
  eventTimeLeft :: real
  meteorSpawnAcc :: real
  hasShield :: bool
  shieldTimer :: real
  slowMo :: real
  magnet :: real
  homing :: real
  spread :: real
  laser :: real
  multiplier :: real
  comboTimer :: real
  pause :: bool
  highContrast :: bool
  reducedMotion :: bool
  flashTimer :: real
  currentThemeIdx :: nat
  nextThemeIdx :: nat
  themeBlend :: real
  themeTimer :: real
  themeDuration :: real
  themeTransitioning :: bool
  menuSection :: MenuSection
  menuHitRects :: "HitRect list"

text \<open>
  The refs as the component creates them. The only random initial value is the current
  theme index, \<^verbatim>\<open>Math.floor(Math.random() * THEMES.length)\<close>, taken here as \<open>i\<close>.
\<close>

definition initState :: "nat \<Rightarrow> state" where
  "initState i =
   \<lparr>score = 0, scoreUpdaters = 0, mode = Menu, lastTime = None, pressedKeys = {}, aimPosition = None,
    rocket = \<lparr>r_position = (0, 0), r_width = 48, r_height = 28, r_speed = 460\<rparr>,
    bullets = [], enemies = [], particles = [],
    spawnAccumulator = 0, spawnInterval = 900, difficultyTimer = 0, screenShake = 0,
    powerUps = [], scoreOrbs = [], wells = [], beams = [],
    powerupSpawnTimer = 0, wellSpawnTimer = 0, hideHUD = False,
    bossTimer = 0, eventTimer = 0, eventActive = False, eventTimeLeft = 0,
    meteorSpawnAcc = 0,
    hasShield = False, shieldTimer = 0, slowMo = 0, magnet = 0, homing = 0, spread = 0,
    laser = 0,
    multiplier = 1, comboTimer = 0,
    pause = False, highContrast = False, reducedMotion = False, flashTimer = 0,
    currentThemeIdx = i, nextThemeIdx = (i + 1) mod length THEMES,
    themeBlend = 0, themeTimer = 0, themeDuration = 35, themeTransitioning = False,
    menuSection = Controls, menuHitRects = []\<rparr>"

subsection \<open>Helpers\<close>

definition clamp :: "real \<Rightarrow> real \<Rightarrow> real \<Rightarrow> real" where
  "clamp v lo hi = max lo (min hi v)"

definition hypot :: "real \<Rightarrow> real \<Rightarrow> real" where
  "hypot a b = sqrt (a * a + b * b)"

definition length_v :: "Vector2D \<Rightarrow> real" where
  "length_v v = hypot (fst v) (snd v)"

text \<open>\<^verbatim>\<open>a || 1\<close> on numbers: the right operand when the left one is 0.\<close>

definition orOne :: "real \<Rightarrow> real" where
  "orOne a = (if a = 0 then 1 else a)"

definition normLen :: "Vector2D \<Rightarrow> real" where
  "normLen v = orOne (length_v v)"

definition normalize :: "Vector2D \<Rightarrow> Vector2D" where
  "normalize v = (fst v / normLen v, snd v / normLen v)"

definition lerp :: "real \<Rightarrow> real \<Rightarrow> real \<Rightarrow> real" where
  "lerp a b t = a + (b - a) * t"

text \<open>\<^verbatim>\<open>Math.atan2(y, x)\<close> on reals.\<close>

definition atan2 :: "real \<Rightarrow> real \<Rightarrow> real" where
  "atan2 b a =
     (if 0 < a then arctan (b / a)
      else if a < 0 then (if 0 \<le> b then arctan (b / a) + pi else arctan (b / a) - pi)
      else if 0 < b then pi / 2
      else if b < 0 then - (pi / 2)
      else 0)"

definition rocketCenter :: "Rocket \<Rightarrow> Vector2D" where
  "rocketCenter r =
     (fst (r_position r) + r_width r / 2, snd (r_position r) + r_height r / 2)"

subsection \<open>Firing\<close>

text \<open>
  The direction \<^verbatim>\<open>shootBullet\<close> computes from the rocket centre to the aim point, and
  the nose position the shot starts from.
\<close>

definition aimPoint :: "state \<Rightarrow> Vector2D" where
  "aimPoint s =
     (case aimPosition s of
        Some a \<Rightarrow> a
      | None \<Rightarrow> (fst (rocketCenter (rocket s)), snd (rocketCenter (rocket s)) - 1))"

definition aimDirection :: "state \<Rightarrow> Vector2D" where
  "aimDirection s =
     normalize (fst (aimPoint s) - fst (rocketCenter (rocket s)),
                snd (aimPoint s) - snd (rocketCenter (rocket s)))"

definition noseOrigin :: "state \<Rightarrow> Vector2D" where
  "noseOrigin s =
     (let center = rocketCenter (rocket s);
          direction = aimDirection s;
          noseOffset = r_width (rocket s) * 0.52
      in (fst center + fst direction * noseOffset, snd center + snd direction * noseOffset))"

definition makeBullet :: "Vector2D \<Rightarrow> Vector2D \<Rightarrow> Bullet" where
  "makeBullet origin dir =
     \<lparr>b_pos = origin, b_radius = 3.2, b_speed = 1000, b_direction = dir, b_homing = False\<rparr>"

text \<open>The loop \<^verbatim>\<open>for (let i = 0; i < 8; i++)\<close> of the muzzle flash; five draws a particle.\<close>

fun muzzleFlash :: "nat \<Rightarrow> Vector2D \<Rightarrow> Vector2D \<Rightarrow> rng \<Rightarrow> Particle list" where
  "muzzleFlash 0 origin direction rs = []"
| "muzzleFlash (Suc n) origin direction rs =
     \<lparr>p_position = (fst origin + fst direction * 4, snd origin + snd direction * 4),
      p_velocity = (fst direction * (200 + rs 0 * 200) + (rs 1 - 0.5) * 80,
                    snd direction * (200 + rs 2 * 200) + (rs 3 - 0.5) * 80),
      p_life = 0,
      p_maxLife = 0.18 + rs 4 * 0.12,
      p_sizeStart = 4,
      p_sizeEnd = 0,
      p_colorStart = ''rgba(255,210,120,0.9)'',
      p_colorEnd = ''rgba(255,120,40,0.0)'',
      p_additive = True\<rparr> # muzzleFlash n origin direction (skip 5 rs)"

text \<open>
  \<^verbatim>\<open>shootBullet\<close>. \<open>canvas\<close> tells whether \<^verbatim>\<open>canvasRef.current\<close> is set; a bullet is
  created without a \<^verbatim>\<open>homing\<close> property, which reads as false.
\<close>

definition shootBullet :: "bool \<Rightarrow> rng \<Rightarrow> state \<Rightarrow> state" where
  "shootBullet canvas rs s =
     (if \<not> canvas then s
      else
        let direction = aimDirection s;
            origin = noseOrigin s
        in if 0 < laser s then
             s\<lparr>beams := beams s @
                [\<lparr>bm_origin = origin, bm_direction = direction, bm_width = 6, bm_ttl = 0.12\<rparr>]\<rparr>
           else
             let ang = atan2 (snd direction) (fst direction);
                 off = 0.18;
                 shots =
                   (if 0 < spread s then
                      [makeBullet origin (cos (ang - off), sin (ang - off)),
                       makeBullet origin direction,
                       makeBullet origin (cos (ang + off), sin (ang + off))]
                    else [makeBullet origin direction])
             in s\<lparr>bullets := bullets s @ shots,
                  particles := particles s @ muzzleFlash 8 origin direction rs\<rparr>)"

subsection \<open>Reset and start\<close>

text \<open>
  \<^verbatim>\<open>resetGame\<close>; \<open>container\<close> is the size of the container's bounding rectangle when
  \<^verbatim>\<open>containerRef.current\<close> is set.
\<close>

definition resetGame :: "(real \<times> real) option \<Rightarrow> state \<Rightarrow> state" where
  "resetGame container s =
     (let s1 = s\<lparr>score := 0, bullets := [], enemies := [], particles := [],
                 spawnAccumulator := 0, spawnInterval := 900, difficultyTimer := 0,
                 lastTime := None, screenShake := 0\<rparr>
      in case container of
           None \<Rightarrow> s1
         | Some (rw, rh) \<Rightarrow>
             s1\<lparr>rocket := (rocket s1)\<lparr>r_position :=
                  (rw / 2 - r_width (rocket s1) / 2, rh / 2 - r_height (rocket s1) / 2)\<rparr>\<rparr>)"

definition startGame :: "(real \<times> real) option \<Rightarrow> state \<Rightarrow> state" where
  "startGame container s = (resetGame container s)\<lparr>mode := Playing\<rparr>"

subsection \<open>Themes\<close>

text \<open>
  \<^verbatim>\<open>pickNextThemeIndex\<close>: the loop \<^verbatim>\<open>while (idx === exclude)\<close> draws until the index
  differs; it does not return on a supply that never yields another index, which is the
  value \<open>None\<close>.
\<close>

partial_function (option) pickLoop :: "nat \<Rightarrow> nat \<Rightarrow> rng \<Rightarrow> (nat \<times> rng) option" where
  "pickLoop exclude idx rs =
     (if idx = exclude
      then pickLoop exclude (nat \<lfloor>rs 0 * real (length THEMES)\<rfloor>) (skip 1 rs)
      else Some (idx, rs))"

definition pickNextThemeIndex :: "nat \<Rightarrow> rng \<Rightarrow> (nat \<times> rng) option" where
  "pickNextThemeIndex exclude rs =
     (if length THEMES \<le> 1 then Some (exclude, rs) else pickLoop exclude exclude rs)"

definition getEffectiveThemeBlend :: "state \<Rightarrow> EnvironmentTheme \<times> EnvironmentTheme \<times> real" where
  "getEffectiveThemeBlend s =
     (THEMES ! currentThemeIdx s, THEMES ! nextThemeIdx s,
      if themeTransitioning s then clamp (themeBlend s) 0 1 else 0)"

text \<open>The first statements of \<^verbatim>\<open>spawnEnemy\<close>: the theme whose parameters it reads.\<close>

definition spawnTheme :: "state \<Rightarrow> EnvironmentTheme" where
  "spawnTheme s =
     (case getEffectiveThemeBlend s of
        (themeA, themeB, blend) \<Rightarrow> if 0 < blend then themeB else themeA)"

text \<open>The theme rotation of \<^verbatim>\<open>update\<close>, in its two \<^verbatim>\<open>if\<close> statements.\<close>

definition themeStart :: "real \<Rightarrow> rng \<Rightarrow> state \<Rightarrow> (state \<times> rng) option" where
  "themeStart dt rs s =
     (let s1 = s\<lparr>themeTimer := themeTimer s + dt\<rparr>
      in if \<not> themeTransitioning s1 \<and> themeDuration s1 < themeTimer s1 then
           (case pickNextThemeIndex (currentThemeIdx s1) rs of
              None \<Rightarrow> None
            | Some (i, rs1) \<Rightarrow>
                Some (s1\<lparr>themeTransitioning := True, themeBlend := 0, themeTimer := 0,
                         nextThemeIdx := i\<rparr>, rs1))
         else Some (s1, rs))"

definition themeCrossfade :: "real \<Rightarrow> rng \<Rightarrow> state \<Rightarrow> (state \<times> rng) option" where
  "themeCrossfade dt rs s =
     (if themeTransitioning s then
        let s1 = s\<lparr>themeBlend := themeBlend s + dt / 4\<rparr>
        in if 1 \<le> themeBlend s1 then
             (case pickNextThemeIndex (nextThemeIdx s1) rs of
                None \<Rightarrow> None
              | Some (i, rs1) \<Rightarrow>
                  Some (s1\<lparr>themeBlend := 0, themeTransitioning := False,
                           currentThemeIdx := nextThemeIdx s1, nextThemeIdx := i\<rparr>, rs1))
           else Some (s1, rs)
      else Some (s, rs))"

definition themeRotation :: "real \<Rightarrow> rng \<Rightarrow> state \<Rightarrow> (state \<times> rng) option" where
  "themeRotation dt rs s =
     (case themeStart dt rs s of
        None \<Rightarrow> None
      | Some (s1, rs1) \<Rightarrow> themeCrossfade dt rs1 s1)"

subsection \<open>The tick: ship, combo, difficulty\<close>

definition moveIntent :: "string set \<Rightarrow> real \<times> real" where
  "moveIntent pressed =
     (let left = (''arrowleft'' \<in> pressed \<or> ''a'' \<in> pressed);
          right = (''arrowright'' \<in> pressed \<or> ''d'' \<in> pressed);
          up = (''arrowup'' \<in> pressed \<or> ''w'' \<in> pressed);
          down = (''arrowdown'' \<in> pressed \<or> ''s'' \<in> pressed)
      in (if left \<and> \<not> right then - 1 else if right \<and> \<not> left then 1 else 0,
          if up \<and> \<not> down then - 1 else if down \<and> \<not> up then 1 else 0))"

definition moveRocket :: "real \<Rightarrow> real \<Rightarrow> real \<Rightarrow> state \<Rightarrow> state" where
  "moveRocket dt width height s =
     (let r = rocket s;
          mv = moveIntent (pressedKeys s);
          p1 = (if fst mv \<noteq> 0 \<or> snd mv \<noteq> 0 then
                  (fst (r_position r) + fst (normalize mv) * r_speed r * dt,
                   snd (r_position r) + snd (normalize mv) * r_speed r * dt)
                else r_position r)
      in s\<lparr>rocket := r\<lparr>r_position :=
             (clamp (fst p1) 0 (width - r_width r), clamp (snd p1) 0 (height - r_height r))\<rparr>\<rparr>)"

definition comboDecay :: "real \<Rightarrow> state \<Rightarrow> state" where
  "comboDecay dt s =
     (let s1 = s\<lparr>comboTimer := comboTimer s + dt\<rparr>
      in if 2.5 < comboTimer s1 then s1\<lparr>multiplier := max 1 (multiplier s1 - dt * 0.4)\<rparr>
         else s1)"

definition difficulty :: "real \<Rightarrow> state \<Rightarrow> state" where
  "difficulty dt s =
     (let s1 = s\<lparr>difficultyTimer := difficultyTimer s + dt * 1000\<rparr>
      in if 5000 < difficultyTimer s1 then
           s1\<lparr>difficultyTimer := 0, spawnInterval := max 220 (spawnInterval s1 - 40)\<rparr>
         else s1)"

subsection \<open>The tick: spawning\<close>

text \<open>
  \<^verbatim>\<open>spawnEnemy\<close>. Draws in source order: edge, edge coordinate, kind, then the size
  (asteroid: base, segment count, one draw a segment, hp; UFO: width, height), the two
  target jitters, the speed, and in the pushed literal rotation and spin.
\<close>

definition spawnEnemy :: "real \<Rightarrow> real \<Rightarrow> rng \<Rightarrow> state \<Rightarrow> state \<times> rng" where
  "spawnEnemy width height rs s =
     (let theme = spawnTheme s;
          edge = \<lfloor>rs 0 * 4\<rfloor>;
          sx = (if edge = 0 then rs 1 * width else if edge = 1 then width + 20
                else if edge = 2 then rs 1 * width else - 20);
          sy = (if edge = 0 then - 20 else if edge = 1 then rs 1 * height
                else if edge = 2 then height + 20 else rs 1 * height);
          kind = (if rs 2 < ufoChance theme then Ufo else Asteroid);
          rs3 = skip 3 rs;
          base = 20 + rs3 0 * 18;
          segments = nat (10 + \<lfloor>rs3 1 * 5\<rfloor>);
          radii = map (\<lambda>i. base + (rs3 (2 + i) * 10 - 5)) [0..<segments];
          enemyWidth = (if kind = Asteroid then base * 2 else 52 + rs3 0 * 12);
          enemyHeight = (if kind = Asteroid then base * 2 else 26 + rs3 1 * 6);
          hp = (if kind = Asteroid then 2 + (if rs3 (2 + segments) < 0.5 then 1 else 0)
                else 2);
          asteroidRadii = (if kind = Asteroid then Some radii else None);
          rs4 = (if kind = Asteroid then skip (3 + segments) rs3 else skip 2 rs3);
          center = rocketCenter (rocket s);
          target = (fst center + (rs4 0 * 80 - 40), snd center + (rs4 1 * 80 - 40));
          dir = normalize (fst target - sx, snd target - sy);
          speed = (90 + rs4 2 * 140) * enemySpeedMultiplier theme
      in (s\<lparr>enemies := enemies s @
            [\<lparr>e_position = (sx - enemyWidth / 2, sy - enemyHeight / 2),
              e_width = enemyWidth,
              e_height = enemyHeight,
              e_velocity = (fst dir * speed, snd dir * speed),
              e_kind = kind,
              e_rotation = rs4 3 * pi * 2,
              e_spin = (rs4 4 - 0.5) * 1.6,
              e_hp = hp,
              e_asteroidRadii = asteroidRadii\<rparr>]\<rparr>,
          skip 5 rs4))"

definition isBoss :: "Enemy \<Rightarrow> bool" where
  "isBoss e = (e_kind e = BossUfo \<or> e_kind e = BossGolem)"

definition bossAlive :: "state \<Rightarrow> bool" where
  "bossAlive s = list_ex isBoss (enemies s)"

text \<open>The kinds the regular spawner creates.\<close>

definition regular :: "Enemy \<Rightarrow> bool" where
  "regular e = (e_kind e = Ufo \<or> e_kind e = Asteroid)"

text \<open>One round of the loop \<^verbatim>\<open>while (spawnAccumulatorRef.current >= spawnStep)\<close>.\<close>

definition spawnBody :: "real \<Rightarrow> bool \<Rightarrow> real \<Rightarrow> real \<Rightarrow> state \<times> rng \<Rightarrow> state \<times> rng" where
  "spawnBody spawnStep boss width height sr =
     (let s1 = (fst sr)\<lparr>spawnAccumulator := spawnAccumulator (fst sr) - spawnStep\<rparr>
      in if \<not> boss then spawnEnemy width height (snd sr) s1 else (s1, snd sr))"

text \<open>
  The loop itself. With a step that is not positive the source never leaves it; \<open>None\<close>
  stands for that.
\<close>

partial_function (option) spawnLoop ::
  "real \<Rightarrow> bool \<Rightarrow> real \<Rightarrow> real \<Rightarrow> state \<times> rng \<Rightarrow> (state \<times> rng) option" where
  "spawnLoop spawnStep boss width height sr =
     (if spawnStep \<le> spawnAccumulator (fst sr)
      then spawnLoop spawnStep boss width height (spawnBody spawnStep boss width height sr)
      else Some sr)"

definition spawnStepOf :: "state \<Rightarrow> real" where
  "spawnStepOf s = (if bossAlive s then spawnInterval s * 1.8 else spawnInterval s)"

definition spawning :: "real \<Rightarrow> real \<Rightarrow> real \<Rightarrow> rng \<Rightarrow> state \<Rightarrow> (state \<times> rng) option" where
  "spawning dt width height rs s =
     (let s1 = s\<lparr>spawnAccumulator := spawnAccumulator s + dt * 1000\<rparr>
      in spawnLoop (spawnStepOf s1) (bossAlive s1) width height (s1, rs))"

text \<open>
  Boss waves; \<open>boss\<close> is the constant \<^verbatim>\<open>bossAlive\<close> computed before the spawn loop.
\<close>

definition bossWaves :: "real \<Rightarrow> real \<Rightarrow> bool \<Rightarrow> rng \<Rightarrow> state \<Rightarrow> state \<times> rng" where
  "bossWaves dt width boss rs s =
     (let s1 = s\<lparr>bossTimer := bossTimer s + dt\<rparr>
      in if \<not> boss \<and> 45 < bossTimer s1 then
           if rs 0 < 0.5 then
             (s1\<lparr>bossTimer := 0,
                 enemies := enemies s1 @
                   [\<lparr>e_position = (width / 2 - 120, - 100),
                     e_width = 240,
                     e_height = 120,
                     e_velocity = ((rs 1 - 0.5) * 30, 40),
                     e_kind = BossUfo,
                     e_rotation = 0,
                     e_spin = 0.2,
                     e_hp = 50,
                     e_asteroidRadii = None\<rparr>]\<rparr>,
              skip 2 rs)
           else
             (s1\<lparr>bossTimer := 0,
                 enemies := enemies s1 @
                   [\<lparr>e_position = (rs 15 * (width - 80 * 2), - 80 * 2),
                     e_width = 80 * 2,
                     e_height = 80 * 2,
                     e_velocity = ((rs 16 - 0.5) * 20, 35),
                     e_kind = BossGolem,
                     e_rotation = rs 17 * pi * 2,
                     e_spin = (rs 18 - 0.5) * 0.6,
                     e_hp = 60,
                     e_asteroidRadii =
                       Some (map (\<lambda>i. 80 + (rs (1 + i) * 24 - 12)) [0..<14])\<rparr>]\<rparr>,
              skip 19 rs)
         else (s1, rs))"

text \<open>The meteor shower: one round of its loop, the loop, and the event around it.\<close>

definition meteorBody :: "real \<Rightarrow> state \<times> rng \<Rightarrow> state \<times> rng" where
  "meteorBody width sr =
     (let s = fst sr; rs = snd sr;
          w = 18 + rs 0 * 10;
          h = 14 + rs 1 * 8
      in (s\<lparr>meteorSpawnAcc := meteorSpawnAcc s - 180,
            enemies := enemies s @
              [\<lparr>e_position = (rs 2 * width, - h - 10),
                e_width = w,
                e_height = h,
                e_velocity = ((rs 3 - 0.5) * 80, 260 + rs 4 * 80),
                e_kind = Asteroid,
                e_rotation = rs 5 * pi * 2,
                e_spin = (rs 6 - 0.5) * 2.0,
                e_hp = 1,
                e_asteroidRadii =
                  Some [w / 2, w / 2.4, w / 2.1, w / 2.6, w / 2.2, w / 2.5]\<rparr>]\<rparr>,
          skip 7 rs))"

function meteorLoop :: "real \<Rightarrow> state \<times> rng \<Rightarrow> state \<times> rng" where
  "meteorLoop width sr =
     (if 180 < meteorSpawnAcc (fst sr) then meteorLoop width (meteorBody width sr) else sr)"
  by pat_completeness auto
termination
proof (relation "measure (\<lambda>(width, sr). nat \<lfloor>meteorSpawnAcc (fst sr) / 180\<rfloor>)")
  show "wf (measure (\<lambda>(width, sr). nat \<lfloor>meteorSpawnAcc (fst sr) / 180\<rfloor>))"
    by simp
next
  fix width :: real and sr :: "state \<times> rng"
  assume big: "180 < meteorSpawnAcc (fst sr)"
  have eq: "(meteorSpawnAcc (fst sr) - 180) / 180 = meteorSpawnAcc (fst sr) / 180 - 1"
    by (simp add: diff_divide_distrib)
  have "1 \<le> \<lfloor>meteorSpawnAcc (fst sr) / 180\<rfloor>"
    using big by (simp add: le_floor_iff)
  then show "((width, meteorBody width sr), (width, sr))
      \<in> measure (\<lambda>(width, sr). nat \<lfloor>meteorSpawnAcc (fst sr) / 180\<rfloor>)"
    by (simp add: meteorBody_def Let_def eq)
qed

declare meteorLoop.simps [simp del]

definition meteorEvent :: "real \<Rightarrow> real \<Rightarrow> rng \<Rightarrow> state \<Rightarrow> state \<times> rng" where
  "meteorEvent dt width rs s =
     (let s1 = s\<lparr>eventTimer := eventTimer s + dt\<rparr>;
          s2 = (if \<not> eventActive s1 \<and> 25 < eventTimer s1 then
                  s1\<lparr>eventActive := True, eventTimeLeft := 8, eventTimer := 0,
                     meteorSpawnAcc := 0\<rparr>
                else s1)
      in if eventActive s2 then
           let s3 = s2\<lparr>eventTimeLeft := eventTimeLeft s2 - dt,
                       meteorSpawnAcc := meteorSpawnAcc s2 + dt * 1000\<rparr>;
               sr = meteorLoop width (s3, rs)
           in if eventTimeLeft (fst sr) \<le> 0 then ((fst sr)\<lparr>eventActive := False\<rparr>, snd sr)
              else sr
         else (s2, rs))"

subsection \<open>The tick: motion\<close>

definition driftWells :: "real \<Rightarrow> state \<Rightarrow> state" where
  "driftWells dt s =
     s\<lparr>wells := map (\<lambda>w. w\<lparr>w_position :=
            (fst (w_position w) + fst (w_drift w) * dt,
             snd (w_position w) + snd (w_drift w) * dt)\<rparr>) (wells s)\<rparr>"

text \<open>
  The slow-motion scale: \<^verbatim>\<open>effectiveDt\<close> is read off before the slow-mo time is
  decremented.
\<close>

definition effectiveDt :: "real \<Rightarrow> state \<Rightarrow> real" where
  "effectiveDt dt s = (if 0 < slowMo s then dt * 0.6 else dt)"

definition slowMoDecay :: "real \<Rightarrow> state \<Rightarrow> state" where
  "slowMoDecay dt s = (if 0 < slowMo s then s\<lparr>slowMo := slowMo s - dt\<rparr> else s)"

definition enemyCenter :: "Enemy \<Rightarrow> Vector2D" where
  "enemyCenter e =
     (fst (e_position e) + e_width e / 2, snd (e_position e) + e_height e / 2)"

definition gravityPull :: "real \<Rightarrow> Enemy \<Rightarrow> GravityWell \<Rightarrow> Enemy" where
  "gravityPull edt e w =
     (let to = (fst (w_position w) - fst (enemyCenter e),
                snd (w_position w) - snd (enemyCenter e));
          d = orOne (hypot (fst to) (snd to))
      in if d < w_radius w then
           let n = (fst to / d, snd to / d);
               pull = (1 - d / w_radius w) * w_strength w
           in e\<lparr>e_velocity := (fst (e_velocity e) + fst n * pull * edt,
                                snd (e_velocity e) + snd n * pull * edt)\<rparr>
         else e)"

definition moveEnemy :: "real \<Rightarrow> GravityWell list \<Rightarrow> Enemy \<Rightarrow> Enemy" where
  "moveEnemy edt ws e =
     foldl (gravityPull edt)
       (e\<lparr>e_position := (fst (e_position e) + fst (e_velocity e) * edt,
                          snd (e_position e) + snd (e_velocity e) * edt),
          e_rotation := e_rotation e + e_spin e * edt\<rparr>) ws"

definition updateEnemies :: "real \<Rightarrow> state \<Rightarrow> state" where
  "updateEnemies edt s = s\<lparr>enemies := map (moveEnemy edt (wells s)) (enemies s)\<rparr>"

text \<open>
  The search for the nearest enemy of a homing bullet: \<open>best\<close> carries the enemy found
  so far with its squared distance, \<open>None\<close> for \<^verbatim>\<open>null\<close> and \<^verbatim>\<open>Infinity\<close>.
\<close>

fun nearestEnemy :: "Vector2D \<Rightarrow> (Enemy \<times> real) option \<Rightarrow> Enemy list \<Rightarrow> (Enemy \<times> real) option" where
  "nearestEnemy bp best [] = best"
| "nearestEnemy bp best (e # es) =
     (let ex = fst (enemyCenter e);
          ey = snd (enemyCenter e);
          d = (ex - fst bp) * (ex - fst bp) + (ey - snd bp) * (ey - snd bp)
      in nearestEnemy bp
           (case best of
              None \<Rightarrow> Some (e, d)
            | Some (e0, bestDist) \<Rightarrow> if d < bestDist then Some (e, d) else best) es)"

definition steer :: "Enemy list \<Rightarrow> Bullet \<Rightarrow> Bullet" where
  "steer es b =
     (case nearestEnemy (b_pos b) None es of
        None \<Rightarrow> b
      | Some (best, bestDist) \<Rightarrow>
          let desired = normalize (fst (enemyCenter best) - fst (b_pos b),
                                   snd (enemyCenter best) - snd (b_pos b));
              dx = lerp (fst (b_direction b)) (fst desired) 0.08;
              dy = lerp (snd (b_direction b)) (snd desired) 0.08;
              L = orOne (hypot dx dy)
          in b\<lparr>b_direction := (dx / L, dy / L)\<rparr>)"

definition advanceBullet :: "real \<Rightarrow> Bullet \<Rightarrow> Bullet" where
  "advanceBullet edt b =
     b\<lparr>b_pos := (fst (b_pos b) + fst (b_direction b) * edt * b_speed b,
                 snd (b_pos b) + snd (b_direction b) * edt * b_speed b)\<rparr>"

text \<open>The loop over the bullets; a draw for each bullet not yet homing while the effect runs.\<close>

fun bulletsLoop :: "real \<Rightarrow> bool \<Rightarrow> Enemy list \<Rightarrow> Bullet list \<Rightarrow> rng \<Rightarrow> Bullet list \<times> rng" where
  "bulletsLoop edt hom es [] rs = ([], rs)"
| "bulletsLoop edt hom es (b # bs) rs =
     (let draws = (hom \<and> \<not> b_homing b);
          b1 = (if draws then b\<lparr>b_homing := (rs 0 < 0.5)\<rparr> else b);
          rs1 = (if draws then skip 1 rs else rs);
          b2 = (if b_homing b1 then steer es b1 else b1);
          rest = bulletsLoop edt hom es bs rs1
      in (advanceBullet edt b2 # fst rest, snd rest))"

definition updateBullets :: "real \<Rightarrow> rng \<Rightarrow> state \<Rightarrow> state \<times> rng" where
  "updateBullets edt rs s =
     (let r = bulletsLoop edt (0 < homing s) (enemies s) (bullets s) rs
      in (s\<lparr>bullets := fst r\<rparr>, snd r))"

subsection \<open>The tick: beams\<close>

text \<open>The capsule test of the beam pass, and the damage of one beam to one enemy.\<close>

definition inCapsule :: "Beam \<Rightarrow> Enemy \<Rightarrow> bool" where
  "inCapsule b e =
     (let nx = - snd (bm_direction b);
          ny = fst (bm_direction b);
          half = bm_width b / 2 + 2;
          to = (fst (enemyCenter e) - fst (bm_origin b),
                snd (enemyCenter e) - snd (bm_origin b));
          distSide = \<bar>fst to * nx + snd to * ny\<bar>;
          along = fst to * fst (bm_direction b) + snd to * snd (bm_direction b)
      in distSide < half \<and> - 20 < along)"

definition beamDamage :: "Beam \<Rightarrow> Enemy \<Rightarrow> Enemy" where
  "beamDamage b e = (if inCapsule b e then e\<lparr>e_hp := e_hp e - 0.8\<rparr> else e)"

text \<open>
  The loop over the beams: each beam in turn has its ttl decremented, is kept when the
  ttl is still positive, and damages the enemies.
\<close>

fun beamsLoop :: "real \<Rightarrow> Beam list \<Rightarrow> Beam list \<Rightarrow> Enemy list \<Rightarrow> Beam list \<times> Enemy list" where
  "beamsLoop dt [] remainingBeams es = (remainingBeams, es)"
| "beamsLoop dt (b # bs) remainingBeams es =
     (let b1 = b\<lparr>bm_ttl := bm_ttl b - dt\<rparr>
      in beamsLoop dt bs
           (if 0 < bm_ttl b1 then remainingBeams @ [b1] else remainingBeams)
           (map (beamDamage b1) es))"

definition beamsPass :: "real \<Rightarrow> state \<Rightarrow> state" where
  "beamsPass dt s =
     (let r = beamsLoop dt (beams s) [] (enemies s)
      in s\<lparr>beams := fst r, enemies := snd r\<rparr>)"

text \<open>The number of beams of a list whose capsule holds the centre of an enemy.\<close>

definition beamHits :: "Beam list \<Rightarrow> Enemy \<Rightarrow> nat" where
  "beamHits bs e = length (filter (\<lambda>b. inCapsule b e) bs)"

subsection \<open>The tick: destruction and collisions\<close>

definition rectCircleCollide :: "real \<Rightarrow> real \<Rightarrow> real \<Rightarrow> real \<Rightarrow> real \<Rightarrow> real \<Rightarrow> real \<Rightarrow> bool" where
  "rectCircleCollide rectX rectY rectW rectH circleX circleY radius =
     (let closestX = clamp circleX rectX (rectX + rectW);
          closestY = clamp circleY rectY (rectY + rectH);
          dx = circleX - closestX;
          dy = circleY - closestY
      in dx * dx + dy * dy \<le> radius * radius)"

definition rectRectOverlap :: "real \<Rightarrow> real \<Rightarrow> real \<Rightarrow> real \<Rightarrow> real \<Rightarrow> real \<Rightarrow> real \<Rightarrow> real \<Rightarrow> bool" where
  "rectRectOverlap ax ay aw ah bx by' bw bh =
     (ax < bx + bw \<and> ax + aw > bx \<and> ay < by' + bh \<and> ay + ah > by')"

text \<open>\<^verbatim>\<open>createExplosion\<close>: three draws for angle, speed and life, then the sizes.\<close>

fun explosionLoop :: "nat \<Rightarrow> Vector2D \<Rightarrow> Kind \<Rightarrow> rng \<Rightarrow> Particle list \<times> rng" where
  "explosionLoop 0 c kind rs = ([], rs)"
| "explosionLoop (Suc n) c kind rs =
     (let ang = rs 0 * pi * 2;
          spd = 120 + rs 1 * 240;
          vel = (cos ang * spd, sin ang * spd);
          life = 0.5 + rs 2 * 0.4
      in if kind = Asteroid then
           let rest = explosionLoop n c kind (skip 5 rs)
           in (\<lparr>p_position = c, p_velocity = (fst vel * 0.8, snd vel * 0.8), p_life = 0,
                p_maxLife = life, p_sizeStart = 4 + rs 3 * 3, p_sizeEnd = 0,
                p_colorStart = ''rgba(255,185,90,0.95)'',
                p_colorEnd = ''rgba(255,80,30,0.0)'', p_additive = True\<rparr> #
               \<lparr>p_position = c, p_velocity = (fst vel * 0.3, snd vel * 0.3), p_life = 0,
                p_maxLife = life + 0.2, p_sizeStart = 2 + rs 4 * 2, p_sizeEnd = 0,
                p_colorStart = ''rgba(200,200,200,0.9)'',
                p_colorEnd = ''rgba(180,180,180,0.0)'', p_additive = False\<rparr> #
               fst rest, snd rest)
         else
           let rest = explosionLoop n c kind (skip 4 rs)
           in (\<lparr>p_position = c, p_velocity = vel, p_life = 0,
                p_maxLife = life, p_sizeStart = 3.5 + rs 3 * 2.5, p_sizeEnd = 0,
                p_colorStart = ''rgba(140,220,255,0.95)'',
                p_colorEnd = ''rgba(80,160,255,0.0)'', p_additive = True\<rparr> #
               fst rest, snd rest))"

definition createExplosion :: "Vector2D \<Rightarrow> Kind \<Rightarrow> rng \<Rightarrow> state \<Rightarrow> state \<times> rng" where
  "createExplosion c kind rs s =
     (let r = explosionLoop (if kind = Asteroid then 30 else 24) c kind rs
      in (s\<lparr>particles := particles s @ fst r, screenShake := max (screenShake s) 6\<rparr>,
          snd r))"

fun orbsLoop :: "nat \<Rightarrow> Vector2D \<Rightarrow> rng \<Rightarrow> ScoreOrb list" where
  "orbsLoop 0 c rs = []"
| "orbsLoop (Suc n) c rs =
     \<lparr>o_position = c,
      o_velocity = (cos (rs 0 * pi * 2) * (60 + rs 1 * 120),
                    sin (rs 0 * pi * 2) * (60 + rs 1 * 120)),
      o_value = 1\<rparr> # orbsLoop n c (skip 2 rs)"

text \<open>
  \<^verbatim>\<open>onEnemyDestroyed\<close>. The call
  \<^verbatim>\<open>setScore((s) => s + Math.max(1, Math.floor(multiplierRef.current)))\<close> queues an
  updater; the multiplier is raised right after it, before React runs the updater.
\<close>

definition onEnemyDestroyed :: "Enemy \<Rightarrow> rng \<Rightarrow> state \<Rightarrow> state \<times> rng" where
  "onEnemyDestroyed enemy rs s =
     (let c = enemyCenter enemy;
          orbs = nat (2 + \<lfloor>rs 0 * 3\<rfloor>);
          s1 = s\<lparr>scoreUpdaters := scoreUpdaters s + 1,
                 multiplier := min 5 (multiplier s + 0.2),
                 comboTimer := 0,
                 scoreOrbs := scoreOrbs s @ orbsLoop orbs c (skip 1 rs)\<rparr>
      in createExplosion c (e_kind enemy) (skip (1 + 2 * orbs) rs) s1)"

definition hits :: "Enemy \<Rightarrow> Bullet \<Rightarrow> bool" where
  "hits enemy bullet =
     rectCircleCollide (fst (e_position enemy)) (snd (e_position enemy)) (e_width enemy)
       (e_height enemy) (fst (b_pos bullet)) (snd (b_pos bullet)) (b_radius bullet)"

definition impactParticle :: "Bullet \<Rightarrow> rng \<Rightarrow> Particle" where
  "impactParticle bullet rs =
     \<lparr>p_position = b_pos bullet,
      p_velocity = ((rs 0 - 0.5) * 120, (rs 1 - 0.5) * 120),
      p_life = 0, p_maxLife = 0.25, p_sizeStart = 3, p_sizeEnd = 0,
      p_colorStart = ''rgba(255,200,120,0.9)'',
      p_colorEnd = ''rgba(255,100,30,0.0)'',
      p_additive = True\<rparr>"

text \<open>
  The inner loop of the bullet pass for one enemy. \<^verbatim>\<open>bulletsRef.current\<close> is spliced
  in place while it is scanned: \<open>kept\<close> are the bullets already passed, the list argument
  the bullets still ahead. The result is the enemy with its new hp,
  \<^verbatim>\<open>isDestroyed\<close>, the bullets left, the supply and the state.
\<close>

fun hitLoop :: "Enemy \<Rightarrow> Bullet list \<Rightarrow> Bullet list \<Rightarrow> rng \<Rightarrow> state
    \<Rightarrow> Enemy \<times> bool \<times> Bullet list \<times> rng \<times> state" where
  "hitLoop enemy kept [] rs s = (enemy, False, kept, rs, s)"
| "hitLoop enemy kept (bullet # bs) rs s =
     (if hits enemy bullet then
        let e1 = enemy\<lparr>e_hp := e_hp enemy - 1\<rparr>;
            s1 = s\<lparr>particles := particles s @ [impactParticle bullet rs]\<rparr>
        in if e_hp e1 \<le> 0 then
             (case onEnemyDestroyed e1 (skip 2 rs) s1 of
                (s2, rs2) \<Rightarrow> (e1, True, kept @ bs, rs2, s2))
           else hitLoop e1 kept bs (skip 2 rs) s1
      else hitLoop enemy (kept @ [bullet]) bs rs s)"

text \<open>The outer loop over the enemies, collecting \<^verbatim>\<open>remainingEnemies\<close>.\<close>

fun collideLoop :: "Enemy list \<Rightarrow> Enemy list \<Rightarrow> Bullet list \<Rightarrow> rng \<Rightarrow> state
    \<Rightarrow> Enemy list \<times> Bullet list \<times> rng \<times> state" where
  "collideLoop [] remainingEnemies bs rs s = (remainingEnemies, bs, rs, s)"
| "collideLoop (enemy # es) remainingEnemies bs rs s =
     (case hitLoop enemy [] bs rs s of
        (e1, isDestroyed, bs1, rs1, s1) \<Rightarrow>
          collideLoop es
            (if \<not> isDestroyed then remainingEnemies @ [e1] else remainingEnemies)
            bs1 rs1 s1)"

definition onScreen :: "real \<Rightarrow> real \<Rightarrow> Bullet \<Rightarrow> bool" where
  "onScreen width height bullet =
     (0 \<le> fst (b_pos bullet) + b_radius bullet \<and>
      fst (b_pos bullet) - b_radius bullet \<le> width \<and>
      0 \<le> snd (b_pos bullet) + b_radius bullet \<and>
      snd (b_pos bullet) - b_radius bullet \<le> height)"

definition inMargin :: "real \<Rightarrow> real \<Rightarrow> Enemy \<Rightarrow> bool" where
  "inMargin width height e =
     (- 80 \<le> fst (e_position e) + e_width e \<and>
      fst (e_position e) \<le> width + 80 \<and>
      - 80 \<le> snd (e_position e) + e_height e \<and>
      snd (e_position e) \<le> height + 80)"

text \<open>The bullet pass with the pruning of bullets and enemies that follows it.\<close>

definition collisions :: "real \<Rightarrow> real \<Rightarrow> rng \<Rightarrow> state \<Rightarrow> state \<times> rng" where
  "collisions width height rs s =
     (case collideLoop (enemies s) [] (bullets s) rs s of
        (remainingEnemies, bs1, rs1, s1) \<Rightarrow>
          (s1\<lparr>enemies := filter (inMargin width height) remainingEnemies,
              bullets := filter (onScreen width height) bs1\<rparr>, rs1))"

subsection \<open>The tick: orbs, power-ups, timers, particles\<close>

definition moveOrb :: "real \<Rightarrow> bool \<Rightarrow> Rocket \<Rightarrow> ScoreOrb \<Rightarrow> ScoreOrb" where
  "moveOrb edt mag r orb =
     (let c = rocketCenter r;
          dir = normalize (fst c - fst (o_position orb), snd c - snd (o_position orb));
          v = (if mag then (lerp (fst (o_velocity orb)) (fst dir * 220) 0.08,
                            lerp (snd (o_velocity orb)) (snd dir * 220) 0.08)
               else o_velocity orb)
      in orb\<lparr>o_velocity := v,
             o_position := (fst (o_position orb) + fst v * edt,
                            snd (o_position orb) + snd v * edt)\<rparr>)"

definition orbCollected :: "Rocket \<Rightarrow> ScoreOrb \<Rightarrow> bool" where
  "orbCollected r orb =
     (let dx = fst (o_position orb) - fst (rocketCenter r);
          dy = snd (o_position orb) - snd (rocketCenter r)
      in dx * dx + dy * dy < 26 * 26)"

definition orbsPass :: "real \<Rightarrow> state \<Rightarrow> state" where
  "orbsPass edt s =
     (let moved = map (moveOrb edt (0 < magnet s) (rocket s)) (scoreOrbs s)
      in s\<lparr>score := foldl (\<lambda>sc orb. sc + o_value orb) (score s)
                       (filter (orbCollected (rocket s)) moved),
           scoreOrbs := filter (\<lambda>orb. \<not> orbCollected (rocket s) orb) moved\<rparr>)"

text \<open>The pickup test of a power-up and the branch taken for its type.\<close>

definition inPickupRange :: "Rocket \<Rightarrow> PowerUp \<Rightarrow> bool" where
  "inPickupRange r p =
     (let dx = fst (pu_position p) - fst (rocketCenter r);
          dy = snd (pu_position p) - snd (rocketCenter r);
          rad = pu_radius p + max (r_width r) (r_height r) * 0.25
      in dx * dx + dy * dy < rad * rad)"

fun collect :: "PowerUpType \<Rightarrow> state \<Rightarrow> state" where
  "collect Shield s = s\<lparr>hasShield := True, shieldTimer := 8\<rparr>"
| "collect Slowmo s = s\<lparr>slowMo := 6\<rparr>"
| "collect Magnet s = s\<lparr>magnet := 10\<rparr>"
| "collect Homing s = s\<lparr>homing := 10\<rparr>"
| "collect Spread s = s\<lparr>spread := 10\<rparr>"
| "collect Laser s = s\<lparr>laser := 6\<rparr>"

text \<open>Whether a list of power-ups holds one of a type within reach of the ship.\<close>

definition picked :: "Rocket \<Rightarrow> PowerUp list \<Rightarrow> PowerUpType \<Rightarrow> bool" where
  "picked r ps ty = list_ex (\<lambda>p. pu_type p = ty \<and> inPickupRange r p) ps"

text \<open>The loop over the power-ups, collecting \<^verbatim>\<open>remainingPups\<close>.\<close>

fun pupsLoop :: "real \<Rightarrow> PowerUp list \<Rightarrow> PowerUp list \<Rightarrow> state \<Rightarrow> PowerUp list \<times> state" where
  "pupsLoop dt [] remainingPups s = (remainingPups, s)"
| "pupsLoop dt (p # ps) remainingPups s =
     (let p1 = p\<lparr>pu_ttl := pu_ttl p - dt\<rparr>
      in if inPickupRange (rocket s) p1 then pupsLoop dt ps remainingPups (collect (pu_type p1) s)
         else if 0 < pu_ttl p1 then pupsLoop dt ps (remainingPups @ [p1]) s
         else pupsLoop dt ps remainingPups s)"

definition powerUpsPass :: "real \<Rightarrow> state \<Rightarrow> state" where
  "powerUpsPass dt s =
     (case pupsLoop dt (powerUps s) [] s of (remainingPups, s1) \<Rightarrow> s1\<lparr>powerUps := remainingPups\<rparr>)"

definition decrementTimers :: "real \<Rightarrow> state \<Rightarrow> state" where
  "decrementTimers dt s =
     (let s1 = (if 0 < shieldTimer s then
                  let s0 = s\<lparr>shieldTimer := shieldTimer s - dt\<rparr>
                  in if shieldTimer s0 \<le> 0 then s0\<lparr>hasShield := False\<rparr> else s0
                else s);
          s2 = (if 0 < magnet s1 then s1\<lparr>magnet := magnet s1 - dt\<rparr> else s1);
          s3 = (if 0 < homing s2 then s2\<lparr>homing := homing s2 - dt\<rparr> else s2);
          s4 = (if 0 < spread s3 then s3\<lparr>spread := spread s3 - dt\<rparr> else s3)
      in if 0 < laser s4 then s4\<lparr>laser := laser s4 - dt\<rparr> else s4)"

definition ageParticle :: "real \<Rightarrow> real \<Rightarrow> Particle \<Rightarrow> Particle" where
  "ageParticle dt edt p =
     p\<lparr>p_life := p_life p + dt,
       p_position := (fst (p_position p) + fst (p_velocity p) * edt,
                      snd (p_position p) + snd (p_velocity p) * edt),
       p_velocity := (fst (p_velocity p) * 0.98, snd (p_velocity p) * 0.98)\<rparr>"

definition particlesPass :: "real \<Rightarrow> real \<Rightarrow> state \<Rightarrow> state" where
  "particlesPass dt edt s =
     s\<lparr>particles := filter (\<lambda>p. p_life p \<le> p_maxLife p)
                       (map (ageParticle dt edt) (particles s))\<rparr>"

text \<open>\<^verbatim>\<open>spawnThruster\<close>: seven draws a particle.\<close>

fun thrusterLoop :: "nat \<Rightarrow> Rocket \<Rightarrow> Vector2D \<Rightarrow> rng \<Rightarrow> Particle list \<times> rng" where
  "thrusterLoop 0 r dir rs = ([], rs)"
| "thrusterLoop (Suc n) r dir rs =
     (let jitter = (rs 0 - 0.5) * 0.6;
          back = (fst (rocketCenter r) - fst dir * (r_width r * 0.6),
                  snd (rocketCenter r) - snd dir * (r_height r * 0.6));
          rest = thrusterLoop n r dir (skip 7 rs)
      in (\<lparr>p_position = (fst back + - snd dir * (rs 1 * 6 - 3),
                          snd back + fst dir * (rs 2 * 6 - 3)),
           p_velocity = (- fst dir * (120 + rs 3 * 120) + jitter * 40,
                         - snd dir * (120 + rs 4 * 120) + jitter * 40),
           p_life = 0,
           p_maxLife = 0.35 + rs 5 * 0.2,
           p_sizeStart = 3 + rs 6 * 2,
           p_sizeEnd = 0,
           p_colorStart = ''rgba(255,220,140,0.9)'',
           p_colorEnd = ''rgba(255,120,40,0.0)'',
           p_additive = True\<rparr> # fst rest, snd rest))"

definition spawnThruster :: "real \<Rightarrow> rng \<Rightarrow> state \<Rightarrow> state \<times> rng" where
  "spawnThruster dt rs s =
     (let mv = moveIntent (pressedKeys s);
          moving = (fst mv \<noteq> 0 \<or> snd mv \<noteq> 0);
          dir = (if moving then normalize mv else (0, 1));
          rate = (if moving then 90 else 45);
          r = thrusterLoop (nat \<lfloor>rate * dt\<rfloor>) (rocket s) dir rs
      in (s\<lparr>particles := particles s @ fst r\<rparr>, snd r))"

definition shakeDecay :: "state \<Rightarrow> state" where
  "shakeDecay s = (if 0 < screenShake s then s\<lparr>screenShake := screenShake s * 0.9\<rparr> else s)"

subsection \<open>The tick: ship against enemies\<close>

definition touchesShip :: "Rocket \<Rightarrow> Enemy \<Rightarrow> bool" where
  "touchesShip r enemy =
     rectRectOverlap (fst (r_position r)) (snd (r_position r)) (r_width r) (r_height r)
       (fst (e_position enemy)) (snd (e_position enemy)) (e_width enemy) (e_height enemy)"

text \<open>
  The last loop of \<^verbatim>\<open>update\<close>: \<^verbatim>\<open>continue\<close> after a shielded hit, \<^verbatim>\<open>break\<close> on a
  fatal one.
\<close>

fun shipLoop :: "Enemy list \<Rightarrow> Enemy list \<Rightarrow> rng \<Rightarrow> state \<Rightarrow> Enemy list \<times> rng \<times> state" where
  "shipLoop [] survivors rs s = (survivors, rs, s)"
| "shipLoop (enemy # es) survivors rs s =
     (if touchesShip (rocket s) enemy then
        if hasShield s then
          (case onEnemyDestroyed enemy rs (s\<lparr>hasShield := False, shieldTimer := 0\<rparr>) of
             (s1, rs1) \<Rightarrow> shipLoop es survivors rs1 s1)
        else (survivors, rs, s\<lparr>mode := Gameover\<rparr>)
      else shipLoop es (survivors @ [enemy]) rs s)"

definition shipCollisions :: "rng \<Rightarrow> state \<Rightarrow> state \<times> rng" where
  "shipCollisions rs s =
     (case shipLoop (enemies s) [] rs s of
        (survivors, rs1, s1) \<Rightarrow> (s1\<lparr>enemies := survivors\<rparr>, rs1))"

subsection \<open>The tick as a whole\<close>

text \<open>
  \<^verbatim>\<open>update\<close> from the wells to its end, where no loop can fail to return. \<open>edt\<close> is
  \<^verbatim>\<open>effectiveDt\<close>.
\<close>

definition updateWorld :: "real \<Rightarrow> real \<Rightarrow> real \<Rightarrow> rng \<Rightarrow> state \<Rightarrow> state" where
  "updateWorld dt width height rs s =
     (let s1 = driftWells dt s;
          edt = effectiveDt dt s1;
          s2 = updateEnemies edt (slowMoDecay dt s1);
          (s3, rs3) = updateBullets edt rs s2;
          s4 = beamsPass dt s3;
          (s5, rs5) = collisions width height rs3 s4;
          s6 = decrementTimers dt (powerUpsPass dt (orbsPass edt s5));
          s7 = particlesPass dt edt s6;
          (s8, rs8) = spawnThruster dt rs5 s7
      in fst (shipCollisions rs8 (shakeDecay s8)))"

text \<open>The spawning part: regular enemies, boss waves, the meteor shower.\<close>

definition spawnAll :: "real \<Rightarrow> real \<Rightarrow> real \<Rightarrow> rng \<Rightarrow> state \<Rightarrow> (state \<times> rng) option" where
  "spawnAll dt width height rs s =
     (case spawning dt width height rs s of
        None \<Rightarrow> None
      | Some (s1, rs1) \<Rightarrow>
          (case bossWaves dt width (bossAlive s) rs1 s1 of
             (s2, rs2) \<Rightarrow> Some (meteorEvent dt width rs2 s2)))"

definition update :: "real \<Rightarrow> real \<Rightarrow> real \<Rightarrow> rng \<Rightarrow> state \<Rightarrow> state option" where
  "update dt width height rs s =
     (if mode s \<noteq> Playing then Some s
      else if pause s then Some s
      else
        case themeRotation dt rs (moveRocket dt width height s) of
          None \<Rightarrow> None
        | Some (s1, rs1) \<Rightarrow>
            (case spawnAll dt width height rs1 (difficulty dt (comboDecay dt s1)) of
               None \<Rightarrow> None
             | Some (s2, rs2) \<Rightarrow> Some (updateWorld dt width height rs2 s2)))"

text \<open>
  The animation frame: \<^verbatim>\<open>loop\<close> clamps the time step and calls \<^verbatim>\<open>update\<close>. Drawing
  follows; of its effects only the hit rectangles of the menu are state, and they are
  taken from the renderer as \<open>rects\<close>. What React does once the frame has returned is
  \<open>render\<close> below.
\<close>

definition loop :: "real \<Rightarrow> real \<Rightarrow> real \<Rightarrow> HitRect list \<Rightarrow> rng \<Rightarrow> state \<Rightarrow> state option" where
  "loop time width height rects rs s =
     (let last = (case lastTime s of None \<Rightarrow> time | Some l \<Rightarrow> l);
          dt = min 0.033 ((time - last) / 1000)
      in case update dt width height rs (s\<lparr>lastTime := Some time\<rparr>) of
           None \<Rightarrow> None
         | Some s1 \<Rightarrow> Some (if mode s1 = Menu then s1\<lparr>menuHitRects := rects\<rparr> else s1))"

subsection \<open>Input handlers\<close>

text \<open>
  The document as the handlers see it: whether the canvas is mounted, and the size of
  the container when it is.
\<close>

record Dom =
  canvas :: bool
  container :: "(real \<times> real) option"

definition switchMap :: "int \<Rightarrow> rng \<Rightarrow> state \<Rightarrow> state option" where
  "switchMap dir rs s =
     (let len = int (length THEMES);
          cur = nat ((int (currentThemeIdx s) + dir + len) mod len)
      in case pickNextThemeIndex cur rs of
           None \<Rightarrow> None
         | Some (i, rs1) \<Rightarrow>
             Some (s\<lparr>currentThemeIdx := cur, nextThemeIdx := i, themeTransitioning := False,
                     themeBlend := 0, themeTimer := 0\<rparr>))"

text \<open>\<^verbatim>\<open>handleKeyDown\<close>; \<open>key\<close> is \<^verbatim>\<open>e.key.toLowerCase()\<close>.\<close>

definition handleKeyDown :: "Dom \<Rightarrow> string \<Rightarrow> bool \<Rightarrow> rng \<Rightarrow> state \<Rightarrow> state option" where
  "handleKeyDown doc key repeat rs s =
     (if repeat then Some s
      else
        let s1 = s\<lparr>pressedKeys := insert key (pressedKeys s)\<rparr>
        in if mode s1 = Menu \<and> (key = ''enter'' \<or> key = '' '') then
             Some (startGame (container doc) s1)
           else if key = ''p'' then Some (s1\<lparr>pause := \<not> pause s1\<rparr>)
           else
             let s2 = (if key = ''h'' then s1\<lparr>hideHUD := \<not> hideHUD s1\<rparr> else s1);
                 s3 = (if key = ''m'' then s2\<lparr>reducedMotion := \<not> reducedMotion s2\<rparr> else s2);
                 s4 = (if key = ''c'' then s3\<lparr>highContrast := \<not> highContrast s3\<rparr> else s3)
             in if mode s4 = Gameover \<and> (key = ''r'' \<or> key = ''enter'') then
                  Some (startGame (container doc) s4)
                else
                  let s5 = (if mode s4 = Playing \<and> (key = '' '' \<or> key = ''k'')
                            then shootBullet (canvas doc) rs s4 else s4)
                  in if key = ''q'' \<or> key = ''e'' then
                       switchMap (if key = ''e'' then 1 else - 1) rs s5
                     else Some s5)"

definition handleKeyUp :: "string \<Rightarrow> state \<Rightarrow> state" where
  "handleKeyUp key s = s\<lparr>pressedKeys := pressedKeys s - {key}\<rparr>"

text \<open>\<^verbatim>\<open>handleMouseMove\<close>; \<open>p\<close> is the pointer position relative to the canvas.\<close>

definition handleMouseMove :: "Dom \<Rightarrow> Vector2D \<Rightarrow> state \<Rightarrow> state" where
  "handleMouseMove doc p s = (if \<not> canvas doc then s else s\<lparr>aimPosition := Some p\<rparr>)"

definition inRect :: "Vector2D \<Rightarrow> HitRect \<Rightarrow> bool" where
  "inRect m hit =
     (h_x hit \<le> fst m \<and> fst m \<le> h_x hit + h_w hit \<and>
      h_y hit \<le> snd m \<and> snd m \<le> h_y hit + h_h hit)"

text \<open>
  The scan of the hit rectangles in the menu: the first rectangle under the pointer
  decides; with none the click starts the game.
\<close>

fun menuClick :: "Dom \<Rightarrow> Vector2D \<Rightarrow> HitRect list \<Rightarrow> state \<Rightarrow> state" where
  "menuClick doc m [] s = startGame (container doc) s"
| "menuClick doc m (hit # hs) s =
     (if inRect m hit then
        (case h_type hit of
           HitStart \<Rightarrow> startGame (container doc) s
         | HitSection sec \<Rightarrow> s\<lparr>menuSection := sec\<rparr>)
      else menuClick doc m hs s)"

text \<open>
  \<^verbatim>\<open>handleMouseDown\<close>; \<open>e\<close> is the pointer position relative to the canvas when the
  handler is called with an event.
\<close>

definition handleMouseDown :: "Dom \<Rightarrow> Vector2D option \<Rightarrow> rng \<Rightarrow> state \<Rightarrow> state" where
  "handleMouseDown doc e rs s =
     (if mode s = Menu then
        (case e of
           Some m \<Rightarrow> if canvas doc then menuClick doc m (menuHitRects s) s
                     else startGame (container doc) s
         | None \<Rightarrow> startGame (container doc) s)
      else if mode s = Gameover then startGame (container doc) s
      else shootBullet (canvas doc) rs s)"

text \<open>
  \<^verbatim>\<open>resizeCanvasToContainer\<close>, as far as it touches the simulation: the rocket is
  centred while at the origin and clamped to the canvas otherwise.
\<close>

definition resizeCanvasToContainer :: "Dom \<Rightarrow> state \<Rightarrow> state" where
  "resizeCanvasToContainer doc s =
     (case container doc of
        None \<Rightarrow> s
      | Some (rw, rh) \<Rightarrow>
          if \<not> canvas doc then s
          else
            let width = max 360 (of_int \<lfloor>rw\<rfloor>);
                height = max 360 (of_int \<lfloor>rh\<rfloor>);
                r = rocket s
            in if fst (r_position r) = 0 \<and> snd (r_position r) = 0 then
                 s\<lparr>rocket := r\<lparr>r_position :=
                      (width / 2 - r_width r / 2, height / 2 - r_height r / 2)\<rparr>\<rparr>
               else
                 s\<lparr>rocket := r\<lparr>r_position :=
                      (clamp (fst (r_position r)) 0 (width - r_width r),
                       clamp (snd (r_position r)) 0 (height - r_height r))\<rparr>\<rparr>)"

subsection \<open>Rendering\<close>

text \<open>
  What React does to the refs after a handler or a frame has returned; \<open>s0\<close> is the state
  before the call, \<open>s\<close> the state it left. The queued score updaters run, each adding
  \<^verbatim>\<open>Math.max(1, Math.floor(multiplierRef.current))\<close> at the multiplier of that moment.
  When the mode has changed, the effect with the dependency \<^verbatim>\<open>[mode]\<close> runs again and
  calls \<^verbatim>\<open>resizeCanvasToContainer\<close>. When the mode or the score has changed, the cleanup
  of the frame effect (dependencies \<^verbatim>\<open>[mode, score]\<close>) sets \<^verbatim>\<open>lastTimeRef\<close> to null, so
  that the next frame has a time step of 0; the effect registers that cleanup only with
  a canvas.
\<close>

definition render :: "Dom \<Rightarrow> state \<Rightarrow> state \<Rightarrow> state" where
  "render doc s0 s =
     (let s1 = s\<lparr>score := score s + real (scoreUpdaters s) * max 1 (of_int \<lfloor>multiplier s\<rfloor>),
                 scoreUpdaters := 0\<rparr>;
          s2 = (if mode s1 \<noteq> mode s0 then resizeCanvasToContainer doc s1 else s1)
      in if canvas doc \<and> (mode s1 \<noteq> mode s0 \<or> score s1 \<noteq> score s0)
         then s2\<lparr>lastTime := None\<rparr> else s2)"

subsection \<open>The game as a transition system\<close>

text \<open>
  An event is a call of a handler, of the animation frame, or of \<^verbatim>\<open>update\<close> itself with
  any time step; a step of the game is the call followed by the rendering.
\<close>

datatype event =
    KeyDown string bool
  | KeyUp string
  | MouseMove Vector2D
  | MouseDown "Vector2D option"
  | Resize
  | Frame real real real "HitRect list"
  | Tick real real real

fun handle :: "Dom \<Rightarrow> event \<Rightarrow> rng \<Rightarrow> state \<Rightarrow> state option" where
  "handle doc (KeyDown key repeat) rs s = handleKeyDown doc key repeat rs s"
| "handle doc (KeyUp key) rs s = Some (handleKeyUp key s)"
| "handle doc (MouseMove p) rs s = Some (handleMouseMove doc p s)"
| "handle doc (MouseDown e) rs s = Some (handleMouseDown doc e rs s)"
| "handle doc Resize rs s = Some (resizeCanvasToContainer doc s)"
| "handle doc (Frame time width height rects) rs s = loop time width height rects rs s"
| "handle doc (Tick dt width height) rs s = update dt width height rs s"

definition step :: "Dom \<Rightarrow> event \<Rightarrow> rng \<Rightarrow> state \<Rightarrow> state option" where
  "step doc ev rs s = map_option (render doc s) (handle doc ev rs s)"

text \<open>A run: each event comes with the document it sees and its supply of draws.\<close>

fun run :: "(Dom \<times> event \<times> rng) list \<Rightarrow> state \<Rightarrow> state option" where
  "run [] s = Some s"
| "run ((doc, ev, rs) # evs) s =
     (case step doc ev rs s of None \<Rightarrow> None | Some s1 \<Rightarrow> run evs s1)"

subsection \<open>Views of the state\<close>

text \<open>
  Groups of refs that whole parts of the tick leave alone: the theme rotation with the
  ship and the keys; with them the hazards, the power-ups and the effect times that
  only decay; and with those the shield and the mode.
\<close>

definition themeView :: "state \<Rightarrow> nat \<times> nat \<times> real \<times> real \<times> real \<times> bool" where
  "themeView s =
     (currentThemeIdx s, nextThemeIdx s, themeBlend s, themeTimer s, themeDuration s,
      themeTransitioning s)"

definition baseView ::
  "state \<Rightarrow> (nat \<times> nat \<times> real \<times> real \<times> real \<times> bool) \<times> Rocket \<times> string set \<times> bool" where
  "baseView s = (themeView s, rocket s, pressedKeys s, pause s)"

definition calmView ::
  "state \<Rightarrow> ((nat \<times> nat \<times> real \<times> real \<times> real \<times> bool) \<times> Rocket \<times> string set \<times> bool)
     \<times> PowerUp list \<times> GravityWell list \<times> Beam list \<times> real \<times> real \<times> real \<times> real \<times> real" where
  "calmView s =
     (baseView s, powerUps s, wells s, beams s, slowMo s, magnet s, homing s, spread s,
      laser s)"

definition fixedView ::
  "state \<Rightarrow> (((nat \<times> nat \<times> real \<times> real \<times> real \<times> bool) \<times> Rocket \<times> string set \<times> bool)
     \<times> PowerUp list \<times> GravityWell list \<times> Beam list \<times> real \<times> real \<times> real \<times> real \<times> real)
     \<times> bool \<times> real \<times> Mode" where
  "fixedView s = (calmView s, hasShield s, shieldTimer s, mode s)"

text \<open>No power-up, well or beam about, and no timed effect running.\<close>

definition quiet :: "state \<Rightarrow> bool" where
  "quiet s =
     (powerUps s = [] \<and> wells s = [] \<and> beams s = [] \<and> \<not> hasShield s \<and> shieldTimer s = 0 \<and>
      slowMo s = 0 \<and> magnet s = 0 \<and> homing s = 0 \<and> spread s = 0 \<and> laser s = 0)"

text \<open>Every enemy of the population has positive hit points.\<close>

definition alive :: "state \<Rightarrow> bool" where
  "alive s = list_all (\<lambda>e. 0 < e_hp e) (enemies s)"

text \<open>The hit points of the enemy population, in order.\<close>

definition enemyHps :: "state \<Rightarrow> real list" where
  "enemyHps s = map e_hp (enemies s)"

text \<open>
  The theme rotation of \<open>n\<close> successive ticks of the same length, each with the supply
  \<open>rs\<close>.
\<close>

fun themeTicks :: "nat \<Rightarrow> real \<Rightarrow> rng \<Rightarrow> state \<Rightarrow> state option" where
  "themeTicks 0 dt rs s = Some s"
| "themeTicks (Suc n) dt rs s =
     (case themeRotation dt rs s of
        None \<Rightarrow> None
      | Some (s1, rs1) \<Rightarrow> themeTicks n dt rs s1)"

text \<open>
  A supply of draws is fair when, from every point on, it holds a draw for a theme index
  other than any given one: the loops that redraw an index then end.
\<close>

definition fair :: "rng \<Rightarrow> bool" where
  "fair rs = (\<forall>k ex. \<exists>n. nat \<lfloor>rs (n + k) * real (length THEMES)\<rfloor> \<noteq> ex)"

subsection \<open>Concrete inputs\<close>

text \<open>
  Supplies of draws: a constant one, a list of draws followed by a constant, and one
  that alternates between two draws.
\<close>

definition constRng :: "real \<Rightarrow> rng" where
  "constRng c = (\<lambda>n. c)"

definition listRng :: "real list \<Rightarrow> real \<Rightarrow> rng" where
  "listRng xs c = (\<lambda>n. if n < length xs then xs ! n else c)"

definition altRng :: "real \<Rightarrow> real \<Rightarrow> rng" where
  "altRng a b = (\<lambda>n. if even n then a else b)"

text \<open>A game in progress, just started from the menu with theme 0 current.\<close>

definition playing0 :: state where
  "playing0 = (initState 0)\<lparr>mode := Playing\<rparr>"

text \<open>The same game while a laser effect runs.\<close>

definition laserOn :: state where
  "laserOn = playing0\<lparr>laser := 1\<rparr>"

text \<open>
  A game that has ended after twenty seconds of play: a score, an uncollected score
  orb, and the boss, event and theme timers where the last tick left them.
\<close>

definition crashed :: state where
  "crashed = (initState 0)\<lparr>mode := Gameover, score := 7,
     scoreOrbs := [\<lparr>o_position = (10, 10), o_velocity = (0, 0), o_value = 1\<rparr>],
     bossTimer := 20, eventTimer := 20, themeTimer := 20\<rparr>"

text \<open>A crossfade from theme 0 to theme 1 at its middle.\<close>

definition halfway :: state where
  "halfway = playing0\<lparr>themeTransitioning := True, themeBlend := 1 / 2\<rparr>"

text \<open>
  A laser shot in flight: a beam fired straight up along the line \<open>x = 400\<close> a tick
  ago, and a UFO resting on that line with half a hit point left.
\<close>

definition beamOnUfo :: state where
  "beamOnUfo = playing0\<lparr>
     rocket := \<lparr>r_position = (376, 286), r_width = 48, r_height = 28, r_speed = 460\<rparr>,
     enemies := [\<lparr>e_position = (380, 100), e_width = 40, e_height = 24,
                  e_velocity = (0, 0), e_kind = Ufo, e_rotation = 0, e_spin = 0,
                  e_hp = 1 / 2, e_asteroidRadii = None\<rparr>],
     beams := [\<lparr>bm_origin = (400, 275), bm_direction = (0, - 1), bm_width = 6,
                bm_ttl = 0.12\<rparr>],
     laser := 3\<rparr>"

text \<open>
  The same beam on its last tick, 21 ms of life left, on a UFO with 2 hit points.
\<close>

definition fadingBeam :: state where
  "fadingBeam = beamOnUfo\<lparr>
     enemies := [\<lparr>e_position = (380, 100), e_width = 40, e_height = 24,
                  e_velocity = (0, 0), e_kind = Ufo, e_rotation = 0, e_spin = 0,
                  e_hp = 2, e_asteroidRadii = None\<rparr>],
     beams := [\<lparr>bm_origin = (400, 275), bm_direction = (0, - 1), bm_width = 6,
                bm_ttl = 0.021\<rparr>]\<rparr>"

text \<open>Theme 0 current, theme 1 stored as next, and the theme timer at 35 seconds.\<close>

definition aboutToRotate :: state where
  "aboutToRotate = playing0\<lparr>themeTimer := 35\<rparr>"

text \<open>
  Two spawn intervals and a little more accumulated, with no enemy about and with a
  boss about.
\<close>

definition twoDue :: state where
  "twoDue = playing0\<lparr>spawnAccumulator := 1900\<rparr>"

definition bossAround :: state where
  "bossAround = twoDue\<lparr>enemies :=
     [\<lparr>e_position = (280, 40), e_width = 240, e_height = 120, e_velocity = (0, 40),
       e_kind = BossUfo, e_rotation = 0, e_spin = 0.2, e_hp = 50,
       e_asteroidRadii = None\<rparr>]\<rparr>"

text \<open>
  A shield power-up at the centre of the ship and a magnet power-up far from it, with
  three seconds of an earlier shield and four of an earlier magnet left.
\<close>

definition shieldAhead :: state where
  "shieldAhead = playing0\<lparr>hasShield := True, shieldTimer := 3, magnet := 4,
     powerUps := [\<lparr>pu_position = (24, 14), pu_radius = 10, pu_type = Shield, pu_ttl = 5\<rparr>,
                  \<lparr>pu_position = (300, 300), pu_radius = 10, pu_type = Magnet, pu_ttl = 5\<rparr>]\<rparr>"


text \<open>
  A short game: Enter in the menu, a tick, a click that fires, another tick.
\<close>

definition theDoc :: Dom where
  "theDoc = \<lparr>canvas = True, container = Some (800, 600)\<rparr>"

definition shortGame :: "(Dom \<times> event \<times> rng) list" where
  "shortGame =
     [(theDoc, KeyDown ''enter'' False, constRng (1 / 2)),
      (theDoc, Tick (33 / 1000) 800 600, constRng (1 / 2)),
      (theDoc, MouseDown None, constRng (1 / 2)),
      (theDoc, Tick (33 / 1000) 800 600, constRng (1 / 2))]"

section \<open>Properties\<close>

subsection \<open>Firing\<close>

lemma normLen_nonzero: "normLen v \<noteq> 0"
  by (simp add: normLen_def orOne_def)

lemma normalize_up: "normalize (0, - 1) = (0, - 1)"
  by (simp add: normalize_def normLen_def orOne_def length_v_def hypot_def)

text \<open>
  C9. The divisor of \<open>normalize\<close> is never zero, so no component is the result of a
  division by zero; the zero vector is returned as it is. When no pointer position is
  known, the direction computed by the fire command is \<open>(0, -1)\<close>, and it is the direction
  of the bullet fired (no laser, no spread) or of the beam emitted (laser).
\<close>

theorem normalize_zero_default_aim:
  "normLen v \<noteq> 0 \<and> normalize (0, 0) = (0, 0) \<and>
   (aimPosition s = None \<longrightarrow>
      aimDirection s = (0, - 1) \<and>
      (laser s \<le> 0 \<and> spread s \<le> 0 \<longrightarrow>
         bullets (shootBullet True rs s) = bullets s @ [makeBullet (noseOrigin s) (0, - 1)]) \<and>
      (0 < laser s \<longrightarrow>
         map bm_direction (beams (shootBullet True rs s))
           = map bm_direction (beams s) @ [(0, - 1)]))"
proof -
  have a: "aimPosition s = None \<Longrightarrow> aimDirection s = (0, - 1)"
    by (simp add: aimDirection_def aimPoint_def normalize_up)
  have z: "normalize (0, 0) = (0, 0)"
    by (simp add: normalize_def)
  show ?thesis
    using a z by (auto simp: normLen_nonzero shootBullet_def Let_def)
qed

theorem normalize_zero_default_aim_witness:
  "aimPosition playing0 = None \<and> aimDirection playing0 = (0, - 1) \<and>
   map b_direction (bullets (shootBullet True (constRng 0) playing0)) = [(0, - 1)] \<and>
   map bm_direction (beams (shootBullet True (constRng 0) laserOn)) = [(0, - 1)]"
  using normalize_zero_default_aim [of "(0, 0)" playing0 "constRng 0"]
    normalize_zero_default_aim [of "(0, 0)" laserOn "constRng 0"]
  by (simp add: playing0_def laserOn_def initState_def makeBullet_def)

lemma length_muzzleFlash: "length (muzzleFlash n origin direction rs) = n"
  by (induction n arbitrary: rs) simp_all

lemma muzzleFlash_look:
  "p \<in> set (muzzleFlash n origin direction rs) \<Longrightarrow>
     p_colorStart p = ''rgba(255,210,120,0.9)'' \<and> p_colorEnd p = ''rgba(255,120,40,0.0)'' \<and>
     p_life p = 0 \<and> (\<exists>k. p_maxLife p = 0.18 + rs k * 0.12)"
proof (induction n arbitrary: rs)
  case 0
  then show ?case by simp
next
  case (Suc n)
  from Suc.prems have "p = hd (muzzleFlash (Suc n) origin direction rs) \<or>
      p \<in> set (muzzleFlash n origin direction (skip 5 rs))"
    by auto
  then show ?case
  proof
    assume "p = hd (muzzleFlash (Suc n) origin direction rs)"
    then show ?thesis by auto
  next
    assume "p \<in> set (muzzleFlash n origin direction (skip 5 rs))"
    from Suc.IH [OF this] show ?thesis by (auto simp: skip_def)
  qed
qed

text \<open>
  The fire command by the state of the laser effect. With the canvas mounted and no
  laser effect running, it appends eight muzzle-flash particles: age 0, a life of 0.18 s
  plus 0.12 s times a draw, fading from \<^verbatim>\<open>rgba(255,210,120,0.9)\<close> to
  \<^verbatim>\<open>rgba(255,120,40,0.0)\<close>. While the laser effect runs, it appends one beam and
  returns before the muzzle flash.
\<close>

lemma shootBullet_particles:
  "(laser s \<le> 0 \<longrightarrow>
      particles (shootBullet True rs s)
        = particles s @ muzzleFlash 8 (noseOrigin s) (aimDirection s) rs \<and>
      length (muzzleFlash 8 (noseOrigin s) (aimDirection s) rs) = 8 \<and>
      (\<forall>p \<in> set (muzzleFlash 8 (noseOrigin s) (aimDirection s) rs).
         p_colorStart p = ''rgba(255,210,120,0.9)'' \<and>
         p_colorEnd p = ''rgba(255,120,40,0.0)'' \<and>
         p_life p = 0 \<and> (\<exists>k. p_maxLife p = 0.18 + rs k * 0.12))) \<and>
   (0 < laser s \<longrightarrow>
      particles (shootBullet True rs s) = particles s \<and>
      beams (shootBullet True rs s) =
        beams s @ [\<lparr>bm_origin = noseOrigin s, bm_direction = aimDirection s,
                    bm_width = 6, bm_ttl = 0.12\<rparr>])"
  using muzzleFlash_look [of _ 8 "noseOrigin s" "aimDirection s" rs]
  by (auto simp: shootBullet_def Let_def length_muzzleFlash simp del: muzzleFlash.simps)

subsection \<open>Reset\<close>

text \<open>What \<^verbatim>\<open>startGame\<close> resets, on any state.\<close>

lemma startGame_resets:
  "mode (startGame c s) = Playing \<and> score (startGame c s) = 0 \<and>
   bullets (startGame c s) = [] \<and> enemies (startGame c s) = [] \<and>
   particles (startGame c s) = [] \<and> spawnAccumulator (startGame c s) = 0 \<and>
   spawnInterval (startGame c s) = 900 \<and> difficultyTimer (startGame c s) = 0 \<and>
   screenShake (startGame c s) = 0 \<and> lastTime (startGame c s) = None"
  by (simp add: startGame_def resetGame_def Let_def split: option.splits prod.splits)

text \<open>What it leaves as it finds it.\<close>

lemma startGame_keeps:
  "scoreOrbs (startGame c s) = scoreOrbs s \<and> powerUps (startGame c s) = powerUps s \<and>
   wells (startGame c s) = wells s \<and> beams (startGame c s) = beams s \<and>
   bossTimer (startGame c s) = bossTimer s \<and> eventTimer (startGame c s) = eventTimer s \<and>
   eventActive (startGame c s) = eventActive s \<and>
   eventTimeLeft (startGame c s) = eventTimeLeft s \<and>
   themeTimer (startGame c s) = themeTimer s \<and> shieldTimer (startGame c s) = shieldTimer s \<and>
   multiplier (startGame c s) = multiplier s \<and> comboTimer (startGame c s) = comboTimer s"
  by (simp add: startGame_def resetGame_def Let_def split: option.splits prod.splits)

text \<open>
  C3, evaluated on a game that has ended. The start command sets the mode to playing and
  the score to 0, and empties bullets, enemies and particles; the score orb is still
  there, and the boss, event and theme timers keep their values instead of returning
  to 0.
\<close>

theorem startGame_leaves_orbs_and_timers:
  "mode (startGame None crashed) = Playing \<and> score (startGame None crashed) = 0 \<and>
   enemies (startGame None crashed) = [] \<and>
   scoreOrbs (startGame None crashed)
     = [\<lparr>o_position = (10, 10), o_velocity = (0, 0), o_value = 1\<rparr>] \<and>
   bossTimer (startGame None crashed) = 20 \<and> eventTimer (startGame None crashed) = 20 \<and>
   themeTimer (startGame None crashed) = 20 \<and>
   scoreOrbs (initState 0) = [] \<and> bossTimer (initState 0) = 0 \<and>
   eventTimer (initState 0) = 0 \<and> themeTimer (initState 0) = 0"
  by (simp add: startGame_def resetGame_def crashed_def initState_def)

subsection \<open>Theme parameters of the spawner\<close>

text \<open>
  C4, as the code has it. During a crossfade with a blend strictly between 0 and 1 the
  spawner reads the parameters of the next theme alone: the enemy it creates is the one
  it would create with the next theme already current and no crossfade running.
\<close>

theorem spawner_uses_next_theme:
  "themeTransitioning s \<Longrightarrow> 0 < themeBlend s \<Longrightarrow> themeBlend s < 1 \<Longrightarrow>
     spawnTheme s = THEMES ! nextThemeIdx s \<and>
     enemies (fst (spawnEnemy width height rs s)) =
       enemies (fst (spawnEnemy width height rs
         (s\<lparr>currentThemeIdx := nextThemeIdx s, themeTransitioning := False\<rparr>)))"
  by (simp add: spawnTheme_def getEffectiveThemeBlend_def clamp_def spawnEnemy_def Let_def)

theorem spawner_uses_next_theme_witness:
  "themeTransitioning halfway \<and> 0 < themeBlend halfway \<and> themeBlend halfway < 1 \<and>
   ufoChance (spawnTheme halfway) = 0.3 \<and> enemySpeedMultiplier (spawnTheme halfway) = 1.1"
  using spawner_uses_next_theme [of halfway]
  by (simp add: halfway_def playing0_def initState_def THEMES_def)

text \<open>
  The claim as the specification states it fails: half way from theme 0 (UFO chance
  0.45, speed 1.0) to theme 1 (0.3, 1.1) the interpolated values are 0.375 and 1.05,
  and the spawner reads 0.3 and 1.1.
\<close>

theorem spawner_no_interpolation:
  "currentThemeIdx halfway = 0 \<and> nextThemeIdx halfway = 1 \<and> themeBlend halfway = 1 / 2 \<and>
   ufoChance (spawnTheme halfway)
     \<noteq> lerp (ufoChance (THEMES ! 0)) (ufoChance (THEMES ! 1)) (1 / 2) \<and>
   enemySpeedMultiplier (spawnTheme halfway)
     \<noteq> lerp (enemySpeedMultiplier (THEMES ! 0)) (enemySpeedMultiplier (THEMES ! 1)) (1 / 2)"
  by (simp add: spawnTheme_def getEffectiveThemeBlend_def halfway_def playing0_def
      initState_def clamp_def lerp_def THEMES_def)


subsection \<open>What the parts of the tick leave alone\<close>

lemmas view_defs = fixedView_def calmView_def baseView_def themeView_def

lemma fixed_upd [simp]:
  "fixedView (s\<lparr>score := v0\<rparr>) = fixedView s"
  "fixedView (s\<lparr>scoreUpdaters := v26\<rparr>) = fixedView s"
  "fixedView (s\<lparr>lastTime := v1\<rparr>) = fixedView s"
  "fixedView (s\<lparr>aimPosition := v2\<rparr>) = fixedView s"
  "fixedView (s\<lparr>bullets := v3\<rparr>) = fixedView s"
  "fixedView (s\<lparr>enemies := v4\<rparr>) = fixedView s"
  "fixedView (s\<lparr>particles := v5\<rparr>) = fixedView s"
  "fixedView (s\<lparr>spawnAccumulator := v6\<rparr>) = fixedView s"
  "fixedView (s\<lparr>spawnInterval := v7\<rparr>) = fixedView s"
  "fixedView (s\<lparr>difficultyTimer := v8\<rparr>) = fixedView s"
  "fixedView (s\<lparr>screenShake := v9\<rparr>) = fixedView s"
  "fixedView (s\<lparr>scoreOrbs := v10\<rparr>) = fixedView s"
  "fixedView (s\<lparr>powerupSpawnTimer := v11\<rparr>) = fixedView s"
  "fixedView (s\<lparr>wellSpawnTimer := v12\<rparr>) = fixedView s"
  "fixedView (s\<lparr>hideHUD := v13\<rparr>) = fixedView s"
  "fixedView (s\<lparr>bossTimer := v14\<rparr>) = fixedView s"
  "fixedView (s\<lparr>eventTimer := v15\<rparr>) = fixedView s"
  "fixedView (s\<lparr>eventActive := v16\<rparr>) = fixedView s"
  "fixedView (s\<lparr>eventTimeLeft := v17\<rparr>) = fixedView s"
  "fixedView (s\<lparr>meteorSpawnAcc := v18\<rparr>) = fixedView s"
  "fixedView (s\<lparr>multiplier := v19\<rparr>) = fixedView s"
  "fixedView (s\<lparr>comboTimer := v20\<rparr>) = fixedView s"
  "fixedView (s\<lparr>highContrast := v21\<rparr>) = fixedView s"
  "fixedView (s\<lparr>reducedMotion := v22\<rparr>) = fixedView s"
  "fixedView (s\<lparr>flashTimer := v23\<rparr>) = fixedView s"
  "fixedView (s\<lparr>menuSection := v24\<rparr>) = fixedView s"
  "fixedView (s\<lparr>menuHitRects := v25\<rparr>) = fixedView s"
  by (simp_all add: view_defs)

lemma fixed_calm: "fixedView a = fixedView b \<Longrightarrow> calmView a = calmView b"
  by (simp add: fixedView_def)

lemma calm_base: "calmView a = calmView b \<Longrightarrow> baseView a = baseView b"
  by (simp add: calmView_def)

lemma fixed_quiet: "fixedView a = fixedView b \<Longrightarrow> quiet a = quiet b"
  by (simp add: view_defs quiet_def)

lemma fixed_spawnEnemy: "fixedView (fst (spawnEnemy width height rs s)) = fixedView s"
  by (simp add: spawnEnemy_def Let_def)

lemma fixed_spawnBody: "fixedView (fst (spawnBody st boss width height sr)) = fixedView (fst sr)"
  by (simp add: spawnBody_def Let_def fixed_spawnEnemy)

lemma fixed_spawnLoop:
  assumes "spawnLoop st boss width height sr = Some sr'"
  shows "fixedView (fst sr') = fixedView (fst sr)"
proof (rule spawnLoop.raw_induct
    [where P = "\<lambda>st boss width height sr sr'. fixedView (fst sr') = fixedView (fst sr)",
     OF _ assms])
  fix f st boss width height sr sr'
  assume IH: "\<And>st boss width height sr sr'. f st boss width height sr = Some sr' \<Longrightarrow>
                fixedView (fst sr') = fixedView (fst sr)"
    and eq: "(if st \<le> spawnAccumulator (fst sr)
              then f st boss width height (spawnBody st boss width height sr)
              else Some sr) = Some sr'"
  show "fixedView (fst sr') = fixedView (fst sr)"
  proof (cases "st \<le> spawnAccumulator (fst sr)")
    case True
    with eq have "f st boss width height (spawnBody st boss width height sr) = Some sr'"
      by simp
    from IH [OF this] show ?thesis by (simp add: fixed_spawnBody)
  next
    case False
    with eq show ?thesis by simp
  qed
qed

lemma fixed_comboDecay: "fixedView (comboDecay dt s) = fixedView s"
  by (simp add: comboDecay_def Let_def)

lemma fixed_difficulty: "fixedView (difficulty dt s) = fixedView s"
  by (simp add: difficulty_def Let_def)

lemma fixed_spawning:
  "spawning dt width height rs s = Some sr' \<Longrightarrow> fixedView (fst sr') = fixedView s"
  by (auto simp: spawning_def Let_def dest!: fixed_spawnLoop)

lemma fixed_bossWaves: "fixedView (fst (bossWaves dt width boss rs s)) = fixedView s"
  by (simp add: bossWaves_def Let_def)

lemma fixed_meteorBody: "fixedView (fst (meteorBody width sr)) = fixedView (fst sr)"
  by (simp add: meteorBody_def Let_def)

lemma fixed_meteorLoop: "fixedView (fst (meteorLoop width sr)) = fixedView (fst sr)"
proof (induction width sr rule: meteorLoop.induct)
  case (1 width sr)
  then show ?case
    by (subst meteorLoop.simps) (simp add: fixed_meteorBody)
qed

lemma fixed_meteorEvent: "fixedView (fst (meteorEvent dt width rs s)) = fixedView s"
  by (simp add: meteorEvent_def Let_def fixed_meteorLoop)

lemma fixed_spawnAll:
  assumes "spawnAll dt width height rs s = Some sr'"
  shows "fixedView (fst sr') = fixedView s"
proof -
  from assms obtain s1 rs1 where 1: "spawning dt width height rs s = Some (s1, rs1)"
    and 2: "sr' = meteorEvent dt width (snd (bossWaves dt width (bossAlive s) rs1 s1))
              (fst (bossWaves dt width (bossAlive s) rs1 s1))"
    by (auto simp: spawnAll_def split: option.splits prod.splits)
  from fixed_spawning [OF 1] have "fixedView s1 = fixedView s" by simp
  with 2 show ?thesis by (simp add: fixed_meteorEvent fixed_bossWaves)
qed

lemma fixed_createExplosion: "fixedView (fst (createExplosion c kind rs s)) = fixedView s"
  by (simp add: createExplosion_def Let_def)

lemma fixed_onEnemyDestroyed: "fixedView (fst (onEnemyDestroyed enemy rs s)) = fixedView s"
  by (simp add: onEnemyDestroyed_def Let_def fixed_createExplosion)

lemma fixed_hitLoop:
  "hitLoop enemy kept bs rs s = (e1, d, bs1, rs1, s1) \<Longrightarrow> fixedView s1 = fixedView s"
proof (induction bs arbitrary: enemy kept rs s)
  case Nil
  then show ?case by simp
next
  case (Cons bullet bs)
  show ?case
  proof (cases "hits enemy bullet")
    case False
    with Cons.prems have "hitLoop enemy (kept @ [bullet]) bs rs s = (e1, d, bs1, rs1, s1)"
      by simp
    from Cons.IH [OF this] show ?thesis .
  next
    case True
    note hit = this
    show ?thesis
    proof (cases "e_hp enemy - 1 \<le> 0")
      case True
      with hit Cons.prems have
        "s1 = fst (onEnemyDestroyed (enemy\<lparr>e_hp := e_hp enemy - 1\<rparr>) (skip 2 rs)
                 (s\<lparr>particles := particles s @ [impactParticle bullet rs]\<rparr>))"
        by (auto simp: Let_def split: prod.splits)
      then show ?thesis by (simp add: fixed_onEnemyDestroyed)
    next
      case False
      with hit Cons.prems have
        "hitLoop (enemy\<lparr>e_hp := e_hp enemy - 1\<rparr>) kept bs (skip 2 rs)
           (s\<lparr>particles := particles s @ [impactParticle bullet rs]\<rparr>)
         = (e1, d, bs1, rs1, s1)"
        by (simp add: Let_def)
      from Cons.IH [OF this] show ?thesis by simp
    qed
  qed
qed

lemma fixed_collideLoop:
  "collideLoop es rem bs rs s = (rem1, bs1, rs1, s1) \<Longrightarrow> fixedView s1 = fixedView s"
proof (induction es arbitrary: rem bs rs s)
  case Nil
  then show ?case by simp
next
  case (Cons enemy es)
  obtain e1 d bs2 rs2 s2 where h: "hitLoop enemy [] bs rs s = (e1, d, bs2, rs2, s2)"
    by (metis prod_cases5)
  with Cons.prems have
    "collideLoop es (if \<not> d then rem @ [e1] else rem) bs2 rs2 s2 = (rem1, bs1, rs1, s1)"
    by simp
  from Cons.IH [OF this] fixed_hitLoop [OF h] show ?case by simp
qed

lemma fixed_collisions: "fixedView (fst (collisions width height rs s)) = fixedView s"
proof -
  obtain rem1 bs1 rs1 s1
    where c: "collideLoop (enemies s) [] (bullets s) rs s = (rem1, bs1, rs1, s1)"
    by (metis prod_cases4)
  with fixed_collideLoop [OF c] show ?thesis by (simp add: collisions_def)
qed

lemma fixed_updateEnemies: "fixedView (updateEnemies edt s) = fixedView s"
  by (simp add: updateEnemies_def)

lemma fixed_updateBullets: "fixedView (fst (updateBullets edt rs s)) = fixedView s"
  by (simp add: updateBullets_def Let_def)

lemma fixed_orbsPass: "fixedView (orbsPass edt s) = fixedView s"
  by (simp add: orbsPass_def Let_def)

lemma fixed_particlesPass: "fixedView (particlesPass dt edt s) = fixedView s"
  by (simp add: particlesPass_def)

lemma fixed_spawnThruster: "fixedView (fst (spawnThruster dt rs s)) = fixedView s"
  by (simp add: spawnThruster_def Let_def)

lemma fixed_shakeDecay: "fixedView (shakeDecay s) = fixedView s"
  by (simp add: shakeDecay_def)

lemmas fixed_world = fixed_collisions fixed_updateEnemies fixed_updateBullets fixed_orbsPass
  fixed_particlesPass fixed_spawnThruster fixed_shakeDecay


lemma base_driftWells: "baseView (driftWells dt s) = baseView s"
  by (simp add: driftWells_def view_defs)

lemma base_slowMoDecay: "baseView (slowMoDecay dt s) = baseView s"
  by (simp add: slowMoDecay_def view_defs)

lemma base_beamsPass: "baseView (beamsPass dt s) = baseView s"
  by (simp add: beamsPass_def Let_def view_defs)

lemma base_collect: "baseView (collect ty s) = baseView s"
  by (cases ty) (simp_all add: view_defs)

lemma base_pupsLoop:
  "pupsLoop dt ps rem s = (rem1, s1) \<Longrightarrow> baseView s1 = baseView s"
proof (induction ps arbitrary: rem s)
  case Nil
  then show ?case by simp
next
  case (Cons p ps)
  then show ?case
    by (auto simp: Let_def base_collect split: if_splits dest!: Cons.IH)
qed

lemma base_powerUpsPass: "baseView (powerUpsPass dt s) = baseView s"
proof -
  obtain rem1 s1 where p: "pupsLoop dt (powerUps s) [] s = (rem1, s1)"
    by (metis surj_pair)
  from base_pupsLoop [OF p] p show ?thesis
    by (simp add: powerUpsPass_def view_defs)
qed

lemma base_decrementTimers: "baseView (decrementTimers dt s) = baseView s"
  by (simp add: decrementTimers_def Let_def view_defs)

lemma calm_shipLoop:
  "shipLoop es surv rs s = (surv1, rs1, s1) \<Longrightarrow>
     calmView s1 = calmView s \<and> (\<not> hasShield s \<longrightarrow> \<not> hasShield s1 \<and> shieldTimer s1 = shieldTimer s)"
proof (induction es arbitrary: surv rs s)
  case Nil
  then show ?case by simp
next
  case (Cons enemy es)
  show ?case
  proof (cases "touchesShip (rocket s) enemy")
    case False
    with Cons.prems have "shipLoop es (surv @ [enemy]) rs s = (surv1, rs1, s1)"
      by simp
    from Cons.IH [OF this] show ?thesis .
  next
    case True
    note touch = this
    show ?thesis
    proof (cases "hasShield s")
      case False
      with touch Cons.prems have "s1 = s\<lparr>mode := Gameover\<rparr>"
        by simp
      with False show ?thesis by (simp add: view_defs)
    next
      case True
      define s0 where "s0 = s\<lparr>hasShield := False, shieldTimer := 0\<rparr>"
      from True touch Cons.prems have
        "shipLoop es surv (snd (onEnemyDestroyed enemy rs s0)) (fst (onEnemyDestroyed enemy rs s0))
           = (surv1, rs1, s1)"
        by (simp add: s0_def split: prod.splits)
      from Cons.IH [OF this] have "calmView s1 = calmView (fst (onEnemyDestroyed enemy rs s0))"
        by simp
      also have "\<dots> = calmView s0"
        by (rule fixed_calm) (rule fixed_onEnemyDestroyed)
      also have "\<dots> = calmView s"
        by (simp add: s0_def view_defs)
      finally show ?thesis using True by simp
    qed
  qed
qed

lemma calm_shipCollisions:
  "calmView (fst (shipCollisions rs s)) = calmView s \<and>
   (\<not> hasShield s \<longrightarrow>
      \<not> hasShield (fst (shipCollisions rs s)) \<and>
      shieldTimer (fst (shipCollisions rs s)) = shieldTimer s)"
proof -
  obtain surv1 rs1 s1 where p: "shipLoop (enemies s) [] rs s = (surv1, rs1, s1)"
    by (metis prod_cases3)
  from calm_shipLoop [OF p] p show ?thesis
    by (simp add: shipCollisions_def view_defs)
qed

lemma base_shipCollisions: "baseView (fst (shipCollisions rs s)) = baseView s"
  by (rule calm_base) (simp add: calm_shipCollisions)

lemma fixed_base: "fixedView a = fixedView b \<Longrightarrow> baseView a = baseView b"
  by (simp add: fixedView_def calmView_def)

lemmas base_world =
  fixed_world [THEN fixed_base] base_driftWells base_slowMoDecay base_beamsPass
  base_powerUpsPass base_decrementTimers base_shipCollisions

lemma base_updateWorld: "baseView (updateWorld dt width height rs s) = baseView s"
  by (simp add: updateWorld_def Let_def case_prod_beta base_world)

subsection \<open>The tick taken apart\<close>

lemma update_parts:
  assumes "mode s = Playing" and "\<not> pause s" and "update dt width height rs s = Some s'"
  obtains s1 rs1 s2 rs2 where
    "themeRotation dt rs (moveRocket dt width height s) = Some (s1, rs1)"
    "spawnAll dt width height rs1 (difficulty dt (comboDecay dt s1)) = Some (s2, rs2)"
    "s' = updateWorld dt width height rs2 s2"
  using assms by (auto simp: update_def split: option.splits prod.splits)

lemma update_idle: "mode s \<noteq> Playing \<or> pause s \<Longrightarrow> update dt width height rs s = Some s"
  by (auto simp: update_def)

lemma theme_update:
  assumes "mode s = Playing" and "\<not> pause s" and "update dt width height rs s = Some s'"
  obtains s1 rs1 where
    "themeRotation dt rs (moveRocket dt width height s) = Some (s1, rs1)"
    "themeView s' = themeView s1"
proof -
  from assms obtain s1 rs1 s2 rs2 where
    1: "themeRotation dt rs (moveRocket dt width height s) = Some (s1, rs1)" and
    2: "spawnAll dt width height rs1 (difficulty dt (comboDecay dt s1)) = Some (s2, rs2)" and
    3: "s' = updateWorld dt width height rs2 s2"
    by (rule update_parts)
  from fixed_spawnAll [OF 2] have "fixedView s2 = fixedView s1"
    by (simp add: fixed_difficulty fixed_comboDecay)
  then have "baseView s2 = baseView s1" by (rule fixed_base)
  with 3 have "baseView s' = baseView s1" by (simp add: base_updateWorld)
  then have "themeView s' = themeView s1" by (simp add: baseView_def)
  with 1 show ?thesis by (rule that)
qed


subsection \<open>Theme rotation\<close>

lemma length_THEMES: "length THEMES = 5"
  by (simp add: THEMES_def)

lemma pickLoop_other:
  assumes "pickLoop ex idx rs = Some r"
  shows "fst r \<noteq> ex"
proof (rule pickLoop.raw_induct [where P = "\<lambda>ex idx rs r. fst r \<noteq> ex", OF _ assms])
  fix f ex idx rs r
  assume IH: "\<And>ex idx rs r. f ex idx rs = Some r \<Longrightarrow> fst r \<noteq> ex"
    and eq: "(if idx = ex then f ex (nat \<lfloor>rs 0 * real (length THEMES)\<rfloor>) (skip 1 rs)
              else Some (idx, rs)) = Some r"
  show "fst r \<noteq> ex"
  proof (cases "idx = ex")
    case True
    with eq have "f ex (nat \<lfloor>rs 0 * real (length THEMES)\<rfloor>) (skip 1 rs) = Some r"
      by simp
    then show ?thesis by (rule IH)
  next
    case False
    with eq show ?thesis by auto
  qed
qed

lemma pickNext_other:
  "pickNextThemeIndex ex rs = Some (i, rs1) \<Longrightarrow> i \<noteq> ex"
  using pickLoop_other [of ex ex rs "(i, rs1)"]
  by (simp add: pickNextThemeIndex_def length_THEMES)

text \<open>
  The loop returns as soon as the supply holds a draw for another index.
\<close>

lemma pickLoop_returns:
  "nat \<lfloor>rs n * real (length THEMES)\<rfloor> \<noteq> ex \<Longrightarrow> \<exists>r. pickLoop ex ex rs = Some r"
proof (induction n arbitrary: rs)
  case 0
  then show ?case
    by (subst pickLoop.simps) (simp add: pickLoop.simps)
next
  case (Suc n)
  show ?case
  proof (cases "nat \<lfloor>rs 0 * real (length THEMES)\<rfloor> = ex")
    case False
    then show ?thesis
      by (subst pickLoop.simps) (simp add: pickLoop.simps)
  next
    case True
    from Suc.prems have "nat \<lfloor>skip 1 rs n * real (length THEMES)\<rfloor> \<noteq> ex"
      by (simp add: skip_def)
    with Suc.IH [of "skip 1 rs"] obtain r where "pickLoop ex ex (skip 1 rs) = Some r"
      by blast
    with True show ?thesis
      by (subst pickLoop.simps) simp
  qed
qed

lemma pickNext_returns:
  "nat \<lfloor>rs n * real (length THEMES)\<rfloor> \<noteq> ex \<Longrightarrow> \<exists>r. pickNextThemeIndex ex rs = Some r"
  using pickLoop_returns [of rs n ex] by (simp add: pickNextThemeIndex_def)

text \<open>One tick of the rotation, by the state it starts in.\<close>

lemma themeRotation_steady:
  assumes "themeRotation dt rs s = Some (s1, rs1)"
    and "\<not> themeTransitioning s" and "themeTimer s + dt \<le> themeDuration s"
  shows "themeView s1 =
    (currentThemeIdx s, nextThemeIdx s, themeBlend s, themeTimer s + dt, themeDuration s, False)"
  using assms
  by (auto simp: themeRotation_def themeStart_def themeCrossfade_def Let_def themeView_def)

lemma themeRotation_begin:
  assumes "themeRotation dt rs s = Some (s1, rs1)"
    and "\<not> themeTransitioning s" and "themeDuration s < themeTimer s + dt" and "dt / 4 < 1"
  shows "\<exists>i. i \<noteq> currentThemeIdx s \<and>
    themeView s1 = (currentThemeIdx s, i, dt / 4, 0, themeDuration s, True)"
proof -
  from assms obtain i rs0 where
    p: "pickNextThemeIndex (currentThemeIdx s) rs = Some (i, rs0)"
    by (auto simp: themeRotation_def themeStart_def Let_def split: option.splits)
  with assms have "themeView s1 = (currentThemeIdx s, i, dt / 4, 0, themeDuration s, True)"
    by (auto simp: themeRotation_def themeStart_def themeCrossfade_def Let_def themeView_def)
  with pickNext_other [OF p] show ?thesis by blast
qed

lemma themeRotation_blend:
  assumes "themeRotation dt rs s = Some (s1, rs1)"
    and "themeTransitioning s" and "themeBlend s + dt / 4 < 1"
  shows "themeView s1 =
    (currentThemeIdx s, nextThemeIdx s, themeBlend s + dt / 4, themeTimer s + dt,
     themeDuration s, True)"
  using assms
  by (auto simp: themeRotation_def themeStart_def themeCrossfade_def Let_def themeView_def)

lemma themeRotation_commit:
  assumes "themeRotation dt rs s = Some (s1, rs1)"
    and "themeTransitioning s" and "1 \<le> themeBlend s + dt / 4"
  shows "\<exists>i. i \<noteq> nextThemeIdx s \<and>
    themeView s1 = (nextThemeIdx s, i, 0, themeTimer s + dt, themeDuration s, False)"
proof -
  from assms obtain i rs0 where
    p: "pickNextThemeIndex (nextThemeIdx s) rs = Some (i, rs0)"
    by (auto simp: themeRotation_def themeStart_def themeCrossfade_def Let_def
        split: option.splits)
  with assms have
    "themeView s1 = (nextThemeIdx s, i, 0, themeTimer s + dt, themeDuration s, False)"
    by (auto simp: themeRotation_def themeStart_def themeCrossfade_def Let_def themeView_def)
  with pickNext_other [OF p] show ?thesis by blast
qed

lemma themeView_moveRocket: "themeView (moveRocket dt width height s) = themeView s"
  by (simp add: moveRocket_def Let_def themeView_def)

text \<open>Evaluating a tick on a concrete state.\<close>

lemmas tick_eval =
  update_def moveRocket_def moveIntent_def themeRotation_def themeStart_def
  themeCrossfade_def pickNextThemeIndex_def pickLoop.simps comboDecay_def difficulty_def
  spawnAll_def spawning_def spawnStepOf_def bossAlive_def isBoss_def spawnLoop.simps
  bossWaves_def meteorEvent_def meteorLoop.simps updateWorld_def driftWells_def
  effectiveDt_def slowMoDecay_def updateEnemies_def moveEnemy_def updateBullets_def
  beamsPass_def beamDamage_def inCapsule_def enemyCenter_def collisions_def inMargin_def
  onScreen_def orbsPass_def powerUpsPass_def inPickupRange_def decrementTimers_def
  particlesPass_def spawnThruster_def shakeDecay_def shipCollisions_def touchesShip_def
  rectRectOverlap_def clamp_def rocketCenter_def constRng_def listRng_def skip_def
  length_THEMES Let_def

text \<open>
  While a crossfade runs and stays below 1, \<open>n\<close> ticks add \<open>n\<close> times \<open>dt / 4\<close> to the
  blend: it grows linearly with the time played, by 1 in four seconds.
\<close>

lemma themeTicks_blend:
  "themeTransitioning s \<Longrightarrow> themeBlend s + real n * (dt / 4) < 1 \<Longrightarrow> 0 \<le> dt \<Longrightarrow>
     themeTicks n dt rs s =
       Some (s\<lparr>themeTimer := themeTimer s + real n * dt,
               themeBlend := themeBlend s + real n * (dt / 4)\<rparr>)"
proof (induction n arbitrary: s)
  case 0
  then show ?case by simp
next
  case (Suc n)
  let ?s1 = "s\<lparr>themeTimer := themeTimer s + dt, themeBlend := themeBlend s + dt / 4\<rparr>"
  have eq: "real (Suc n) * (dt / 4) = dt / 4 + real n * (dt / 4)"
    by (simp add: field_simps)
  have eq': "real (Suc n) * dt = dt + real n * dt"
    by (simp add: field_simps)
  have pos: "0 \<le> real n * (dt / 4)"
    using Suc.prems(3) by simp
  from Suc.prems(2) eq pos have small: "themeBlend s + dt / 4 < 1"
    by linarith
  with Suc.prems have rot: "themeRotation dt rs s = Some (?s1, rs)"
    by (simp add: themeRotation_def themeStart_def themeCrossfade_def Let_def)
  have b1: "themeBlend ?s1 = themeBlend s + dt / 4" and t1: "themeTimer ?s1 = themeTimer s + dt"
    and tr: "themeTransitioning ?s1"
    using Suc.prems(1) by simp_all
  have "themeBlend ?s1 + real n * (dt / 4) < 1"
    unfolding b1 using Suc.prems(2) eq by linarith
  from Suc.IH [OF tr this Suc.prems(3)]
  have "themeTicks n dt rs ?s1 =
      Some (s\<lparr>themeTimer := themeTimer s + dt + real n * dt,
               themeBlend := themeBlend s + dt / 4 + real n * (dt / 4)\<rparr>)"
    by simp
  with rot show ?case
    by (simp only: themeTicks.simps option.case prod.case eq eq' add.assoc)
qed

lemma themeTicks_add:
  "themeTicks (m + n) dt rs s =
     (case themeTicks m dt rs s of None \<Rightarrow> None | Some s1 \<Rightarrow> themeTicks n dt rs s1)"
  by (induction m arbitrary: s) (auto split: option.splits)

subsection \<open>Beams\<close>

lemma inCapsule_ttl [simp]: "inCapsule (b\<lparr>bm_ttl := t\<rparr>) e = inCapsule b e"
  by (simp add: inCapsule_def)

lemma inCapsule_hp [simp]: "inCapsule b (e\<lparr>e_hp := h\<rparr>) = inCapsule b e"
  by (simp add: inCapsule_def enemyCenter_def)

lemma beamHits_hp [simp]: "beamHits bs (e\<lparr>e_hp := h\<rparr>) = beamHits bs e"
  by (simp add: beamHits_def)

lemma beamHits_Cons:
  "beamHits (b # bs) e = (if inCapsule b e then Suc (beamHits bs e) else beamHits bs e)"
  by (simp add: beamHits_def)

lemma beamDamage_then_rest:
  "(beamDamage (b\<lparr>bm_ttl := t\<rparr>) e)\<lparr>e_hp :=
       e_hp (beamDamage (b\<lparr>bm_ttl := t\<rparr>) e)
         - 0.8 * real (beamHits bs (beamDamage (b\<lparr>bm_ttl := t\<rparr>) e))\<rparr>
     = e\<lparr>e_hp := e_hp e - 0.8 * real (beamHits (b # bs) e)\<rparr>"
  by (simp add: beamDamage_def beamHits_Cons algebra_simps)

lemma beamsLoop_eq:
  "beamsLoop dt bs rem es =
     (rem @ filter (\<lambda>b. 0 < bm_ttl b) (map (\<lambda>b. b\<lparr>bm_ttl := bm_ttl b - dt\<rparr>) bs),
      map (\<lambda>e. e\<lparr>e_hp := e_hp e - 0.8 * real (beamHits bs e)\<rparr>) es)"
proof (induction bs arbitrary: rem es)
  case Nil
  then show ?case by (simp add: beamHits_def)
next
  case (Cons b bs)
  let ?b1 = "b\<lparr>bm_ttl := bm_ttl b - dt\<rparr>"
  have dmg: "map (\<lambda>e. e\<lparr>e_hp := e_hp e - 0.8 * real (beamHits bs e)\<rparr>) (map (beamDamage ?b1) es)
      = map (\<lambda>e. e\<lparr>e_hp := e_hp e - 0.8 * real (beamHits (b # bs) e)\<rparr>) es"
    by (simp only: map_map comp_def beamDamage_then_rest)
  have "beamsLoop dt (b # bs) rem es =
      beamsLoop dt bs (if 0 < bm_ttl ?b1 then rem @ [?b1] else rem) (map (beamDamage ?b1) es)"
    by (simp add: Let_def)
  also have "\<dots> =
      ((if 0 < bm_ttl ?b1 then rem @ [?b1] else rem) @
         filter (\<lambda>b. 0 < bm_ttl b) (map (\<lambda>b. b\<lparr>bm_ttl := bm_ttl b - dt\<rparr>) bs),
       map (\<lambda>e. e\<lparr>e_hp := e_hp e - 0.8 * real (beamHits bs e)\<rparr>) (map (beamDamage ?b1) es))"
    by (rule Cons.IH)
  finally show ?case
    unfolding dmg by simp
qed

lemma beamsPass_eq:
  "beams (beamsPass dt s)
     = filter (\<lambda>b. 0 < bm_ttl b) (map (\<lambda>b. b\<lparr>bm_ttl := bm_ttl b - dt\<rparr>) (beams s)) \<and>
   enemies (beamsPass dt s)
     = map (\<lambda>e. e\<lparr>e_hp := e_hp e - 0.8 * real (beamHits (beams s) e)\<rparr>) (enemies s)"
  by (simp add: beamsPass_def Let_def beamsLoop_eq)

text \<open>The beams that reach the beam pass are those of the start of the tick.\<close>

lemma calm_beams: "calmView a = calmView b \<Longrightarrow> beams a = beams b"
  by (simp add: calmView_def)

lemma fixed_beams: "fixedView a = fixedView b \<Longrightarrow> beams a = beams b"
  by (simp add: fixedView_def calmView_def)

lemma beams_themeRotation:
  "themeRotation dt rs s = Some (s1, rs1) \<Longrightarrow> beams s1 = beams s"
  by (auto simp: themeRotation_def themeStart_def themeCrossfade_def Let_def
      split: option.splits if_splits)

lemma beams_pupsLoop:
  "pupsLoop dt ps rem s = (rem1, s1) \<Longrightarrow> beams s1 = beams s"
proof (induction ps arbitrary: rem s)
  case Nil
  then show ?case by simp
next
  case (Cons p ps)
  have c: "beams (collect (pu_type p) s) = beams s"
    by (cases "pu_type p") simp_all
  from Cons.prems show ?case
    by (auto simp: Let_def c split: if_splits dest!: Cons.IH)
qed

lemma beams_powerUpsPass: "beams (powerUpsPass dt s) = beams s"
proof -
  obtain rem1 s1 where p: "pupsLoop dt (powerUps s) [] s = (rem1, s1)"
    by (metis surj_pair)
  from beams_pupsLoop [OF p] p show ?thesis
    by (simp add: powerUpsPass_def)
qed

lemma beams_world:
  "beams (driftWells dt s) = beams s"
  "beams (slowMoDecay dt s) = beams s"
  "beams (decrementTimers dt s) = beams s"
  "beams (fst (shipCollisions rs s)) = beams s"
  "beams (updateEnemies edt s) = beams s"
  "beams (fst (updateBullets edt rs s)) = beams s"
  "beams (fst (collisions width height rs s)) = beams s"
  "beams (orbsPass edt s) = beams s"
  "beams (particlesPass dt edt s) = beams s"
  "beams (fst (spawnThruster dt rs s)) = beams s"
  "beams (shakeDecay s) = beams s"
  by (simp_all add: driftWells_def slowMoDecay_def decrementTimers_def Let_def
      calm_beams [OF conjunct1 [OF calm_shipCollisions]] fixed_world [THEN fixed_beams])

lemma beams_updateWorld:
  "beams (updateWorld dt width height rs s)
     = filter (\<lambda>b. 0 < bm_ttl b) (map (\<lambda>b. b\<lparr>bm_ttl := bm_ttl b - dt\<rparr>) (beams s))"
  by (simp add: updateWorld_def Let_def case_prod_beta beams_world beams_powerUpsPass
      beamsPass_eq)

lemma beams_update:
  assumes "mode s = Playing" and "\<not> pause s" and "update dt width height rs s = Some s'"
  shows "beams s'
     = filter (\<lambda>b. 0 < bm_ttl b) (map (\<lambda>b. b\<lparr>bm_ttl := bm_ttl b - dt\<rparr>) (beams s))"
proof -
  from assms obtain s1 rs1 s2 rs2 where
    1: "themeRotation dt rs (moveRocket dt width height s) = Some (s1, rs1)" and
    2: "spawnAll dt width height rs1 (difficulty dt (comboDecay dt s1)) = Some (s2, rs2)" and
    3: "s' = updateWorld dt width height rs2 s2"
    by (rule update_parts)
  from fixed_spawnAll [OF 2] have "fixedView s2 = fixedView s1"
    by (simp add: fixed_difficulty fixed_comboDecay)
  then have "beams s2 = beams s1" by (rule fixed_beams)
  also from beams_themeRotation [OF 1] have "beams s1 = beams s"
    by (simp add: moveRocket_def Let_def)
  finally show ?thesis using 3 by (simp add: beams_updateWorld)
qed

text \<open>
  C10. The beam pass subtracts 0.8 hit points from an enemy once for every beam whose
  capsule holds its centre (distance from the beam line below \<open>width / 2 + 2\<close>, forward
  projection above \<open>-20\<close>), whatever the time step and whatever the beam's remaining
  life; it keeps the beams whose decremented ttl is positive. The beams it sees in a
  tick are those of the start of the tick, and none is added after it.
\<close>

theorem beam_damage_flat:
  "beams (beamsPass dt s)
     = filter (\<lambda>b. 0 < bm_ttl b) (map (\<lambda>b. b\<lparr>bm_ttl := bm_ttl b - dt\<rparr>) (beams s)) \<and>
   enemies (beamsPass dt s)
     = map (\<lambda>e. e\<lparr>e_hp := e_hp e - 0.8 * real (beamHits (beams s) e)\<rparr>) (enemies s) \<and>
   beamHits (b # bs) e = (if inCapsule b e then 1 else 0) + beamHits bs e \<and>
   beamHits [] e = 0 \<and>
   inCapsule b e =
     (\<bar>(fst (enemyCenter e) - fst (bm_origin b)) * (- snd (bm_direction b)) +
       (snd (enemyCenter e) - snd (bm_origin b)) * fst (bm_direction b)\<bar>
        < bm_width b / 2 + 2 \<and>
      - 20 < (fst (enemyCenter e) - fst (bm_origin b)) * fst (bm_direction b) +
             (snd (enemyCenter e) - snd (bm_origin b)) * snd (bm_direction b)) \<and>
   (mode s = Playing \<and> \<not> pause s \<and> update dt width height rs s = Some s' \<longrightarrow>
      beams s'
        = filter (\<lambda>b. 0 < bm_ttl b) (map (\<lambda>b. b\<lparr>bm_ttl := bm_ttl b - dt\<rparr>) (beams s)))"
  using beamsPass_eq [of dt s] beams_update [of s dt width height rs s']
  by (simp add: beamHits_def inCapsule_def Let_def)

theorem beam_damage_flat_witness:
  "map bm_ttl (beams fadingBeam) = [21 / 1000] \<and> enemyHps fadingBeam = [2] \<and>
   beams (beamsPass (33 / 1000) fadingBeam) = [] \<and>
   enemyHps (beamsPass (33 / 1000) fadingBeam) = [2 - 0.8] \<and>
   enemyHps (beamsPass (1 / 1000) fadingBeam) = [2 - 0.8] \<and>
   (\<exists>s'. update (33 / 1000) 800 600 (constRng (1 / 2)) fadingBeam = Some s' \<and> beams s' = [])"
proof -
  have pre: "mode fadingBeam = Playing \<and> \<not> pause fadingBeam \<and>
      map bm_ttl (beams fadingBeam) = [21 / 1000] \<and> enemyHps fadingBeam = [2]"
    by (simp add: fadingBeam_def beamOnUfo_def playing0_def initState_def enemyHps_def)
  have hit: "beamHits (beams fadingBeam) (hd (enemies fadingBeam)) = 1"
    by (simp add: fadingBeam_def beamOnUfo_def playing0_def initState_def beamHits_def
        inCapsule_def enemyCenter_def)
  have "update (33 / 1000) 800 600 (constRng (1 / 2)) fadingBeam \<noteq> None"
    by (simp add: fadingBeam_def beamOnUfo_def playing0_def initState_def tick_eval
        cong: let_weak_cong prod.case_cong_weak)
  then obtain s' where
    u: "update (33 / 1000) 800 600 (constRng (1 / 2)) fadingBeam = Some s'"
    by blast
  from beam_damage_flat [of "33 / 1000" fadingBeam _ _ _ 800 600 "constRng (1 / 2)" s'] u pre
  have b: "beams s' = filter (\<lambda>b. 0 < bm_ttl b)
      (map (\<lambda>b. b\<lparr>bm_ttl := bm_ttl b - 33 / 1000\<rparr>) (beams fadingBeam))"
    by simp
  have "beams s' = []"
    unfolding b by (simp add: fadingBeam_def beamOnUfo_def playing0_def initState_def)
  moreover have "beams (beamsPass (33 / 1000) fadingBeam) = []"
    using beam_damage_flat [of "33 / 1000" fadingBeam]
    by (simp add: fadingBeam_def beamOnUfo_def playing0_def initState_def)
  moreover have "enemyHps (beamsPass dt fadingBeam) = [2 - 0.8]" for dt
    using beam_damage_flat [of dt fadingBeam] hit
    by (simp add: enemyHps_def fadingBeam_def beamOnUfo_def playing0_def initState_def)
  ultimately show ?thesis using pre u by simp
qed

subsection \<open>Hit points of the enemies\<close>

text \<open>
  With no beam about, a tick keeps every enemy above 0 hit points: the spawners create
  enemies with positive hit points, only the bullet pass lowers them, and it removes
  the enemy it takes to 0.
\<close>

lemma alive_spawnEnemy: "alive s \<Longrightarrow> alive (fst (spawnEnemy width height rs s))"
  by (simp add: spawnEnemy_def alive_def Let_def)

lemma alive_spawnLoop:
  assumes "spawnLoop st boss width height sr = Some r"
  shows "alive (fst sr) \<longrightarrow> alive (fst r)"
proof (rule spawnLoop.raw_induct
    [where P = "\<lambda>st boss width height sr r. alive (fst sr) \<longrightarrow> alive (fst r)", OF _ assms])
  fix f st boss width height sr r
  assume IH: "\<And>st boss width height sr r.
      f st boss width height sr = Some r \<Longrightarrow> alive (fst sr) \<longrightarrow> alive (fst r)"
    and eq: "(if st \<le> spawnAccumulator (fst sr)
              then f st boss width height (spawnBody st boss width height sr)
              else Some sr) = Some r"
  have body: "alive (fst sr) \<Longrightarrow> alive (fst (spawnBody st boss width height sr))"
    using alive_spawnEnemy
      [of "(fst sr)\<lparr>spawnAccumulator := spawnAccumulator (fst sr) - st\<rparr>" width height "snd sr"]
    by (simp add: spawnBody_def Let_def alive_def)
  show "alive (fst sr) \<longrightarrow> alive (fst r)"
  proof (cases "st \<le> spawnAccumulator (fst sr)")
    case True
    with eq have "f st boss width height (spawnBody st boss width height sr) = Some r"
      by simp
    from IH [OF this] body show ?thesis by blast
  next
    case False
    with eq show ?thesis by auto
  qed
qed

lemma alive_spawning:
  "spawning dt width height rs s = Some r \<Longrightarrow> alive s \<Longrightarrow> alive (fst r)"
  using alive_spawnLoop
    [of _ _ width height "(s\<lparr>spawnAccumulator := spawnAccumulator s + dt * 1000\<rparr>, rs)" r]
  by (simp add: spawning_def Let_def alive_def)

lemma alive_bossWaves: "alive s \<Longrightarrow> alive (fst (bossWaves dt width boss rs s))"
  by (simp add: bossWaves_def alive_def Let_def)

lemma alive_meteorLoop: "alive (fst sr) \<Longrightarrow> alive (fst (meteorLoop width sr))"
proof (induction width sr rule: meteorLoop.induct)
  case (1 width sr)
  have body: "alive (fst (meteorBody width sr))"
    using "1.prems" by (simp add: meteorBody_def alive_def Let_def)
  show ?case
  proof (cases "180 < meteorSpawnAcc (fst sr)")
    case True
    with "1.IH" body show ?thesis
      by (subst meteorLoop.simps) simp
  next
    case False
    with "1.prems" show ?thesis
      by (subst meteorLoop.simps) simp
  qed
qed

lemma alive_meteorEvent: "alive s \<Longrightarrow> alive (fst (meteorEvent dt width rs s))"
proof -
  assume a: "alive s"
  have upd: "alive (fst (meteorLoop width (s0, rs))) " if "alive s0" for s0
    using alive_meteorLoop [of "(s0, rs)" width] that by simp
  have e: "alive (x\<lparr>eventActive := b\<rparr>) = alive x" for x b
    by (simp add: alive_def)
  from a show ?thesis
    by (auto simp: meteorEvent_def Let_def e intro!: upd) (simp_all add: alive_def)
qed

lemma alive_spawnAll:
  assumes "spawnAll dt width height rs s = Some (s2, rs2)" and "alive s"
  shows "alive s2"
proof -
  from assms(1) obtain s1 rs1 where
    1: "spawning dt width height rs s = Some (s1, rs1)" and
    2: "(s2, rs2) = meteorEvent dt width (snd (bossWaves dt width (bossAlive s) rs1 s1))
          (fst (bossWaves dt width (bossAlive s) rs1 s1))"
    by (auto simp: spawnAll_def split: option.splits prod.splits)
  from alive_spawning [OF 1 assms(2)] have "alive s1" by simp
  then have "alive (fst (bossWaves dt width (bossAlive s) rs1 s1))"
    by (rule alive_bossWaves)
  then have "alive (fst (meteorEvent dt width (snd (bossWaves dt width (bossAlive s) rs1 s1))
          (fst (bossWaves dt width (bossAlive s) rs1 s1))))"
    by (rule alive_meteorEvent)
  with 2 show ?thesis by (metis fst_conv)
qed

lemma hp_gravity: "e_hp (foldl (gravityPull edt) e ws) = e_hp e"
  by (induction ws arbitrary: e) (simp_all add: gravityPull_def Let_def)

lemma alive_updateEnemies: "alive (updateEnemies edt s) = alive s"
  by (simp add: updateEnemies_def alive_def moveEnemy_def hp_gravity list_all_iff)

lemma enemies_beamsPass: "beams s = [] \<Longrightarrow> enemies (beamsPass dt s) = enemies s"
  by (simp add: beamsPass_def)

lemma hitLoop_alive:
  "hitLoop enemy kept bs rs s = (e1, destroyed, bs1, rs1, s1) \<Longrightarrow> 0 < e_hp enemy \<Longrightarrow>
     \<not> destroyed \<Longrightarrow> 0 < e_hp e1"
proof (induction bs arbitrary: enemy kept rs s)
  case Nil
  then show ?case by simp
next
  case (Cons bullet bs)
  show ?case
  proof (cases "hits enemy bullet")
    case False
    with Cons.prems have "hitLoop enemy (kept @ [bullet]) bs rs s = (e1, destroyed, bs1, rs1, s1)"
      by simp
    from Cons.IH [OF this Cons.prems(2,3)] show ?thesis .
  next
    case True
    show ?thesis
    proof (cases "e_hp enemy - 1 \<le> 0")
      case True
      with \<open>hits enemy bullet\<close> Cons.prems(1) have destroyed
        by (simp add: Let_def split: prod.splits)
      with Cons.prems(3) show ?thesis by simp
    next
      case False
      with \<open>hits enemy bullet\<close> Cons.prems(1) have
        "hitLoop (enemy\<lparr>e_hp := e_hp enemy - 1\<rparr>) kept bs (skip 2 rs)
           (s\<lparr>particles := particles s @ [impactParticle bullet rs]\<rparr>)
         = (e1, destroyed, bs1, rs1, s1)"
        by (simp add: Let_def)
      from Cons.IH [OF this _ Cons.prems(3)] False show ?thesis by simp
    qed
  qed
qed

lemma collideLoop_alive:
  "collideLoop es rem bs rs s = (rem1, bs1, rs1, s1) \<Longrightarrow> list_all (\<lambda>e. 0 < e_hp e) es \<Longrightarrow>
     list_all (\<lambda>e. 0 < e_hp e) rem \<Longrightarrow> list_all (\<lambda>e. 0 < e_hp e) rem1"
proof (induction es arbitrary: rem bs rs s)
  case Nil
  then show ?case by simp
next
  case (Cons enemy es)
  obtain e1 destroyed bs0 rs0 s0 where
    h: "hitLoop enemy [] bs rs s = (e1, destroyed, bs0, rs0, s0)"
    by (metis prod_cases5)
  with Cons.prems(1) have
    c: "collideLoop es (if \<not> destroyed then rem @ [e1] else rem) bs0 rs0 s0
        = (rem1, bs1, rs1, s1)"
    by simp
  from Cons.prems(2) have pos: "0 < e_hp enemy" and rest: "list_all (\<lambda>e. 0 < e_hp e) es"
    by simp_all
  have "list_all (\<lambda>e. 0 < e_hp e) (if \<not> destroyed then rem @ [e1] else rem)"
    using hitLoop_alive [OF h pos] Cons.prems(3) by simp
  from Cons.IH [OF c rest this] show ?case .
qed

lemma alive_collisions: "alive s \<Longrightarrow> alive (fst (collisions width height rs s))"
proof -
  assume a: "alive s"
  obtain rem1 bs1 rs1 s1 where
    c: "collideLoop (enemies s) [] (bullets s) rs s = (rem1, bs1, rs1, s1)"
    by (metis prod_cases4)
  from collideLoop_alive [OF c] a have "list_all (\<lambda>e. 0 < e_hp e) rem1"
    by (simp add: alive_def)
  with c show ?thesis
    by (simp add: collisions_def alive_def list_all_iff)
qed

lemma shipLoop_alive:
  "shipLoop es sv rs s = (sv1, rs1, s1) \<Longrightarrow> list_all (\<lambda>e. 0 < e_hp e) es \<Longrightarrow>
     list_all (\<lambda>e. 0 < e_hp e) sv \<Longrightarrow> list_all (\<lambda>e. 0 < e_hp e) sv1"
proof (induction es arbitrary: sv rs s)
  case Nil
  then show ?case by simp
next
  case (Cons enemy es)
  from Cons.prems(2) have pos: "0 < e_hp enemy" and rest: "list_all (\<lambda>e. 0 < e_hp e) es"
    by simp_all
  show ?case
  proof (cases "touchesShip (rocket s) enemy")
    case False
    with Cons.prems(1) have "shipLoop es (sv @ [enemy]) rs s = (sv1, rs1, s1)"
      by simp
    from Cons.IH [OF this rest] pos Cons.prems(3) show ?thesis by simp
  next
    case True
    show ?thesis
    proof (cases "hasShield s")
      case False
      with True Cons.prems(1,3) show ?thesis by simp
    next
      case True
      with \<open>touchesShip (rocket s) enemy\<close> Cons.prems(1) have
        "shipLoop es sv
           (snd (onEnemyDestroyed enemy rs (s\<lparr>hasShield := False, shieldTimer := 0\<rparr>)))
           (fst (onEnemyDestroyed enemy rs (s\<lparr>hasShield := False, shieldTimer := 0\<rparr>)))
         = (sv1, rs1, s1)"
        by (simp split: prod.splits)
      from Cons.IH [OF this rest Cons.prems(3)] show ?thesis .
    qed
  qed
qed

lemma alive_shipCollisions: "alive s \<Longrightarrow> alive (fst (shipCollisions rs s))"
proof -
  assume a: "alive s"
  obtain sv1 rs1 s1 where c: "shipLoop (enemies s) [] rs s = (sv1, rs1, s1)"
    by (metis prod_cases3)
  from shipLoop_alive [OF c] a have "list_all (\<lambda>e. 0 < e_hp e) sv1"
    by (simp add: alive_def)
  with c show ?thesis
    by (simp add: shipCollisions_def alive_def)
qed

lemma enemies_pupsLoop:
  "pupsLoop dt ps rem s = (rem1, s1) \<Longrightarrow> enemies s1 = enemies s"
proof (induction ps arbitrary: rem s)
  case Nil
  then show ?case by simp
next
  case (Cons p ps)
  have c: "enemies (collect (pu_type p) s) = enemies s"
    by (cases "pu_type p") simp_all
  from Cons.prems show ?case
    by (auto simp: Let_def c split: if_splits dest!: Cons.IH)
qed

lemma enemies_powerUpsPass: "enemies (powerUpsPass dt s) = enemies s"
proof -
  obtain rem1 s1 where p: "pupsLoop dt (powerUps s) [] s = (rem1, s1)"
    by (metis surj_pair)
  from enemies_pupsLoop [OF p] p show ?thesis
    by (simp add: powerUpsPass_def)
qed

lemma enemies_world:
  "enemies (driftWells dt s) = enemies s"
  "enemies (slowMoDecay dt s) = enemies s"
  "enemies (decrementTimers dt s) = enemies s"
  "enemies (fst (updateBullets edt rs s)) = enemies s"
  "enemies (orbsPass edt s) = enemies s"
  "enemies (particlesPass dt edt s) = enemies s"
  "enemies (fst (spawnThruster dt rs s)) = enemies s"
  "enemies (shakeDecay s) = enemies s"
  "enemies (comboDecay dt s) = enemies s"
  "enemies (difficulty dt s) = enemies s"
  "enemies (moveRocket dt width height s) = enemies s"
  by (simp_all add: driftWells_def slowMoDecay_def decrementTimers_def Let_def
      updateBullets_def orbsPass_def particlesPass_def spawnThruster_def shakeDecay_def
      comboDecay_def difficulty_def moveRocket_def)

lemma enemies_themeRotation:
  "themeRotation dt rs s = Some (s1, rs1) \<Longrightarrow> enemies s1 = enemies s"
  by (auto simp: themeRotation_def themeStart_def themeCrossfade_def Let_def
      split: option.splits if_splits)

lemma alive_updateWorld:
  assumes "beams s = []" and "alive s"
  shows "alive (updateWorld dt width height rs s)"
proof -
  define edt where "edt = effectiveDt dt (driftWells dt s)"
  define s2 where "s2 = updateEnemies edt (slowMoDecay dt (driftWells dt s))"
  define s3 where "s3 = fst (updateBullets edt rs s2)"
  define s5 where "s5 = collisions width height (snd (updateBullets edt rs s2)) (beamsPass dt s3)"
  have "alive s2"
    using assms(2) by (simp add: s2_def alive_updateEnemies) (simp add: alive_def enemies_world)
  then have a3: "alive s3"
    by (simp add: s3_def alive_def enemies_world)
  have "beams s3 = []"
    using assms(1) by (simp add: s3_def s2_def beams_world)
  with a3 have "alive (beamsPass dt s3)"
    by (simp add: alive_def enemies_beamsPass)
  then have "alive (fst s5)"
    unfolding s5_def by (rule alive_collisions)
  then have "alive (shakeDecay (fst (spawnThruster dt (snd s5)
      (particlesPass dt edt (decrementTimers dt (powerUpsPass dt (orbsPass edt (fst s5))))))))"
    by (simp add: alive_def enemies_world enemies_powerUpsPass)
  then have "alive (fst (shipCollisions
      (snd (spawnThruster dt (snd s5)
        (particlesPass dt edt (decrementTimers dt (powerUpsPass dt (orbsPass edt (fst s5)))))))
      (shakeDecay (fst (spawnThruster dt (snd s5)
        (particlesPass dt edt (decrementTimers dt (powerUpsPass dt (orbsPass edt (fst s5))))))))))"
    by (rule alive_shipCollisions)
  then show ?thesis
    by (simp add: updateWorld_def Let_def case_prod_beta s5_def s3_def s2_def edt_def)
qed

lemma alive_update:
  assumes "update dt width height rs s = Some s'" and "beams s = []" and "alive s"
  shows "alive s'"
proof (cases "mode s = Playing \<and> \<not> pause s")
  case False
  then have "mode s \<noteq> Playing \<or> pause s" by simp
  from update_idle [OF this, of dt width height rs] assms show ?thesis by simp
next
  case True
  with assms(1) obtain s1 rs1 s2 rs2 where
    1: "themeRotation dt rs (moveRocket dt width height s) = Some (s1, rs1)" and
    2: "spawnAll dt width height rs1 (difficulty dt (comboDecay dt s1)) = Some (s2, rs2)" and
    3: "s' = updateWorld dt width height rs2 s2"
    by (auto elim: update_parts)
  from enemies_themeRotation [OF 1] assms(3) have "alive (difficulty dt (comboDecay dt s1))"
    by (simp add: alive_def enemies_world)
  from alive_spawnAll [OF 2 this] have a2: "alive s2" .
  from fixed_spawnAll [OF 2] have "fixedView s2 = fixedView s1"
    by (simp add: fixed_difficulty fixed_comboDecay)
  then have "beams s2 = beams s1" by (rule fixed_beams)
  also from beams_themeRotation [OF 1] have "beams s1 = beams s"
    by (simp add: moveRocket_def Let_def)
  finally have "beams s2 = []" using assms(2) by simp
  from alive_updateWorld [OF this a2] 3 show ?thesis by simp
qed

text \<open>
  The beam pass itself subtracts hit points and never tests them, and the bullet pass
  tests them only after a bullet has hit. On a state with a beam lying over a UFO of
  half a hit point and no bullet around, a tick takes the UFO to -0.3 hit points and
  leaves it in the enemy population. Play reaches no state with a beam, as shown at the
  end.
\<close>

lemma beamsPass_no_removal:
  "enemyHps beamOnUfo = [1 / 2] \<and> bullets beamOnUfo = [] \<and>
   map_option enemyHps (update (33 / 1000) 800 600 (constRng (1 / 2)) beamOnUfo)
     = Some [- 3 / 10] \<and>
   map_option mode (update (33 / 1000) 800 600 (constRng (1 / 2)) beamOnUfo) = Some Playing"
  by (simp add: beamOnUfo_def playing0_def initState_def enemyHps_def tick_eval
      cong: let_weak_cong prod.case_cong_weak)

subsection \<open>The spawner\<close>

lemma floor_less_step:
  fixes a st :: real
  assumes "0 < st" and "nat \<lfloor>a / st\<rfloor> = 0"
  shows "\<not> st \<le> a"
proof
  assume "st \<le> a"
  with assms(1) have "1 \<le> a / st" by (simp add: le_divide_eq)
  then have "1 \<le> \<lfloor>a / st\<rfloor>" by (simp add: le_floor_iff)
  with assms(2) show False by simp
qed

lemma floor_step_down:
  fixes a st :: real
  assumes "0 < st" and "nat \<lfloor>a / st\<rfloor> = Suc n"
  shows "st \<le> a" and "nat \<lfloor>(a - st) / st\<rfloor> = n"
proof -
  from assms(2) have f: "\<lfloor>a / st\<rfloor> = 1 + int n" by linarith
  then have "1 \<le> \<lfloor>a / st\<rfloor>" by simp
  then have "1 \<le> a / st" by (simp add: le_floor_iff)
  with assms(1) show "st \<le> a" by (simp add: le_divide_eq)
  have "(a - st) / st = a / st - 1"
    using assms(1) by (simp add: diff_divide_distrib)
  then have "\<lfloor>(a - st) / st\<rfloor> = \<lfloor>a / st\<rfloor> - 1" by simp
  with f show "nat \<lfloor>(a - st) / st\<rfloor> = n" by simp
qed

text \<open>With a boss alive the loop only drains the accumulator, one step a round.\<close>

lemma spawnLoop_boss:
  assumes "0 < st"
  shows "nat \<lfloor>spawnAccumulator s / st\<rfloor> = n \<Longrightarrow>
     spawnLoop st True width height (s, rs) =
       Some (s\<lparr>spawnAccumulator := spawnAccumulator s - real n * st\<rparr>, rs)"
proof (induction n arbitrary: s)
  case 0
  from floor_less_step [OF assms 0] show ?case
    by (subst spawnLoop.simps) simp
next
  case (Suc n)
  let ?s1 = "s\<lparr>spawnAccumulator := spawnAccumulator s - st\<rparr>"
  from floor_step_down [OF assms Suc.prems] have ge: "st \<le> spawnAccumulator s"
    and n: "nat \<lfloor>spawnAccumulator ?s1 / st\<rfloor> = n"
    by simp_all
  have eq: "spawnAccumulator s - st - real n * st = spawnAccumulator s - real (Suc n) * st"
    by (simp add: algebra_simps)
  have "spawnLoop st True width height (s, rs) = spawnLoop st True width height (?s1, rs)"
    using ge by (subst spawnLoop.simps) (simp add: spawnBody_def)
  also from Suc.IH [OF n] have "\<dots> =
      Some (s\<lparr>spawnAccumulator := spawnAccumulator s - st - real n * st\<rparr>, rs)"
    by simp
  finally show ?case
    unfolding eq .
qed

text \<open>What one call of \<^verbatim>\<open>spawnEnemy\<close> does to the populations and the accumulator.\<close>

lemma spawnEnemy_adds:
  "\<exists>e. regular e \<and> enemies (fst (spawnEnemy width height rs s)) = enemies s @ [e]"
  by (simp add: spawnEnemy_def Let_def regular_def)

lemma spawnEnemy_accumulator:
  "spawnAccumulator (fst (spawnEnemy width height rs s)) = spawnAccumulator s"
  by (simp add: spawnEnemy_def Let_def)

text \<open>With no boss alive every round of the loop adds one regular enemy.\<close>

lemma spawnLoop_regular:
  assumes "0 < st"
  shows "nat \<lfloor>spawnAccumulator s / st\<rfloor> = n \<Longrightarrow>
     \<exists>s' rs' new. spawnLoop st False width height (s, rs) = Some (s', rs') \<and>
       spawnAccumulator s' = spawnAccumulator s - real n * st \<and>
       enemies s' = enemies s @ new \<and> length new = n \<and> list_all regular new"
proof (induction n arbitrary: s rs)
  case 0
  from floor_less_step [OF assms 0] have "spawnLoop st False width height (s, rs) = Some (s, rs)"
    by (subst spawnLoop.simps) simp
  then show ?case by simp
next
  case (Suc n)
  let ?s0 = "s\<lparr>spawnAccumulator := spawnAccumulator s - st\<rparr>"
  let ?s1 = "fst (spawnEnemy width height rs ?s0)"
  let ?rs1 = "snd (spawnEnemy width height rs ?s0)"
  from floor_step_down [OF assms Suc.prems] have ge: "st \<le> spawnAccumulator s"
    and "nat \<lfloor>spawnAccumulator ?s0 / st\<rfloor> = n"
    by simp_all
  then have n: "nat \<lfloor>spawnAccumulator ?s1 / st\<rfloor> = n"
    and acc: "spawnAccumulator ?s1 = spawnAccumulator s - st"
    by (simp_all add: spawnEnemy_accumulator)
  obtain e where e: "regular e" "enemies ?s1 = enemies s @ [e]"
    using spawnEnemy_adds [of width height rs ?s0] by auto
  have unfold: "spawnLoop st False width height (s, rs)
      = spawnLoop st False width height (?s1, ?rs1)"
    using ge by (subst spawnLoop.simps) (simp add: spawnBody_def)
  from Suc.IH [OF n, of ?rs1] obtain s' rs' new where
    r: "spawnLoop st False width height (?s1, ?rs1) = Some (s', rs')"
      "spawnAccumulator s' = spawnAccumulator ?s1 - real n * st"
      "enemies s' = enemies ?s1 @ new" "length new = n" "list_all regular new"
    by blast
  have 1: "spawnLoop st False width height (s, rs) = Some (s', rs')"
    using unfold r(1) by simp
  have 2: "spawnAccumulator s' = spawnAccumulator s - real (Suc n) * st"
    using r(2) acc by (simp add: algebra_simps)
  have 3: "enemies s' = enemies s @ (e # new)"
    using r(3) e(2) by simp
  have 4: "length (e # new) = Suc n" and 5: "list_all regular (e # new)"
    using r(4,5) e(1) by simp_all
  from 1 2 3 4 5 show ?case
    by (intro exI [of _ s'] exI [of _ rs'] exI [of _ "e # new"] conjI)
qed

text \<open>
  C6. At a positive spawn interval the spawning step returns. While a boss is alive it
  changes nothing but the accumulator, which it drains by 1.8 spawn intervals for every
  whole 1.8 intervals accumulated: no enemy is added and no draw is taken. While no boss
  is alive it appends one regular enemy (UFO or asteroid) for every whole spawn interval
  accumulated and drains the accumulator by as many intervals.
\<close>

theorem spawner_boss_gate:
  assumes "0 < spawnInterval s"
  shows
    "(bossAlive s \<longrightarrow>
        spawning dt width height rs s =
          Some (s\<lparr>spawnAccumulator := spawnAccumulator s + dt * 1000
                    - real (nat \<lfloor>(spawnAccumulator s + dt * 1000) / (spawnInterval s * 1.8)\<rfloor>)
                      * (spawnInterval s * 1.8)\<rparr>, rs)) \<and>
     (\<not> bossAlive s \<longrightarrow>
        (\<exists>s' rs' new. spawning dt width height rs s = Some (s', rs') \<and>
           spawnAccumulator s' = spawnAccumulator s + dt * 1000
             - real (nat \<lfloor>(spawnAccumulator s + dt * 1000) / spawnInterval s\<rfloor>)
               * spawnInterval s \<and>
           enemies s' = enemies s @ new \<and>
           length new = nat \<lfloor>(spawnAccumulator s + dt * 1000) / spawnInterval s\<rfloor> \<and>
           list_all regular new))"
proof (intro conjI impI)
  let ?s1 = "s\<lparr>spawnAccumulator := spawnAccumulator s + dt * 1000\<rparr>"
  assume boss: "bossAlive s"
  then have b1: "bossAlive ?s1" by (simp add: bossAlive_def)
  from assms have pos: "0 < spawnInterval s * 1.8" by simp
  from spawnLoop_boss [OF pos, of ?s1 _ width height rs, OF refl] b1 boss
  show "spawning dt width height rs s =
          Some (s\<lparr>spawnAccumulator := spawnAccumulator s + dt * 1000
                    - real (nat \<lfloor>(spawnAccumulator s + dt * 1000) / (spawnInterval s * 1.8)\<rfloor>)
                      * (spawnInterval s * 1.8)\<rparr>, rs)"
    by (simp add: spawning_def spawnStepOf_def Let_def bossAlive_def)
next
  let ?s1 = "s\<lparr>spawnAccumulator := spawnAccumulator s + dt * 1000\<rparr>"
  assume noboss: "\<not> bossAlive s"
  then have b1: "\<not> bossAlive ?s1" by (simp add: bossAlive_def)
  from spawnLoop_regular [OF assms, of ?s1 _ width height rs, OF refl] b1 noboss
  show "\<exists>s' rs' new. spawning dt width height rs s = Some (s', rs') \<and>
           spawnAccumulator s' = spawnAccumulator s + dt * 1000
             - real (nat \<lfloor>(spawnAccumulator s + dt * 1000) / spawnInterval s\<rfloor>)
               * spawnInterval s \<and>
           enemies s' = enemies s @ new \<and>
           length new = nat \<lfloor>(spawnAccumulator s + dt * 1000) / spawnInterval s\<rfloor> \<and>
           list_all regular new"
    by (simp add: spawning_def spawnStepOf_def Let_def bossAlive_def)
qed

theorem spawner_boss_gate_witness:
  "0 < spawnInterval twoDue \<and> \<not> bossAlive twoDue \<and> bossAlive bossAround \<and>
   (\<exists>s' rs'. spawning (33 / 1000) 800 600 (constRng (1 / 2)) twoDue = Some (s', rs') \<and>
      length (enemies s') = 2 \<and> spawnAccumulator s' = 133) \<and>
   (\<exists>s' rs'. spawning (33 / 1000) 800 600 (constRng (1 / 2)) bossAround = Some (s', rs') \<and>
      enemies s' = enemies bossAround \<and> spawnAccumulator s' = 313)"
proof -
  have pre: "0 < spawnInterval twoDue \<and> \<not> bossAlive twoDue \<and>
      spawnInterval twoDue = 900 \<and> spawnAccumulator twoDue = 1900 \<and> enemies twoDue = []"
    by (simp add: twoDue_def playing0_def initState_def bossAlive_def)
  have pre': "0 < spawnInterval bossAround \<and> bossAlive bossAround \<and>
      spawnInterval bossAround = 900 \<and> spawnAccumulator bossAround = 1900"
    by (simp add: bossAround_def twoDue_def playing0_def initState_def bossAlive_def isBoss_def)
  have f1: "nat \<lfloor>(1900 + 33 / 1000 * 1000) / (900::real)\<rfloor> = 2" by simp
  have f2: "nat \<lfloor>(1900 + 33 / 1000 * 1000) / (900 * 1.8 :: real)\<rfloor> = 1" by simp
  from spawner_boss_gate [of twoDue "33 / 1000" 800 600 "constRng (1 / 2)"] pre f1
  have a: "\<exists>s' rs'. spawning (33 / 1000) 800 600 (constRng (1 / 2)) twoDue = Some (s', rs') \<and>
      length (enemies s') = 2 \<and> spawnAccumulator s' = 133"
    by auto
  from spawner_boss_gate [of bossAround "33 / 1000" 800 600 "constRng (1 / 2)"] pre' f2
  have b: "\<exists>s' rs'. spawning (33 / 1000) 800 600 (constRng (1 / 2)) bossAround = Some (s', rs') \<and>
      enemies s' = enemies bossAround \<and> spawnAccumulator s' = 313"
    by simp
  from pre pre' a b show ?thesis by simp
qed


subsection \<open>The tick returns\<close>

lemma fair_skip: "fair rs \<Longrightarrow> fair (skip m rs)"
proof -
  assume f: "fair rs"
  have "\<exists>n. nat \<lfloor>skip m rs (n + k) * real (length THEMES)\<rfloor> \<noteq> ex" for k ex
  proof -
    from f obtain n where "nat \<lfloor>rs (n + (k + m)) * real (length THEMES)\<rfloor> \<noteq> ex"
      unfolding fair_def by blast
    then show ?thesis by (auto simp: skip_def add.assoc intro: exI [of _ n])
  qed
  then show ?thesis unfolding fair_def by blast
qed

lemma skip_skip: "skip a (skip b rs) = skip (a + b) rs"
  by (simp add: skip_def add.assoc)

lemma skip_0: "skip 0 rs = rs"
  by (simp add: skip_def)

lemma pickLoop_supply:
  assumes "pickLoop ex idx rs = Some r"
  shows "\<exists>m. snd r = skip m rs"
proof (rule pickLoop.raw_induct [where P = "\<lambda>ex idx rs r. \<exists>m. snd r = skip m rs", OF _ assms])
  fix f ex idx rs r
  assume IH: "\<And>ex idx rs r. f ex idx rs = Some r \<Longrightarrow> \<exists>m. snd r = skip m rs"
    and eq: "(if idx = ex then f ex (nat \<lfloor>rs 0 * real (length THEMES)\<rfloor>) (skip 1 rs)
              else Some (idx, rs)) = Some r"
  show "\<exists>m. snd r = skip m rs"
  proof (cases "idx = ex")
    case True
    with eq have "f ex (nat \<lfloor>rs 0 * real (length THEMES)\<rfloor>) (skip 1 rs) = Some r"
      by simp
    from IH [OF this] obtain m where "snd r = skip m (skip 1 rs)" ..
    then have "snd r = skip (m + 1) rs" by (simp add: skip_skip)
    then show ?thesis ..
  next
    case False
    with eq have "snd r = skip 0 rs" by (auto simp: skip_0)
    then show ?thesis ..
  qed
qed

lemma pickNext_fair:
  assumes "fair rs"
  shows "\<exists>i rs1. pickNextThemeIndex ex rs = Some (i, rs1) \<and> fair rs1"
proof -
  from assms obtain n where "nat \<lfloor>rs n * real (length THEMES)\<rfloor> \<noteq> ex"
    unfolding fair_def by (metis add_0_right)
  with pickLoop_returns [of rs n ex] obtain r where r: "pickLoop ex ex rs = Some r"
    by blast
  from pickLoop_supply [OF r] obtain m where "snd r = skip m rs" ..
  with assms have "fair (snd r)" by (simp add: fair_skip)
  with r show ?thesis
    by (cases r) (simp add: pickNextThemeIndex_def length_THEMES)
qed

lemma themeStart_returns:
  assumes "fair rs"
  shows "\<exists>s1 rs1. themeStart dt rs s = Some (s1, rs1) \<and> fair rs1 \<and>
    spawnInterval s1 = spawnInterval s"
proof (cases "\<not> themeTransitioning s \<and> themeDuration s < themeTimer s + dt")
  case True
  from pickNext_fair [OF assms, of "currentThemeIdx s"] obtain i rs1 where
    "pickNextThemeIndex (currentThemeIdx s) rs = Some (i, rs1)" "fair rs1"
    by blast
  with True show ?thesis by (simp add: themeStart_def Let_def)
next
  case False
  with assms show ?thesis by (auto simp: themeStart_def Let_def)
qed

lemma themeCrossfade_returns:
  assumes "fair rs"
  shows "\<exists>s1 rs1. themeCrossfade dt rs s = Some (s1, rs1) \<and> fair rs1 \<and>
    spawnInterval s1 = spawnInterval s"
proof (cases "themeTransitioning s \<and> 1 \<le> themeBlend s + dt / 4")
  case True
  from pickNext_fair [OF assms, of "nextThemeIdx s"] obtain i rs1 where
    "pickNextThemeIndex (nextThemeIdx s) rs = Some (i, rs1)" "fair rs1"
    by blast
  with True show ?thesis by (simp add: themeCrossfade_def Let_def)
next
  case False
  with assms show ?thesis by (auto simp: themeCrossfade_def Let_def)
qed

lemma themeRotation_returns:
  assumes "fair rs"
  shows "\<exists>s1 rs1. themeRotation dt rs s = Some (s1, rs1) \<and> spawnInterval s1 = spawnInterval s"
proof -
  from themeStart_returns [OF assms, of dt s] obtain s0 rs0 where
    a: "themeStart dt rs s = Some (s0, rs0)" "fair rs0" "spawnInterval s0 = spawnInterval s"
    by blast
  from themeCrossfade_returns [OF a(2), of dt s0] obtain s1 rs1 where
    b: "themeCrossfade dt rs0 s0 = Some (s1, rs1)" "spawnInterval s1 = spawnInterval s0"
    by blast
  from a b show ?thesis by (simp add: themeRotation_def)
qed

lemma spawning_returns:
  assumes "0 < spawnInterval s"
  shows "\<exists>r. spawning dt width height rs s = Some r"
proof (cases "bossAlive s")
  case True
  let ?s1 = "s\<lparr>spawnAccumulator := spawnAccumulator s + dt * 1000\<rparr>"
  from assms have pos: "0 < spawnInterval s * 1.8" by simp
  from True have b1: "bossAlive ?s1" by (simp add: bossAlive_def)
  from spawnLoop_boss [OF pos, of ?s1 _ width height rs, OF refl] b1 True show ?thesis
    by (simp add: spawning_def spawnStepOf_def Let_def bossAlive_def)
next
  case False
  let ?s1 = "s\<lparr>spawnAccumulator := spawnAccumulator s + dt * 1000\<rparr>"
  from False have b1: "\<not> bossAlive ?s1" by (simp add: bossAlive_def)
  from spawnLoop_regular [OF assms, of ?s1 _ width height rs, OF refl] obtain s' rs' where
    "spawnLoop (spawnInterval s) False width height (?s1, rs) = Some (s', rs')"
    by blast
  with b1 False show ?thesis
    by (simp add: spawning_def spawnStepOf_def Let_def bossAlive_def)
qed

lemma spawnAll_returns:
  assumes "0 < spawnInterval s"
  shows "\<exists>r. spawnAll dt width height rs s = Some r"
proof -
  from spawning_returns [OF assms] obtain r where "spawning dt width height rs s = Some r" ..
  then show ?thesis
    by (cases r) (simp add: spawnAll_def split: prod.splits)
qed

lemma spawnInterval_pre:
  "0 < spawnInterval s \<Longrightarrow> 0 < spawnInterval (difficulty dt (comboDecay dt s))"
  by (simp add: difficulty_def comboDecay_def Let_def max_def)

text \<open>
  A tick returns when the spawn interval is positive and the supply of draws never gets
  stuck on one theme index.
\<close>

lemma update_returns:
  assumes "0 < spawnInterval s" and "fair rs"
  shows "\<exists>s'. update dt width height rs s = Some s'"
proof (cases "mode s = Playing \<and> \<not> pause s")
  case False
  then have "mode s \<noteq> Playing \<or> pause s" by simp
  from update_idle [OF this] show ?thesis by blast
next
  case True
  have "spawnInterval (moveRocket dt width height s) = spawnInterval s"
    by (simp add: moveRocket_def Let_def)
  with themeRotation_returns [OF assms(2), of dt "moveRocket dt width height s"]
  obtain s1 rs1 where
    1: "themeRotation dt rs (moveRocket dt width height s) = Some (s1, rs1)" and
    i: "spawnInterval s1 = spawnInterval s"
    by auto
  from i assms(1) have "0 < spawnInterval (difficulty dt (comboDecay dt s1))"
    by (simp add: spawnInterval_pre)
  from spawnAll_returns [OF this] obtain r where
    "spawnAll dt width height rs1 (difficulty dt (comboDecay dt s1)) = Some r" ..
  with 1 True show ?thesis
    by (cases r) (simp add: update_def)
qed

lemma fair_altRng: "nat \<lfloor>a * 5\<rfloor> \<noteq> nat \<lfloor>b * 5\<rfloor> \<Longrightarrow> fair (altRng a b)"
proof -
  assume d: "nat \<lfloor>a * 5\<rfloor> \<noteq> nat \<lfloor>b * 5\<rfloor>"
  have "\<exists>n. nat \<lfloor>altRng a b (n + k) * real (length THEMES)\<rfloor> \<noteq> ex" for k ex
  proof (cases "nat \<lfloor>altRng a b (0 + k) * real (length THEMES)\<rfloor> = ex")
    case False
    then show ?thesis by blast
  next
    case True
    with d have "nat \<lfloor>altRng a b (1 + k) * real (length THEMES)\<rfloor> \<noteq> ex"
      by (auto simp: altRng_def length_THEMES split: if_splits)
    then show ?thesis by blast
  qed
  then show ?thesis unfolding fair_def by blast
qed


subsection \<open>Theme rotation, tick by tick\<close>

text \<open>
  C8, as the code has it, for one tick in playing mode, with a positive spawn interval
  and a fair supply of draws: the tick returns, and its result is as follows. With no
  crossfade running and the theme timer still at most 35 s after the tick, nothing but
  the timer changes. On the first tick that takes the timer above 35 s a crossfade
  starts: the timer returns to 0 and a new next index, different from the current one,
  replaces the stored one. While the crossfade runs its blend grows by \<open>dt / 4\<close> a
  tick. On the tick that takes the blend to 1 it commits: the current index becomes the
  next index of the crossfade (the one drawn when it started), and a new next index
  different from the new current one is drawn.
\<close>

theorem theme_rotation_tick:
  assumes "mode s = Playing" and "\<not> pause s" and "themeDuration s = 35"
    and "0 < spawnInterval s" and "fair rs"
  shows
    "\<exists>s'. update dt width height rs s = Some s' \<and>
     (\<not> themeTransitioning s \<and> themeTimer s + dt \<le> 35 \<longrightarrow>
        \<not> themeTransitioning s' \<and> themeTimer s' = themeTimer s + dt \<and>
        themeBlend s' = themeBlend s \<and>
        currentThemeIdx s' = currentThemeIdx s \<and> nextThemeIdx s' = nextThemeIdx s) \<and>
     (\<not> themeTransitioning s \<and> 35 < themeTimer s + dt \<and> dt / 4 < 1 \<longrightarrow>
        themeTransitioning s' \<and> themeTimer s' = 0 \<and> themeBlend s' = dt / 4 \<and>
        currentThemeIdx s' = currentThemeIdx s \<and> nextThemeIdx s' \<noteq> currentThemeIdx s) \<and>
     (themeTransitioning s \<and> themeBlend s + dt / 4 < 1 \<longrightarrow>
        themeTransitioning s' \<and> themeBlend s' = themeBlend s + dt / 4 \<and>
        currentThemeIdx s' = currentThemeIdx s \<and> nextThemeIdx s' = nextThemeIdx s) \<and>
     (themeTransitioning s \<and> 1 \<le> themeBlend s + dt / 4 \<longrightarrow>
        \<not> themeTransitioning s' \<and> themeBlend s' = 0 \<and>
        currentThemeIdx s' = nextThemeIdx s \<and> nextThemeIdx s' \<noteq> currentThemeIdx s') \<and>
     themeDuration s' = 35"
proof -
  from update_returns [OF assms(4,5)] obtain s' where
    u: "update dt width height rs s = Some s'" ..
  define s0 where "s0 = moveRocket dt width height s"
  from assms(1,2) u obtain s1 rs1 where
    rot: "themeRotation dt rs s0 = Some (s1, rs1)" and
    view: "themeView s' = themeView s1"
    unfolding s0_def by (rule theme_update)
  have v0: "themeView s0 = themeView s"
    by (simp add: s0_def themeView_moveRocket)
  have a: "\<not> themeTransitioning s \<and> themeTimer s + dt \<le> 35 \<Longrightarrow>
      themeView s1 =
        (currentThemeIdx s, nextThemeIdx s, themeBlend s, themeTimer s + dt, 35, False)"
    using themeRotation_steady [OF rot] v0 assms(3) by (auto simp: themeView_def)
  have b: "\<not> themeTransitioning s \<and> 35 < themeTimer s + dt \<and> dt / 4 < 1 \<Longrightarrow>
      \<exists>i. i \<noteq> currentThemeIdx s \<and>
        themeView s1 = (currentThemeIdx s, i, dt / 4, 0, 35, True)"
    using themeRotation_begin [OF rot] v0 assms(3) by (auto simp: themeView_def)
  have c: "themeTransitioning s \<and> themeBlend s + dt / 4 < 1 \<Longrightarrow>
      themeView s1 =
        (currentThemeIdx s, nextThemeIdx s, themeBlend s + dt / 4, themeTimer s + dt, 35, True)"
    using themeRotation_blend [OF rot] v0 assms(3) by (auto simp: themeView_def)
  have d: "themeTransitioning s \<and> 1 \<le> themeBlend s + dt / 4 \<Longrightarrow>
      \<exists>i. i \<noteq> nextThemeIdx s \<and>
        themeView s1 = (nextThemeIdx s, i, 0, themeTimer s + dt, 35, False)"
    using themeRotation_commit [OF rot] v0 assms(3) by (auto simp: themeView_def)
  have e: "themeDuration s1 = themeDuration s0"
    using rot
    by (auto simp: themeRotation_def themeStart_def themeCrossfade_def Let_def
        split: option.splits if_splits)
  from a b c d e v0 view assms(3) have
    "(\<not> themeTransitioning s \<and> themeTimer s + dt \<le> 35 \<longrightarrow>
        \<not> themeTransitioning s' \<and> themeTimer s' = themeTimer s + dt \<and>
        themeBlend s' = themeBlend s \<and>
        currentThemeIdx s' = currentThemeIdx s \<and> nextThemeIdx s' = nextThemeIdx s) \<and>
     (\<not> themeTransitioning s \<and> 35 < themeTimer s + dt \<and> dt / 4 < 1 \<longrightarrow>
        themeTransitioning s' \<and> themeTimer s' = 0 \<and> themeBlend s' = dt / 4 \<and>
        currentThemeIdx s' = currentThemeIdx s \<and> nextThemeIdx s' \<noteq> currentThemeIdx s) \<and>
     (themeTransitioning s \<and> themeBlend s + dt / 4 < 1 \<longrightarrow>
        themeTransitioning s' \<and> themeBlend s' = themeBlend s + dt / 4 \<and>
        currentThemeIdx s' = currentThemeIdx s \<and> nextThemeIdx s' = nextThemeIdx s) \<and>
     (themeTransitioning s \<and> 1 \<le> themeBlend s + dt / 4 \<longrightarrow>
        \<not> themeTransitioning s' \<and> themeBlend s' = 0 \<and>
        currentThemeIdx s' = nextThemeIdx s \<and> nextThemeIdx s' \<noteq> currentThemeIdx s') \<and>
     themeDuration s' = 35"
    by (auto simp: themeView_def)
  with u show ?thesis by blast
qed


text \<open>
  The claim as the specification states it fails. Before the transition the stored
  next index is 1. The first tick past 35 seconds starts the transition and draws a new
  next index, here 3; after 121 ticks of 33 ms the crossfade is still running, and the
  122nd commits to theme 3, not to theme 1.
\<close>

theorem commit_not_stored_next:
  "currentThemeIdx aboutToRotate = 0 \<and> nextThemeIdx aboutToRotate = 1 \<and>
   \<not> themeTransitioning aboutToRotate \<and>
   map_option themeView (themeTicks 1 (33 / 1000) (listRng [7 / 10] (1 / 10)) aboutToRotate)
     = Some (0, 3, 33 / 4000, 0, 35, True) \<and>
   map_option themeView (themeTicks 121 (33 / 1000) (listRng [7 / 10] (1 / 10)) aboutToRotate)
     = Some (0, 3, 3993 / 4000, 33 * 120 / 1000, 35, True) \<and>
   map_option themeView (themeTicks 122 (33 / 1000) (listRng [7 / 10] (1 / 10)) aboutToRotate)
     = Some (3, 0, 0, 33 * 121 / 1000, 35, False)"
proof -
  let ?rs = "listRng [7 / 10] (1 / 10)"
  let ?s1 = "aboutToRotate\<lparr>themeTimer := 0, themeTransitioning := True, themeBlend := 0,
     nextThemeIdx := 3, themeBlend := 33 / 4000\<rparr>"
  let ?s2 = "?s1\<lparr>themeTimer := themeTimer ?s1 + real (120::nat) * (33 / 1000),
     themeBlend := themeBlend ?s1 + real (120::nat) * ((33 / 1000) / 4)\<rparr>"
  have 1: "themeTicks 1 (33 / 1000) ?rs aboutToRotate = Some ?s1"
    by (simp add: aboutToRotate_def playing0_def initState_def themeRotation_def
        themeStart_def themeCrossfade_def pickNextThemeIndex_def pickLoop.simps
        listRng_def skip_def length_THEMES Let_def)
  have 2: "themeTicks 120 (33 / 1000) ?rs ?s1 = Some ?s2"
    by (rule themeTicks_blend) simp_all
  have 3: "map_option themeView (themeTicks 1 (33 / 1000) ?rs ?s2)
      = Some (3, 0, 0, 33 * 121 / 1000, 35, False)"
    by (simp add: aboutToRotate_def playing0_def initState_def themeRotation_def
        themeStart_def themeCrossfade_def pickNextThemeIndex_def pickLoop.simps
        listRng_def skip_def length_THEMES Let_def themeView_def)
  have 121: "themeTicks 121 (33 / 1000) ?rs aboutToRotate = Some ?s2"
    using themeTicks_add [of 1 120 "33 / 1000" ?rs aboutToRotate] 1 2 by simp
  have 122: "themeTicks 122 (33 / 1000) ?rs aboutToRotate = themeTicks 1 (33 / 1000) ?rs ?s2"
    using themeTicks_add [of 121 1 "33 / 1000" ?rs aboutToRotate] 121 by simp
  have v1: "themeView ?s1 = (0, 3, 33 / 4000, 0, 35, True)"
    by (simp add: aboutToRotate_def playing0_def initState_def themeView_def)
  have v2: "themeView ?s2 = (0, 3, 3993 / 4000, 33 * 120 / 1000, 35, True)"
    by (simp add: aboutToRotate_def playing0_def initState_def themeView_def)
  have v0: "currentThemeIdx aboutToRotate = 0 \<and> nextThemeIdx aboutToRotate = 1 \<and>
      \<not> themeTransitioning aboutToRotate"
    by (simp add: aboutToRotate_def playing0_def initState_def length_THEMES)
  show ?thesis
    using v0 1 v1 121 v2 122 3 by simp
qed

theorem theme_rotation_tick_witness:
  "mode aboutToRotate = Playing \<and> \<not> pause aboutToRotate \<and> themeDuration aboutToRotate = 35 \<and>
   0 < spawnInterval aboutToRotate \<and> fair (altRng (7 / 10) (1 / 10)) \<and>
   \<not> themeTransitioning aboutToRotate \<and> 35 < themeTimer aboutToRotate + 33 / 1000 \<and>
   (\<exists>s'. update (33 / 1000) 800 600 (altRng (7 / 10) (1 / 10)) aboutToRotate = Some s' \<and>
      themeTransitioning s' \<and> themeTimer s' = 0 \<and> themeBlend s' = 33 / 4000 \<and>
      currentThemeIdx s' = 0 \<and> nextThemeIdx s' \<noteq> 0)"
proof -
  have pre: "mode aboutToRotate = Playing \<and> \<not> pause aboutToRotate \<and>
      themeDuration aboutToRotate = 35 \<and> \<not> themeTransitioning aboutToRotate \<and>
      themeTimer aboutToRotate = 35 \<and> currentThemeIdx aboutToRotate = 0 \<and>
      0 < spawnInterval aboutToRotate"
    by (simp add: aboutToRotate_def playing0_def initState_def)
  have f: "fair (altRng (7 / 10) (1 / 10))"
    by (rule fair_altRng) simp
  from pre f
    theme_rotation_tick [of aboutToRotate "altRng (7 / 10) (1 / 10)" "33 / 1000" 800 600]
  obtain s' where
    "update (33 / 1000) 800 600 (altRng (7 / 10) (1 / 10)) aboutToRotate = Some s'"
    "themeTransitioning s' \<and> themeTimer s' = 0 \<and> themeBlend s' = 33 / 4000 \<and>
      currentThemeIdx s' = 0 \<and> nextThemeIdx s' \<noteq> 0"
    by auto
  with pre f show ?thesis by auto
qed


subsection \<open>Power-up pickup\<close>

lemma inPickupRange_ttl [simp]: "inPickupRange r (p\<lparr>pu_ttl := t\<rparr>) = inPickupRange r p"
  by (simp add: inPickupRange_def)

lemma picked_Cons:
  "picked r (p # ps) ty = ((pu_type p = ty \<and> inPickupRange r p) \<or> picked r ps ty)"
  by (simp add: picked_def)

lemma picked_Nil [simp]: "\<not> picked r [] ty"
  by (simp add: picked_def)

lemma rocket_collect [simp]: "rocket (collect ty s) = rocket s"
  by (cases ty) simp_all

text \<open>
  The loop over the power-ups: every effect whose power-up is within reach ends at
  its fixed value, every other effect where it was; the power-ups kept are those out
  of reach with life left.
\<close>

lemma pupsLoop_eq:
  "pupsLoop dt ps rem s = (rem1, s1) \<Longrightarrow>
     rocket s1 = rocket s \<and>
     rem1 = rem @ filter (\<lambda>p. \<not> inPickupRange (rocket s) p \<and> 0 < pu_ttl p)
                    (map (\<lambda>p. p\<lparr>pu_ttl := pu_ttl p - dt\<rparr>) ps) \<and>
     hasShield s1 = (picked (rocket s) ps Shield \<or> hasShield s) \<and>
     shieldTimer s1 = (if picked (rocket s) ps Shield then 8 else shieldTimer s) \<and>
     slowMo s1 = (if picked (rocket s) ps Slowmo then 6 else slowMo s) \<and>
     magnet s1 = (if picked (rocket s) ps Magnet then 10 else magnet s) \<and>
     homing s1 = (if picked (rocket s) ps Homing then 10 else homing s) \<and>
     spread s1 = (if picked (rocket s) ps Spread then 10 else spread s) \<and>
     laser s1 = (if picked (rocket s) ps Laser then 6 else laser s)"
proof (induction ps arbitrary: rem s)
  case Nil
  then show ?case by auto
next
  case (Cons p ps)
  let ?p1 = "p\<lparr>pu_ttl := pu_ttl p - dt\<rparr>"
  show ?case
  proof (cases "inPickupRange (rocket s) p")
    case True
    with Cons.prems have "pupsLoop dt ps rem (collect (pu_type p) s) = (rem1, s1)"
      by (simp add: Let_def)
    from Cons.IH [OF this] True show ?thesis
      by (cases "pu_type p") (simp_all add: picked_Cons)
  next
    case False
    with Cons.prems have
      "pupsLoop dt ps (if 0 < pu_ttl ?p1 then rem @ [?p1] else rem) s = (rem1, s1)"
      by (simp add: Let_def split: if_splits)
    from Cons.IH [OF this] False show ?thesis
      by (simp add: picked_Cons)
  qed
qed

lemma powerUpsPass_eq:
  "rocket (powerUpsPass dt s) = rocket s \<and>
   powerUps (powerUpsPass dt s) =
     filter (\<lambda>p. \<not> inPickupRange (rocket s) p \<and> 0 < pu_ttl p)
       (map (\<lambda>p. p\<lparr>pu_ttl := pu_ttl p - dt\<rparr>) (powerUps s)) \<and>
   hasShield (powerUpsPass dt s) = (picked (rocket s) (powerUps s) Shield \<or> hasShield s) \<and>
   shieldTimer (powerUpsPass dt s) =
     (if picked (rocket s) (powerUps s) Shield then 8 else shieldTimer s) \<and>
   slowMo (powerUpsPass dt s) = (if picked (rocket s) (powerUps s) Slowmo then 6 else slowMo s) \<and>
   magnet (powerUpsPass dt s) = (if picked (rocket s) (powerUps s) Magnet then 10 else magnet s) \<and>
   homing (powerUpsPass dt s) = (if picked (rocket s) (powerUps s) Homing then 10 else homing s) \<and>
   spread (powerUpsPass dt s) = (if picked (rocket s) (powerUps s) Spread then 10 else spread s) \<and>
   laser (powerUpsPass dt s) = (if picked (rocket s) (powerUps s) Laser then 6 else laser s)"
proof -
  obtain rem1 s1 where p: "pupsLoop dt (powerUps s) [] s = (rem1, s1)"
    by (metis surj_pair)
  from pupsLoop_eq [OF p] p show ?thesis
    by (simp add: powerUpsPass_def)
qed

lemma picked_member:
  "p \<in> set ps \<Longrightarrow> inPickupRange r p \<Longrightarrow> picked r ps (pu_type p)"
  by (auto simp: picked_def list_ex_iff)

text \<open>
  C7. When the pickup pass of a tick finds a power-up within reach of the ship, the
  effect of its type leaves the pass at the fixed value of the type, whatever it was
  before: shield 8 with the shield flag set, slow-mo 6, magnet 10, homing 10, spread 10,
  laser 6. The power-up is gone from the population, and an effect with no power-up of
  its type within reach keeps its value.
\<close>

theorem pickup_sets_duration:
  assumes "p \<in> set (powerUps s)" and "inPickupRange (rocket s) p"
  shows
    "(pu_type p = Shield \<longrightarrow>
        hasShield (powerUpsPass dt s) \<and> shieldTimer (powerUpsPass dt s) = 8) \<and>
     (pu_type p = Slowmo \<longrightarrow> slowMo (powerUpsPass dt s) = 6) \<and>
     (pu_type p = Magnet \<longrightarrow> magnet (powerUpsPass dt s) = 10) \<and>
     (pu_type p = Homing \<longrightarrow> homing (powerUpsPass dt s) = 10) \<and>
     (pu_type p = Spread \<longrightarrow> spread (powerUpsPass dt s) = 10) \<and>
     (pu_type p = Laser \<longrightarrow> laser (powerUpsPass dt s) = 6) \<and>
     p\<lparr>pu_ttl := pu_ttl p - dt\<rparr> \<notin> set (powerUps (powerUpsPass dt s)) \<and>
     (\<not> picked (rocket s) (powerUps s) Shield \<longrightarrow>
        shieldTimer (powerUpsPass dt s) = shieldTimer s \<and>
        hasShield (powerUpsPass dt s) = hasShield s) \<and>
     (\<not> picked (rocket s) (powerUps s) Slowmo \<longrightarrow> slowMo (powerUpsPass dt s) = slowMo s) \<and>
     (\<not> picked (rocket s) (powerUps s) Magnet \<longrightarrow> magnet (powerUpsPass dt s) = magnet s) \<and>
     (\<not> picked (rocket s) (powerUps s) Homing \<longrightarrow> homing (powerUpsPass dt s) = homing s) \<and>
     (\<not> picked (rocket s) (powerUps s) Spread \<longrightarrow> spread (powerUpsPass dt s) = spread s) \<and>
     (\<not> picked (rocket s) (powerUps s) Laser \<longrightarrow> laser (powerUpsPass dt s) = laser s)"
proof -
  note eq = powerUpsPass_eq [of dt s]
  have got: "picked (rocket s) (powerUps s) (pu_type p)"
    using assms by (rule picked_member)
  have gone: "p\<lparr>pu_ttl := pu_ttl p - dt\<rparr> \<notin> set (powerUps (powerUpsPass dt s))"
    using assms(2) by (simp add: eq)
  have set: "(pu_type p = Shield \<longrightarrow>
        hasShield (powerUpsPass dt s) \<and> shieldTimer (powerUpsPass dt s) = 8) \<and>
     (pu_type p = Slowmo \<longrightarrow> slowMo (powerUpsPass dt s) = 6) \<and>
     (pu_type p = Magnet \<longrightarrow> magnet (powerUpsPass dt s) = 10) \<and>
     (pu_type p = Homing \<longrightarrow> homing (powerUpsPass dt s) = 10) \<and>
     (pu_type p = Spread \<longrightarrow> spread (powerUpsPass dt s) = 10) \<and>
     (pu_type p = Laser \<longrightarrow> laser (powerUpsPass dt s) = 6)"
    using got by (cases "pu_type p") (simp_all add: eq)
  have kept: "(\<not> picked (rocket s) (powerUps s) Shield \<longrightarrow>
        shieldTimer (powerUpsPass dt s) = shieldTimer s \<and>
        hasShield (powerUpsPass dt s) = hasShield s) \<and>
     (\<not> picked (rocket s) (powerUps s) Slowmo \<longrightarrow> slowMo (powerUpsPass dt s) = slowMo s) \<and>
     (\<not> picked (rocket s) (powerUps s) Magnet \<longrightarrow> magnet (powerUpsPass dt s) = magnet s) \<and>
     (\<not> picked (rocket s) (powerUps s) Homing \<longrightarrow> homing (powerUpsPass dt s) = homing s) \<and>
     (\<not> picked (rocket s) (powerUps s) Spread \<longrightarrow> spread (powerUpsPass dt s) = spread s) \<and>
     (\<not> picked (rocket s) (powerUps s) Laser \<longrightarrow> laser (powerUpsPass dt s) = laser s)"
    by (simp add: eq)
  from set gone kept show ?thesis by blast
qed

theorem pickup_sets_duration_witness:
  "shieldTimer shieldAhead = 3 \<and> magnet shieldAhead = 4 \<and>
   shieldTimer (powerUpsPass (33 / 1000) shieldAhead) = 8 \<and>
   hasShield (powerUpsPass (33 / 1000) shieldAhead) \<and>
   magnet (powerUpsPass (33 / 1000) shieldAhead) = 4"
proof -
  let ?p = "\<lparr>pu_position = (24, 14), pu_radius = 10, pu_type = Shield, pu_ttl = 5\<rparr>"
  have m: "?p \<in> set (powerUps shieldAhead)"
    by (simp add: shieldAhead_def playing0_def initState_def)
  have r: "inPickupRange (rocket shieldAhead) ?p"
    by (simp add: shieldAhead_def playing0_def initState_def inPickupRange_def
        rocketCenter_def)
  have n: "\<not> picked (rocket shieldAhead) (powerUps shieldAhead) Magnet"
    by (simp add: shieldAhead_def playing0_def initState_def picked_def inPickupRange_def
        rocketCenter_def)
  have v: "shieldTimer shieldAhead = 3 \<and> magnet shieldAhead = 4"
    by (simp add: shieldAhead_def playing0_def initState_def)
  from pickup_sets_duration [OF m r, of "33 / 1000"] n v show ?thesis
    by simp
qed

text \<open>
  The decay of the same tick follows the pickup pass (slow-mo decays before it): at the
  end of the decay step a freshly collected shield, magnet, homing, spread or laser
  effect stands at its fixed value less the tick's time step.
\<close>

lemma pickup_then_decay:
  assumes "picked (rocket s) (powerUps s) ty" and "0 \<le> dt" and "dt < 6"
  shows
    "(ty = Shield \<longrightarrow> shieldTimer (decrementTimers dt (powerUpsPass dt s)) = 8 - dt \<and>
        hasShield (decrementTimers dt (powerUpsPass dt s))) \<and>
     (ty = Slowmo \<longrightarrow> slowMo (decrementTimers dt (powerUpsPass dt s)) = 6) \<and>
     (ty = Magnet \<longrightarrow> magnet (decrementTimers dt (powerUpsPass dt s)) = 10 - dt) \<and>
     (ty = Homing \<longrightarrow> homing (decrementTimers dt (powerUpsPass dt s)) = 10 - dt) \<and>
     (ty = Spread \<longrightarrow> spread (decrementTimers dt (powerUpsPass dt s)) = 10 - dt) \<and>
     (ty = Laser \<longrightarrow> laser (decrementTimers dt (powerUpsPass dt s)) = 6 - dt)"
  using assms by (cases ty) (simp_all add: decrementTimers_def Let_def powerUpsPass_eq)


subsection \<open>Power-ups, wells and effects in play\<close>

lemma quiet_initState: "quiet (initState i)"
  by (simp add: quiet_def initState_def)

lemma quiet_moveRocket: "quiet (moveRocket dt width height s) = quiet s"
  by (simp add: moveRocket_def Let_def quiet_def)

lemma quiet_theme_upd:
  "quiet (x\<lparr>themeTimer := a\<rparr>) = quiet x" "quiet (x\<lparr>themeBlend := a\<rparr>) = quiet x"
  "quiet (x\<lparr>themeTransitioning := b\<rparr>) = quiet x" "quiet (x\<lparr>nextThemeIdx := n\<rparr>) = quiet x"
  "quiet (x\<lparr>currentThemeIdx := n\<rparr>) = quiet x"
  by (simp_all add: quiet_def)

lemma quiet_themeStart:
  "themeStart dt rs s = Some (s1, rs1) \<Longrightarrow> quiet s1 = quiet s"
  by (auto simp: themeStart_def Let_def quiet_theme_upd split: option.splits if_splits)

lemma quiet_themeCrossfade:
  "themeCrossfade dt rs s = Some (s1, rs1) \<Longrightarrow> quiet s1 = quiet s"
  by (auto simp: themeCrossfade_def Let_def quiet_theme_upd split: option.splits if_splits)

lemma quiet_themeRotation:
  assumes "themeRotation dt rs s = Some (s1, rs1)"
  shows "quiet s1 = quiet s"
proof -
  from assms obtain s0 rs0 where a: "themeStart dt rs s = Some (s0, rs0)"
    and b: "themeCrossfade dt rs0 s0 = Some (s1, rs1)"
    by (auto simp: themeRotation_def split: option.splits)
  from quiet_themeStart [OF a] quiet_themeCrossfade [OF b] show ?thesis by simp
qed

lemma quiet_driftWells: "quiet s \<Longrightarrow> quiet (driftWells dt s)"
  by (simp add: driftWells_def quiet_def)

lemma quiet_slowMoDecay: "quiet s \<Longrightarrow> quiet (slowMoDecay dt s)"
  by (simp add: slowMoDecay_def quiet_def)

lemma quiet_beamsPass: "quiet s \<Longrightarrow> quiet (beamsPass dt s)"
  by (simp add: beamsPass_def quiet_def)

lemma quiet_powerUpsPass: "quiet s \<Longrightarrow> quiet (powerUpsPass dt s)"
  by (simp add: powerUpsPass_def quiet_def)

lemma quiet_decrementTimers: "quiet s \<Longrightarrow> quiet (decrementTimers dt s)"
  by (simp add: decrementTimers_def quiet_def)

lemma quiet_shipCollisions: "quiet s \<Longrightarrow> quiet (fst (shipCollisions rs s))"
  using calm_shipCollisions [of rs s] by (simp add: quiet_def calmView_def)

lemmas quiet_world = fixed_world [THEN fixed_quiet]

lemma quiet_updateWorld: "quiet s \<Longrightarrow> quiet (updateWorld dt width height rs s)"
  unfolding updateWorld_def Let_def case_prod_beta
  by (intro quiet_shipCollisions quiet_decrementTimers quiet_powerUpsPass quiet_beamsPass
      quiet_slowMoDecay quiet_driftWells | simp only: quiet_world)+

lemma quiet_update:
  assumes "quiet s" and "update dt width height rs s = Some s'"
  shows "quiet s'"
proof (cases "mode s = Playing \<and> \<not> pause s")
  case False
  then have "mode s \<noteq> Playing \<or> pause s" by simp
  from update_idle [OF this, of dt width height rs] assms show ?thesis by simp
next
  case True
  then have m: "mode s = Playing" and p: "\<not> pause s" by simp_all
  from m p assms(2) obtain s1 rs1 s2 rs2 where
    1: "themeRotation dt rs (moveRocket dt width height s) = Some (s1, rs1)" and
    2: "spawnAll dt width height rs1 (difficulty dt (comboDecay dt s1)) = Some (s2, rs2)" and
    3: "s' = updateWorld dt width height rs2 s2"
    by (rule update_parts)
  from quiet_themeRotation [OF 1] assms(1) have q1: "quiet s1"
    by (simp add: quiet_moveRocket)
  from fixed_spawnAll [OF 2] have "fixedView s2 = fixedView s1"
    by (simp add: fixed_difficulty fixed_comboDecay)
  from fixed_quiet [OF this] q1 have "quiet s2" by simp
  with 3 show ?thesis by (simp add: quiet_updateWorld)
qed

lemma quiet_shootBullet: "quiet s \<Longrightarrow> quiet (shootBullet c rs s)"
  by (simp add: shootBullet_def Let_def quiet_def)

lemma quiet_startGame: "quiet (startGame c s) = quiet s"
  by (simp add: startGame_def resetGame_def Let_def quiet_def split: option.splits prod.splits)

lemma quiet_switchMap: "switchMap d rs s = Some s' \<Longrightarrow> quiet s' = quiet s"
  by (auto simp: switchMap_def Let_def quiet_theme_upd split: option.splits)

lemma quiet_toggles:
  "quiet (x\<lparr>hideHUD := a\<rparr>) = quiet x" "quiet (x\<lparr>reducedMotion := a\<rparr>) = quiet x"
  "quiet (x\<lparr>highContrast := a\<rparr>) = quiet x" "quiet (x\<lparr>pressedKeys := k\<rparr>) = quiet x"
  "quiet (x\<lparr>pause := a\<rparr>) = quiet x"
  by (simp_all add: quiet_def)

lemma quiet_handleKeyDown:
  assumes "quiet s" and "handleKeyDown doc key repeat rs s = Some s'"
  shows "quiet s'"
proof (cases repeat)
  case True
  with assms show ?thesis by (simp add: handleKeyDown_def)
next
  case False
  define s1 where "s1 = s\<lparr>pressedKeys := insert key (pressedKeys s)\<rparr>"
  define s4 where "s4 =
    (let s2 = (if key = ''h'' then s1\<lparr>hideHUD := \<not> hideHUD s1\<rparr> else s1);
         s3 = (if key = ''m'' then s2\<lparr>reducedMotion := \<not> reducedMotion s2\<rparr> else s2)
     in if key = ''c'' then s3\<lparr>highContrast := \<not> highContrast s3\<rparr> else s3)"
  define s5 where "s5 =
    (if mode s4 = Playing \<and> (key = '' '' \<or> key = ''k'')
     then shootBullet (canvas doc) rs s4 else s4)"
  define start where "start = (mode s1 = Menu \<and> (key = ''enter'' \<or> key = '' ''))"
  define restart where "restart = (mode s4 = Gameover \<and> (key = ''r'' \<or> key = ''enter''))"
  define switch where "switch = (key = ''q'' \<or> key = ''e'')"
  define toggle where "toggle = (key = ''p'')"
  have q1: "quiet s1" using assms(1) by (simp add: s1_def quiet_toggles)
  then have q4: "quiet s4" by (simp add: s4_def Let_def quiet_toggles)
  then have q5: "quiet s5" by (simp add: s5_def quiet_shootBullet)
  have "handleKeyDown doc key repeat rs s =
    (if start then Some (startGame (container doc) s1)
     else if toggle then Some (s1\<lparr>pause := \<not> pause s1\<rparr>)
     else if restart then Some (startGame (container doc) s4)
     else if switch then switchMap (if key = ''e'' then 1 else - 1) rs s5
     else Some s5)"
    unfolding handleKeyDown_def s1_def s4_def s5_def start_def restart_def switch_def
      toggle_def Let_def using False
    by (simp only: if_False)
  with assms(2) have eq:
    "(if start then Some (startGame (container doc) s1)
      else if toggle then Some (s1\<lparr>pause := \<not> pause s1\<rparr>)
      else if restart then Some (startGame (container doc) s4)
      else if switch then switchMap (if key = ''e'' then 1 else - 1) rs s5
      else Some s5) = Some s'"
    by simp
  show ?thesis
  proof (cases start)
    case True
    with eq have "s' = startGame (container doc) s1" by simp
    with q1 show ?thesis by (simp add: quiet_startGame)
  next
    case ns: False
    show ?thesis
    proof (cases toggle)
      case True
      with ns eq have "s' = s1\<lparr>pause := \<not> pause s1\<rparr>" by simp
      with q1 show ?thesis by (simp add: quiet_toggles)
    next
      case nt: False
      show ?thesis
      proof (cases restart)
        case True
        with ns nt eq have "s' = startGame (container doc) s4" by simp
        with q4 show ?thesis by (simp add: quiet_startGame)
      next
        case nr: False
        show ?thesis
        proof (cases switch)
          case True
          with ns nt nr eq have "switchMap (if key = ''e'' then 1 else - 1) rs s5 = Some s'"
            by simp
          from quiet_switchMap [OF this] q5 show ?thesis by simp
        next
          case False
          with ns nt nr eq have "s' = s5" by simp
          with q5 show ?thesis by simp
        qed
      qed
    qed
  qed
qed

lemma quiet_menuClick: "quiet (menuClick doc m hs s) = quiet s"
proof (induction hs)
  case Nil
  show ?case by (simp add: quiet_startGame)
next
  case (Cons hit hs)
  have sec: "quiet (s\<lparr>menuSection := x\<rparr>) = quiet s" for x
    by (simp add: quiet_def)
  show ?case
    by (cases "h_type hit") (simp_all add: Cons.IH quiet_startGame sec)
qed

lemma quiet_handleMouseDown: "quiet s \<Longrightarrow> quiet (handleMouseDown doc e rs s)"
  by (auto simp: handleMouseDown_def quiet_startGame quiet_menuClick quiet_shootBullet
      split: option.splits)

lemma quiet_resize: "quiet (resizeCanvasToContainer doc s) = quiet s"
proof -
  have r: "quiet (s\<lparr>rocket := x\<rparr>) = quiet s" for x
    by (simp add: quiet_def)
  show ?thesis
    by (simp add: resizeCanvasToContainer_def Let_def r split: option.splits prod.splits)
qed

lemma quiet_loop:
  assumes "quiet s" and "loop time width height rects rs s = Some s'"
  shows "quiet s'"
proof -
  from assms(2) obtain s1 where
    u: "update (min 0.033 ((time - (case lastTime s of None \<Rightarrow> time | Some l \<Rightarrow> l)) / 1000))
          width height rs (s\<lparr>lastTime := Some time\<rparr>) = Some s1"
    and s': "s' = (if mode s1 = Menu then s1\<lparr>menuHitRects := rects\<rparr> else s1)"
    by (auto simp: loop_def Let_def split: option.splits)
  have upd: "quiet (x\<lparr>lastTime := a\<rparr>) = quiet x" "quiet (x\<lparr>menuHitRects := b\<rparr>) = quiet x"
    for x a b
    by (simp_all add: quiet_def)
  from assms(1) have "quiet (s\<lparr>lastTime := Some time\<rparr>)" by (simp add: upd)
  from quiet_update [OF this u] have "quiet s1" .
  with s' show ?thesis by (simp add: upd)
qed

lemma quiet_handle:
  assumes "quiet s" and "handle doc ev rs s = Some s'"
  shows "quiet s'"
proof (cases ev)
  case (KeyDown key repeat)
  with assms show ?thesis by (auto dest: quiet_handleKeyDown)
next
  case (KeyUp key)
  with assms show ?thesis by (auto simp: handleKeyUp_def quiet_toggles)
next
  case (MouseMove p)
  have "quiet (s\<lparr>aimPosition := Some p\<rparr>) = quiet s" by (simp add: quiet_def)
  with MouseMove assms show ?thesis by (auto simp: handleMouseMove_def split: if_splits)
next
  case (MouseDown e)
  with assms show ?thesis by (auto simp: quiet_handleMouseDown)
next
  case Resize
  with assms show ?thesis by (auto simp: quiet_resize)
next
  case (Frame time width height rects)
  with assms show ?thesis by (auto dest: quiet_loop)
next
  case (Tick dt width height)
  with assms show ?thesis by (auto dest: quiet_update)
qed

lemma quiet_render: "quiet (render doc s0 s) = quiet s"
proof -
  have upd: "quiet (x\<lparr>lastTime := a\<rparr>) = quiet x"
    "quiet (x\<lparr>score := b, scoreUpdaters := c\<rparr>) = quiet x" for x a b c
    by (simp_all add: quiet_def)
  show ?thesis
    by (simp add: render_def Let_def upd quiet_resize)
qed

lemma quiet_step:
  assumes "quiet s" and "step doc ev rs s = Some s'"
  shows "quiet s'"
proof -
  from assms(2) obtain s1 where
    h: "handle doc ev rs s = Some s1" and r: "s' = render doc s s1"
    by (auto simp: step_def)
  from quiet_handle [OF assms(1) h] r show ?thesis
    by (simp add: quiet_render)
qed

lemma quiet_run: "quiet s \<Longrightarrow> run evs s = Some s' \<Longrightarrow> quiet s'"
proof (induction evs arbitrary: s)
  case Nil
  then show ?case by simp
next
  case (Cons x evs)
  obtain doc ev rs where x: "x = (doc, ev, rs)" by (cases x)
  with Cons.prems(2) obtain s1 where
    1: "step doc ev rs s = Some s1" and 2: "run evs s1 = Some s'"
    by (auto split: option.splits)
  from quiet_step [OF Cons.prems(1) 1] have "quiet s1" .
  from Cons.IH [OF this 2] show ?case .
qed

text \<open>
  C2. In every state reached from the initial state by ticks, frames and input events,
  there is no power-up and no gravity well, every timed effect stands at 0 and the
  shield flag is off; no beam exists either.
\<close>

theorem no_powerups_no_effects:
  assumes "run evs (initState i) = Some s"
  shows "powerUps s = [] \<and> wells s = [] \<and> shieldTimer s = 0 \<and> slowMo s = 0 \<and> magnet s = 0 \<and>
    homing s = 0 \<and> spread s = 0 \<and> laser s = 0 \<and> \<not> hasShield s \<and> beams s = []"
  using quiet_run [OF quiet_initState assms] by (simp add: quiet_def)

lemmas input_eval =
  handleKeyDown_def handleMouseDown_def startGame_def resetGame_def shootBullet_def
  aimDirection_def aimPoint_def noseOrigin_def makeBullet_def normalize_def normLen_def
  orOne_def length_v_def hypot_def theDoc_def step_def render_def
  resizeCanvasToContainer_def

theorem no_powerups_no_effects_witness:
  "\<exists>s. run shortGame (initState 0) = Some s \<and> mode s = Playing \<and> powerUps s = [] \<and>
     wells s = [] \<and> shieldTimer s = 0 \<and> laser s = 0 \<and> \<not> hasShield s"
proof -
  have "map_option mode (run shortGame (initState 0)) = Some Playing"
    by (simp add: shortGame_def initState_def input_eval tick_eval
        cong: let_weak_cong prod.case_cong_weak)
  then obtain s where r: "run shortGame (initState 0) = Some s" and m: "mode s = Playing"
    by auto
  from no_powerups_no_effects [OF r] r m show ?thesis by simp
qed


subsection \<open>Hit points in play\<close>

text \<open>
  No beam exists in play, so every enemy of every state reached from the initial state
  has positive hit points.
\<close>

lemma alive_upd:
  "alive (x\<lparr>hideHUD := a\<rparr>) = alive x" "alive (x\<lparr>reducedMotion := a\<rparr>) = alive x"
  "alive (x\<lparr>highContrast := a\<rparr>) = alive x" "alive (x\<lparr>pressedKeys := k\<rparr>) = alive x"
  "alive (x\<lparr>pause := a\<rparr>) = alive x" "alive (x\<lparr>lastTime := t\<rparr>) = alive x"
  "alive (x\<lparr>menuHitRects := hr\<rparr>) = alive x" "alive (x\<lparr>menuSection := sec\<rparr>) = alive x"
  "alive (x\<lparr>aimPosition := p\<rparr>) = alive x" "alive (x\<lparr>rocket := r\<rparr>) = alive x"
  by (simp_all add: alive_def)

lemma alive_initState: "alive (initState i)"
  by (simp add: alive_def initState_def)

lemma alive_shootBullet: "alive (shootBullet c rs s) = alive s"
  by (simp add: shootBullet_def Let_def alive_def)

lemma alive_startGame: "alive (startGame c s)"
  by (simp add: startGame_def resetGame_def Let_def alive_def split: option.splits prod.splits)

lemma alive_switchMap: "switchMap d rs s = Some s' \<Longrightarrow> alive s' = alive s"
  by (auto simp: switchMap_def Let_def alive_def split: option.splits)

lemma alive_handleKeyDown:
  assumes "alive s" and "handleKeyDown doc key repeat rs s = Some s'"
  shows "alive s'"
proof (cases repeat)
  case True
  with assms show ?thesis by (simp add: handleKeyDown_def)
next
  case False
  define s1 where "s1 = s\<lparr>pressedKeys := insert key (pressedKeys s)\<rparr>"
  define s4 where "s4 =
    (let s2 = (if key = ''h'' then s1\<lparr>hideHUD := \<not> hideHUD s1\<rparr> else s1);
         s3 = (if key = ''m'' then s2\<lparr>reducedMotion := \<not> reducedMotion s2\<rparr> else s2)
     in if key = ''c'' then s3\<lparr>highContrast := \<not> highContrast s3\<rparr> else s3)"
  define s5 where "s5 =
    (if mode s4 = Playing \<and> (key = '' '' \<or> key = ''k'')
     then shootBullet (canvas doc) rs s4 else s4)"
  define start where "start = (mode s1 = Menu \<and> (key = ''enter'' \<or> key = '' ''))"
  define restart where "restart = (mode s4 = Gameover \<and> (key = ''r'' \<or> key = ''enter''))"
  define switch where "switch = (key = ''q'' \<or> key = ''e'')"
  define toggle where "toggle = (key = ''p'')"
  have q1: "alive s1" using assms(1) by (simp add: s1_def alive_upd)
  then have q4: "alive s4" by (simp add: s4_def Let_def alive_upd)
  then have q5: "alive s5" by (simp add: s5_def alive_shootBullet)
  have "handleKeyDown doc key repeat rs s =
    (if start then Some (startGame (container doc) s1)
     else if toggle then Some (s1\<lparr>pause := \<not> pause s1\<rparr>)
     else if restart then Some (startGame (container doc) s4)
     else if switch then switchMap (if key = ''e'' then 1 else - 1) rs s5
     else Some s5)"
    unfolding handleKeyDown_def s1_def s4_def s5_def start_def restart_def switch_def
      toggle_def Let_def using False
    by (simp only: if_False)
  with assms(2) have eq:
    "(if start then Some (startGame (container doc) s1)
      else if toggle then Some (s1\<lparr>pause := \<not> pause s1\<rparr>)
      else if restart then Some (startGame (container doc) s4)
      else if switch then switchMap (if key = ''e'' then 1 else - 1) rs s5
      else Some s5) = Some s'"
    by simp
  show ?thesis
  proof (cases start)
    case True
    with eq have "s' = startGame (container doc) s1" by simp
    then show ?thesis by (simp add: alive_startGame)
  next
    case ns: False
    show ?thesis
    proof (cases toggle)
      case True
      with ns eq have "s' = s1\<lparr>pause := \<not> pause s1\<rparr>" by simp
      with q1 show ?thesis by (simp add: alive_upd)
    next
      case nt: False
      show ?thesis
      proof (cases restart)
        case True
        with ns nt eq have "s' = startGame (container doc) s4" by simp
        then show ?thesis by (simp add: alive_startGame)
      next
        case nr: False
        show ?thesis
        proof (cases switch)
          case True
          with ns nt nr eq have "switchMap (if key = ''e'' then 1 else - 1) rs s5 = Some s'"
            by simp
          from alive_switchMap [OF this] q5 show ?thesis by simp
        next
          case False
          with ns nt nr eq have "s' = s5" by simp
          with q5 show ?thesis by simp
        qed
      qed
    qed
  qed
qed

lemma alive_menuClick: "alive s \<Longrightarrow> alive (menuClick doc m hs s)"
proof (induction hs)
  case Nil
  show ?case by (simp add: alive_startGame)
next
  case (Cons hit hs)
  then show ?case
    by (cases "h_type hit") (simp_all add: alive_startGame alive_upd)
qed

lemma alive_handleMouseDown: "alive s \<Longrightarrow> alive (handleMouseDown doc e rs s)"
  by (auto simp: handleMouseDown_def alive_startGame alive_menuClick alive_shootBullet
      split: option.splits)

lemma alive_resize: "alive (resizeCanvasToContainer doc s) = alive s"
  by (simp add: resizeCanvasToContainer_def Let_def alive_upd split: option.splits prod.splits)

lemma alive_loop:
  assumes "alive s" and "beams s = []" and "loop time width height rects rs s = Some s'"
  shows "alive s'"
proof -
  from assms(3) obtain s1 where
    u: "update (min 0.033 ((time - (case lastTime s of None \<Rightarrow> time | Some l \<Rightarrow> l)) / 1000))
          width height rs (s\<lparr>lastTime := Some time\<rparr>) = Some s1"
    and s': "s' = (if mode s1 = Menu then s1\<lparr>menuHitRects := rects\<rparr> else s1)"
    by (auto simp: loop_def Let_def split: option.splits)
  from assms(1,2) have "alive (s\<lparr>lastTime := Some time\<rparr>)" "beams (s\<lparr>lastTime := Some time\<rparr>) = []"
    by (simp_all add: alive_upd)
  from alive_update [OF u this(2,1)] have "alive s1" .
  with s' show ?thesis by (simp add: alive_upd)
qed

lemma alive_handle:
  assumes "alive s" and "beams s = []" and "handle doc ev rs s = Some s'"
  shows "alive s'"
proof (cases ev)
  case (KeyDown key repeat)
  with assms show ?thesis by (auto dest: alive_handleKeyDown)
next
  case (KeyUp key)
  with assms show ?thesis by (auto simp: handleKeyUp_def alive_upd)
next
  case (MouseMove p)
  with assms show ?thesis by (auto simp: handleMouseMove_def alive_upd split: if_splits)
next
  case (MouseDown e)
  with assms show ?thesis by (auto simp: alive_handleMouseDown)
next
  case Resize
  with assms show ?thesis by (auto simp: alive_resize)
next
  case (Frame time width height rects)
  with assms show ?thesis by (auto dest: alive_loop)
next
  case (Tick dt width height)
  with assms show ?thesis by (auto dest: alive_update)
qed

lemma alive_render: "alive (render doc s0 s) = alive s"
proof -
  have upd: "alive (x\<lparr>score := b, scoreUpdaters := c\<rparr>) = alive x" for x b c
    by (simp add: alive_def)
  show ?thesis
    by (simp add: render_def Let_def upd alive_upd alive_resize)
qed

lemma alive_step:
  assumes "alive s" and "beams s = []" and "step doc ev rs s = Some s'"
  shows "alive s'"
proof -
  from assms(3) obtain s1 where
    h: "handle doc ev rs s = Some s1" and r: "s' = render doc s s1"
    by (auto simp: step_def)
  from alive_handle [OF assms(1,2) h] r show ?thesis
    by (simp add: alive_render)
qed

lemma alive_run: "quiet s \<Longrightarrow> alive s \<Longrightarrow> run evs s = Some s' \<Longrightarrow> alive s'"
proof (induction evs arbitrary: s)
  case Nil
  then show ?case by simp
next
  case (Cons x evs)
  obtain doc ev rs where x: "x = (doc, ev, rs)" by (cases x)
  with Cons.prems(3) obtain s1 where
    1: "step doc ev rs s = Some s1" and 2: "run evs s1 = Some s'"
    by (auto split: option.splits)
  from Cons.prems(1) have "beams s = []" by (simp add: quiet_def)
  from alive_step [OF Cons.prems(2) this 1] have a: "alive s1" .
  from quiet_step [OF Cons.prems(1) 1] have "quiet s1" .
  from Cons.IH [OF this a 2] show ?case .
qed

lemma alive_in_play: "run evs (initState i) = Some s \<Longrightarrow> alive s"
  using alive_run [OF quiet_initState alive_initState] .

subsection \<open>Destruction by bullets\<close>




subsection \<open>Hit points and destruction in play\<close>



subsection \<open>Firing in play\<close>






end
